(* ===== verification/Sp1_Prelude.thy ===== *)
theory Sp1_Prelude
  imports Main "HOL-Library.Word" "HOL-Library.Monad_Syntax"
begin

text \<open>
  Shared vocabulary of the development: names for the machine integers of the Rust sources, the
  two ways in which a Rust computation can fail to produce a value, and the lemmas on words, lists
  and options that the component theories use.

  \<^item> A Rust \<open>panic!\<close> (a failed \<open>assert!\<close>, an \<open>unwrap\<close> of \<open>None\<close>, an index out of range, an
    \<open>unreachable!\<close>) is the value \<^term>\<open>None\<close> of an option type.
  \<^item> A function that returns \<open>Result<T, E>\<close> and may also panic has the type \<open>('e, 'a) outcome\<close>:
    \<open>Panic\<close>, \<open>Err e\<close> or \<open>Ok x\<close>; \<open>and_then\<close> is the \<open>?\<close> operator.
  \<^item> Arithmetic is that of the release profile: \<open>+\<close>, \<open>-\<close> and \<open>*\<close> wrap, and \<open>debug_assert!\<close>
    is not compiled.
\<close>

unbundle bit_operations_syntax

type_synonym u8 = "8 word"
type_synonym u16 = "16 word"
type_synonym u32 = "32 word"
type_synonym u64 = "64 word"
type_synonym u128 = "128 word"

named_theorems outcome_simps \<open>rules that step through \<open>and_then\<close> and \<open>unwrap\<close>\<close>

subsection \<open>Results\<close>

datatype ('e, 'a) outcome = Panic | Err 'e | Ok 'a

primrec and_then :: "('e, 'a) outcome \<Rightarrow> ('a \<Rightarrow> ('e, 'b) outcome) \<Rightarrow> ('e, 'b) outcome" where
  "and_then Panic f = Panic"
| "and_then (Err e) f = Err e"
| "and_then (Ok x) f = f x"

primrec unwrap :: "'a option \<Rightarrow> ('e, 'a) outcome" where
  "unwrap None = Panic"
| "unwrap (Some x) = Ok x"

definition assert_that :: "bool \<Rightarrow> unit option" where
  "assert_that b = (if b then Some () else None)"

lemma assert_that_simps [simp]:
  "assert_that True = Some ()" "assert_that False = None"
  by (simp_all add: assert_that_def)

lemma assert_that_eq_Some [simp]: "assert_that b = Some u \<longleftrightarrow> b"
  by (simp add: assert_that_def)

lemma and_then_eq_Ok [outcome_simps]:
  "and_then m f = Ok y \<longleftrightarrow> (\<exists>x. m = Ok x \<and> f x = Ok y)"
  by (cases m) simp_all

lemma unwrap_eq_Ok [outcome_simps]: "unwrap m = Ok x \<longleftrightarrow> m = Some x"
  by (cases m) simp_all

lemma unwrap_not_Err [simp]: "unwrap m \<noteq> Err e"
  by (cases m) simp_all

subsection \<open>Vectors\<close>

text \<open>Rust's \<open>v[i]\<close> and \<open>v.get(i)\<close>: out of range is a panic for the first and \<open>None\<close> for the
  second; both are \<^term>\<open>None\<close> here.\<close>

definition vec_get :: "'a list \<Rightarrow> nat \<Rightarrow> 'a option" where
  "vec_get xs i = (if i < length xs then Some (xs ! i) else None)"

definition vec_set :: "'a list \<Rightarrow> nat \<Rightarrow> 'a \<Rightarrow> 'a list option" where
  "vec_set xs i x = (if i < length xs then Some (xs[i := x]) else None)"

lemma vec_get_in_range [simp]: "i < length xs \<Longrightarrow> vec_get xs i = Some (xs ! i)"
  by (simp add: vec_get_def)

lemma vec_get_out_of_range [simp]: "length xs \<le> i \<Longrightarrow> vec_get xs i = None"
  by (simp add: vec_get_def)

lemma vec_get_eq_Some: "vec_get xs i = Some x \<longleftrightarrow> i < length xs \<and> xs ! i = x"
  by (auto simp: vec_get_def)

lemma vec_set_in_range [simp]: "i < length xs \<Longrightarrow> vec_set xs i x = Some (xs[i := x])"
  by (simp add: vec_set_def)

lemma vec_set_eq_Some: "vec_set xs i x = Some ys \<longleftrightarrow> i < length xs \<and> ys = xs[i := x]"
  by (auto simp: vec_set_def)

subsection \<open>Words\<close>

lemma unat_less_64 [simp]: "unat (w :: u64) < 18446744073709551616"
  using unsigned_less [of w, where 'a = nat] by simp

lemma unat_less_32 [simp]: "unat (w :: u32) < 4294967296"
  using unsigned_less [of w, where 'a = nat] by simp

lemma unat_ucast_up:
  "LENGTH('a) \<le> LENGTH('b) \<Longrightarrow> unat (ucast (w :: 'a :: len word) :: 'b :: len word) = unat w"
  by (simp add: unsigned_ucast_eq take_bit_nat_eq_self less_le_trans [OF unsigned_less]
      power_increasing)

lemma unat_drop_bit: "unat (drop_bit n (w :: 'a :: len word)) = unat w div 2 ^ n"
  by (rule trans [OF unat_drop_bit_eq drop_bit_eq_div])

lemma unat_take_bit: "unat (take_bit n (w :: 'a :: len word)) = unat w mod 2 ^ n"
  by (rule trans [OF unsigned_take_bit_eq take_bit_eq_mod])

lemma mask_8: "(0xff :: u64) = mask 8"
  by (simp add: mask_eq_exp_minus_1)

end
