(* ===== verification/Opcode.thy ===== *)
theory Opcode
  imports Sp1_Prelude
begin

text \<open>
  The opcodes of \<open>crates/core/executor/src/opcode.rs\<close> and the tables that give the RISC-V
  encoding fields of an opcode. The base opcodes themselves (\<open>OPCODE_OP\<close>, \<open>OPCODE_LOAD\<close>, ...) are
  constants of the third-party crate \<open>rrs_lib\<close>; they are the fields of a record \<open>rrs_formats\<close> that
  the tables take as an argument. The constructors \<open>AND\<close>, \<open>OR\<close> and \<open>XOR\<close> carry the suffix \<open>_op\<close>
  because the bare names are the bitwise operators on words.
\<close>

subsection \<open>Opcodes and their discriminants\<close>

datatype (plugins only: code size) Opcode =
    ADD | ADDI | SUB | XOR_op | OR_op | AND_op | SLL | SRL | SRA
  | SLT | SLTU | MUL | MULH | MULHU | MULHSU | DIV | DIVU | REM
  | REMU | ADDW | SUBW | SLLW | SRLW | SRAW | MULW | DIVW | DIVUW
  | REMW | REMUW | LB | LH | LW | LBU | LHU | LWU | LD
  | SB | SH | SW | SD | BEQ | BNE | BLT | BGE | BLTU
  | BGEU | JAL | JALR | AUIPC | LUI | ECALL | EBREAK | UNIMP

text \<open>\<open>self as u8\<close>: the enum is \<open>repr(u8)\<close> with the discriminants written in the source.\<close>

primrec opcode_disc :: "Opcode \<Rightarrow> nat" where
  "opcode_disc ADD = 0"
| "opcode_disc ADDI = 1"
| "opcode_disc SUB = 2"
| "opcode_disc XOR_op = 3"
| "opcode_disc OR_op = 4"
| "opcode_disc AND_op = 5"
| "opcode_disc SLL = 6"
| "opcode_disc SRL = 7"
| "opcode_disc SRA = 8"
| "opcode_disc SLT = 9"
| "opcode_disc SLTU = 10"
| "opcode_disc MUL = 11"
| "opcode_disc MULH = 12"
| "opcode_disc MULHU = 13"
| "opcode_disc MULHSU = 14"
| "opcode_disc DIV = 15"
| "opcode_disc DIVU = 16"
| "opcode_disc REM = 17"
| "opcode_disc REMU = 18"
| "opcode_disc ADDW = 19"
| "opcode_disc SUBW = 20"
| "opcode_disc SLLW = 21"
| "opcode_disc SRLW = 22"
| "opcode_disc SRAW = 23"
| "opcode_disc MULW = 24"
| "opcode_disc DIVW = 25"
| "opcode_disc DIVUW = 26"
| "opcode_disc REMW = 27"
| "opcode_disc REMUW = 28"
| "opcode_disc LB = 29"
| "opcode_disc LH = 30"
| "opcode_disc LW = 31"
| "opcode_disc LBU = 32"
| "opcode_disc LHU = 33"
| "opcode_disc LWU = 34"
| "opcode_disc LD = 35"
| "opcode_disc SB = 36"
| "opcode_disc SH = 37"
| "opcode_disc SW = 38"
| "opcode_disc SD = 39"
| "opcode_disc BEQ = 40"
| "opcode_disc BNE = 41"
| "opcode_disc BLT = 42"
| "opcode_disc BGE = 43"
| "opcode_disc BLTU = 44"
| "opcode_disc BGEU = 45"
| "opcode_disc JAL = 46"
| "opcode_disc JALR = 47"
| "opcode_disc AUIPC = 48"
| "opcode_disc LUI = 49"
| "opcode_disc ECALL = 50"
| "opcode_disc EBREAK = 51"
| "opcode_disc UNIMP = 52"

datatype ByteOpcode = Byte_AND | Byte_OR | Byte_XOR | U8Range | LTU | MSB | Range

primrec mnemonic :: "Opcode \<Rightarrow> string" where
  "mnemonic ADD = ''add''"
| "mnemonic ADDI = ''addi''"
| "mnemonic SUB = ''sub''"
| "mnemonic XOR_op = ''xor''"
| "mnemonic OR_op = ''or''"
| "mnemonic AND_op = ''and''"
| "mnemonic SLL = ''sll''"
| "mnemonic SRL = ''srl''"
| "mnemonic SRA = ''sra''"
| "mnemonic SLT = ''slt''"
| "mnemonic SLTU = ''sltu''"
| "mnemonic LB = ''lb''"
| "mnemonic LH = ''lh''"
| "mnemonic LW = ''lw''"
| "mnemonic LBU = ''lbu''"
| "mnemonic LHU = ''lhu''"
| "mnemonic SB = ''sb''"
| "mnemonic SH = ''sh''"
| "mnemonic SW = ''sw''"
| "mnemonic BEQ = ''beq''"
| "mnemonic BNE = ''bne''"
| "mnemonic BLT = ''blt''"
| "mnemonic BGE = ''bge''"
| "mnemonic BLTU = ''bltu''"
| "mnemonic BGEU = ''bgeu''"
| "mnemonic JAL = ''jal''"
| "mnemonic JALR = ''jalr''"
| "mnemonic AUIPC = ''auipc''"
| "mnemonic LUI = ''lui''"
| "mnemonic ECALL = ''ecall''"
| "mnemonic EBREAK = ''ebreak''"
| "mnemonic MUL = ''mul''"
| "mnemonic MULH = ''mulh''"
| "mnemonic MULHU = ''mulhu''"
| "mnemonic MULHSU = ''mulhsu''"
| "mnemonic DIV = ''div''"
| "mnemonic DIVU = ''divu''"
| "mnemonic REM = ''rem''"
| "mnemonic REMU = ''remu''"
| "mnemonic ADDW = ''addw''"
| "mnemonic SUBW = ''subw''"
| "mnemonic SLLW = ''sllw''"
| "mnemonic SRLW = ''srlw''"
| "mnemonic SRAW = ''sraw''"
| "mnemonic LWU = ''lwu''"
| "mnemonic LD = ''ld''"
| "mnemonic SD = ''sd''"
| "mnemonic MULW = ''mulw''"
| "mnemonic DIVW = ''divw''"
| "mnemonic DIVUW = ''divuw''"
| "mnemonic REMW = ''remw''"
| "mnemonic REMUW = ''remuw''"
| "mnemonic UNIMP = ''unimp''"

subsection \<open>Encoding tables\<close>

primrec funct3 :: "Opcode \<Rightarrow> u8 option" where
  "funct3 ADD = Some 0"
| "funct3 ADDI = Some 0"
| "funct3 SUB = Some 0"
| "funct3 XOR_op = Some 4"
| "funct3 OR_op = Some 6"
| "funct3 AND_op = Some 7"
| "funct3 SLL = Some 1"
| "funct3 SRL = Some 5"
| "funct3 SRA = Some 5"
| "funct3 SLT = Some 2"
| "funct3 SLTU = Some 3"
| "funct3 MUL = Some 0"
| "funct3 MULH = Some 1"
| "funct3 MULHU = Some 3"
| "funct3 MULHSU = Some 2"
| "funct3 DIV = Some 4"
| "funct3 DIVU = Some 5"
| "funct3 REM = Some 6"
| "funct3 REMU = Some 7"
| "funct3 ADDW = Some 0"
| "funct3 SUBW = Some 0"
| "funct3 SLLW = Some 1"
| "funct3 SRLW = Some 5"
| "funct3 SRAW = Some 5"
| "funct3 MULW = Some 0"
| "funct3 DIVW = Some 4"
| "funct3 DIVUW = Some 5"
| "funct3 REMW = Some 6"
| "funct3 REMUW = Some 7"
| "funct3 LB = Some 0"
| "funct3 LH = Some 1"
| "funct3 LW = Some 2"
| "funct3 LBU = Some 4"
| "funct3 LHU = Some 5"
| "funct3 LWU = Some 6"
| "funct3 LD = Some 3"
| "funct3 SB = Some 0"
| "funct3 SH = Some 1"
| "funct3 SW = Some 2"
| "funct3 SD = Some 3"
| "funct3 BEQ = Some 0"
| "funct3 BNE = Some 1"
| "funct3 BLT = Some 4"
| "funct3 BGE = Some 5"
| "funct3 BLTU = Some 6"
| "funct3 BGEU = Some 7"
| "funct3 JAL = None"
| "funct3 JALR = Some 0"
| "funct3 AUIPC = None"
| "funct3 LUI = None"
| "funct3 ECALL = Some 0"
| "funct3 EBREAK = Some 0"
| "funct3 UNIMP = None"

primrec funct7 :: "Opcode \<Rightarrow> u8 option" where
  "funct7 ADD = Some 0"
| "funct7 ADDI = None"
| "funct7 SUB = Some 32"
| "funct7 XOR_op = Some 0"
| "funct7 OR_op = Some 0"
| "funct7 AND_op = Some 0"
| "funct7 SLL = Some 0"
| "funct7 SRL = Some 0"
| "funct7 SRA = Some 32"
| "funct7 SLT = Some 0"
| "funct7 SLTU = Some 0"
| "funct7 MUL = Some 1"
| "funct7 MULH = Some 1"
| "funct7 MULHU = Some 1"
| "funct7 MULHSU = Some 1"
| "funct7 DIV = Some 1"
| "funct7 DIVU = Some 1"
| "funct7 REM = Some 1"
| "funct7 REMU = Some 1"
| "funct7 ADDW = Some 0"
| "funct7 SUBW = Some 32"
| "funct7 SLLW = Some 0"
| "funct7 SRLW = Some 0"
| "funct7 SRAW = Some 32"
| "funct7 MULW = Some 1"
| "funct7 DIVW = Some 1"
| "funct7 DIVUW = Some 1"
| "funct7 REMW = Some 1"
| "funct7 REMUW = Some 1"
| "funct7 LB = None"
| "funct7 LH = None"
| "funct7 LW = None"
| "funct7 LBU = None"
| "funct7 LHU = None"
| "funct7 LWU = None"
| "funct7 LD = None"
| "funct7 SB = None"
| "funct7 SH = None"
| "funct7 SW = None"
| "funct7 SD = None"
| "funct7 BEQ = None"
| "funct7 BNE = None"
| "funct7 BLT = None"
| "funct7 BGE = None"
| "funct7 BLTU = None"
| "funct7 BGEU = None"
| "funct7 JAL = None"
| "funct7 JALR = None"
| "funct7 AUIPC = None"
| "funct7 LUI = None"
| "funct7 ECALL = Some 0"
| "funct7 EBREAK = Some 0"
| "funct7 UNIMP = None"

definition funct12 :: "Opcode \<Rightarrow> u32 option" where
  "funct12 op = (if op = ECALL then Some 0 else None)"

text \<open>The base-opcode constants of \<open>rrs_lib::instruction_formats\<close>.\<close>

record rrs_formats =
  OPCODE_LOAD :: u32
  OPCODE_OP_IMM :: u32
  OPCODE_AUIPC :: u32
  OPCODE_OP_IMM_32 :: u32
  OPCODE_STORE :: u32
  OPCODE_OP :: u32
  OPCODE_LUI :: u32
  OPCODE_OP_32 :: u32
  OPCODE_BRANCH :: u32
  OPCODE_JALR :: u32
  OPCODE_JAL :: u32
  OPCODE_SYSTEM :: u32

text \<open>\<open>None\<close> is the \<open>unreachable!\<close> arm (\<open>EBREAK\<close> and \<open>UNIMP\<close>).\<close>

primrec base_opcode :: "Opcode \<Rightarrow> rrs_formats \<Rightarrow> (u32 \<times> u32 option) option" where
  "base_opcode ADD = (\<lambda>r. Some (OPCODE_OP r, Some (OPCODE_OP r)))"
| "base_opcode ADDI = (\<lambda>r. Some (OPCODE_OP_IMM r, Some (OPCODE_OP_IMM r)))"
| "base_opcode SUB = (\<lambda>r. Some (OPCODE_OP r, Some (OPCODE_OP r)))"
| "base_opcode XOR_op = (\<lambda>r. Some (OPCODE_OP r, Some (OPCODE_OP_IMM r)))"
| "base_opcode OR_op = (\<lambda>r. Some (OPCODE_OP r, Some (OPCODE_OP_IMM r)))"
| "base_opcode AND_op = (\<lambda>r. Some (OPCODE_OP r, Some (OPCODE_OP_IMM r)))"
| "base_opcode SLL = (\<lambda>r. Some (OPCODE_OP r, Some (OPCODE_OP_IMM r)))"
| "base_opcode SRL = (\<lambda>r. Some (OPCODE_OP r, Some (OPCODE_OP_IMM r)))"
| "base_opcode SRA = (\<lambda>r. Some (OPCODE_OP r, Some (OPCODE_OP_IMM r)))"
| "base_opcode SLT = (\<lambda>r. Some (OPCODE_OP r, Some (OPCODE_OP_IMM r)))"
| "base_opcode SLTU = (\<lambda>r. Some (OPCODE_OP r, Some (OPCODE_OP_IMM r)))"
| "base_opcode MUL = (\<lambda>r. Some (OPCODE_OP r, Some (OPCODE_OP r)))"
| "base_opcode MULH = (\<lambda>r. Some (OPCODE_OP r, Some (OPCODE_OP r)))"
| "base_opcode MULHU = (\<lambda>r. Some (OPCODE_OP r, Some (OPCODE_OP r)))"
| "base_opcode MULHSU = (\<lambda>r. Some (OPCODE_OP r, Some (OPCODE_OP r)))"
| "base_opcode DIV = (\<lambda>r. Some (OPCODE_OP r, Some (OPCODE_OP r)))"
| "base_opcode DIVU = (\<lambda>r. Some (OPCODE_OP r, Some (OPCODE_OP r)))"
| "base_opcode REM = (\<lambda>r. Some (OPCODE_OP r, Some (OPCODE_OP r)))"
| "base_opcode REMU = (\<lambda>r. Some (OPCODE_OP r, Some (OPCODE_OP r)))"
| "base_opcode ADDW = (\<lambda>r. Some (OPCODE_OP_32 r, Some (OPCODE_OP_IMM_32 r)))"
| "base_opcode SUBW = (\<lambda>r. Some (OPCODE_OP_32 r, None))"
| "base_opcode SLLW = (\<lambda>r. Some (OPCODE_OP_32 r, Some (OPCODE_OP_IMM_32 r)))"
| "base_opcode SRLW = (\<lambda>r. Some (OPCODE_OP_32 r, Some (OPCODE_OP_IMM_32 r)))"
| "base_opcode SRAW = (\<lambda>r. Some (OPCODE_OP_32 r, Some (OPCODE_OP_IMM_32 r)))"
| "base_opcode MULW = (\<lambda>r. Some (OPCODE_OP_32 r, None))"
| "base_opcode DIVW = (\<lambda>r. Some (OPCODE_OP_32 r, None))"
| "base_opcode DIVUW = (\<lambda>r. Some (OPCODE_OP_32 r, None))"
| "base_opcode REMW = (\<lambda>r. Some (OPCODE_OP_32 r, None))"
| "base_opcode REMUW = (\<lambda>r. Some (OPCODE_OP_32 r, None))"
| "base_opcode LB = (\<lambda>r. Some (OPCODE_LOAD r, Some (OPCODE_LOAD r)))"
| "base_opcode LH = (\<lambda>r. Some (OPCODE_LOAD r, Some (OPCODE_LOAD r)))"
| "base_opcode LW = (\<lambda>r. Some (OPCODE_LOAD r, Some (OPCODE_LOAD r)))"
| "base_opcode LBU = (\<lambda>r. Some (OPCODE_LOAD r, Some (OPCODE_LOAD r)))"
| "base_opcode LHU = (\<lambda>r. Some (OPCODE_LOAD r, Some (OPCODE_LOAD r)))"
| "base_opcode LWU = (\<lambda>r. Some (OPCODE_LOAD r, Some (OPCODE_LOAD r)))"
| "base_opcode LD = (\<lambda>r. Some (OPCODE_LOAD r, Some (OPCODE_LOAD r)))"
| "base_opcode SB = (\<lambda>r. Some (OPCODE_STORE r, Some (OPCODE_STORE r)))"
| "base_opcode SH = (\<lambda>r. Some (OPCODE_STORE r, Some (OPCODE_STORE r)))"
| "base_opcode SW = (\<lambda>r. Some (OPCODE_STORE r, Some (OPCODE_STORE r)))"
| "base_opcode SD = (\<lambda>r. Some (OPCODE_STORE r, Some (OPCODE_STORE r)))"
| "base_opcode BEQ = (\<lambda>r. Some (OPCODE_BRANCH r, Some (OPCODE_BRANCH r)))"
| "base_opcode BNE = (\<lambda>r. Some (OPCODE_BRANCH r, Some (OPCODE_BRANCH r)))"
| "base_opcode BLT = (\<lambda>r. Some (OPCODE_BRANCH r, Some (OPCODE_BRANCH r)))"
| "base_opcode BGE = (\<lambda>r. Some (OPCODE_BRANCH r, Some (OPCODE_BRANCH r)))"
| "base_opcode BLTU = (\<lambda>r. Some (OPCODE_BRANCH r, Some (OPCODE_BRANCH r)))"
| "base_opcode BGEU = (\<lambda>r. Some (OPCODE_BRANCH r, Some (OPCODE_BRANCH r)))"
| "base_opcode JAL = (\<lambda>r. Some (OPCODE_JAL r, Some (OPCODE_JAL r)))"
| "base_opcode JALR = (\<lambda>r. Some (OPCODE_JALR r, Some (OPCODE_JALR r)))"
| "base_opcode AUIPC = (\<lambda>r. Some (OPCODE_AUIPC r, Some (OPCODE_AUIPC r)))"
| "base_opcode LUI = (\<lambda>r. Some (OPCODE_LUI r, Some (OPCODE_LUI r)))"
| "base_opcode ECALL = (\<lambda>r. Some (OPCODE_SYSTEM r, None))"
| "base_opcode EBREAK = (\<lambda>r. None)"
| "base_opcode UNIMP = (\<lambda>r. None)"

datatype InstructionType = ITypeShamt32 | ITypeShamt | IType | RType | JType | BType | SType | UType | EcallType

primrec instruction_type :: "Opcode \<Rightarrow> (InstructionType \<times> InstructionType option) option" where
  "instruction_type ADD = Some (RType, None)"
| "instruction_type ADDI = Some (IType, Some IType)"
| "instruction_type SUB = Some (RType, None)"
| "instruction_type XOR_op = Some (RType, Some IType)"
| "instruction_type OR_op = Some (RType, Some IType)"
| "instruction_type AND_op = Some (RType, Some IType)"
| "instruction_type SLL = Some (RType, Some ITypeShamt)"
| "instruction_type SRL = Some (RType, Some ITypeShamt)"
| "instruction_type SRA = Some (RType, Some ITypeShamt)"
| "instruction_type SLT = Some (RType, Some IType)"
| "instruction_type SLTU = Some (RType, Some IType)"
| "instruction_type MUL = Some (RType, None)"
| "instruction_type MULH = Some (RType, None)"
| "instruction_type MULHU = Some (RType, None)"
| "instruction_type MULHSU = Some (RType, None)"
| "instruction_type DIV = Some (RType, None)"
| "instruction_type DIVU = Some (RType, None)"
| "instruction_type REM = Some (RType, None)"
| "instruction_type REMU = Some (RType, None)"
| "instruction_type ADDW = Some (RType, Some IType)"
| "instruction_type SUBW = Some (RType, None)"
| "instruction_type SLLW = Some (RType, Some ITypeShamt32)"
| "instruction_type SRLW = Some (RType, Some ITypeShamt32)"
| "instruction_type SRAW = Some (RType, Some ITypeShamt32)"
| "instruction_type MULW = Some (RType, None)"
| "instruction_type DIVW = Some (RType, None)"
| "instruction_type DIVUW = Some (RType, None)"
| "instruction_type REMW = Some (RType, None)"
| "instruction_type REMUW = Some (RType, None)"
| "instruction_type LB = Some (IType, None)"
| "instruction_type LH = Some (IType, None)"
| "instruction_type LW = Some (IType, None)"
| "instruction_type LBU = Some (IType, None)"
| "instruction_type LHU = Some (IType, None)"
| "instruction_type LWU = Some (IType, None)"
| "instruction_type LD = Some (IType, None)"
| "instruction_type SB = Some (SType, None)"
| "instruction_type SH = Some (SType, None)"
| "instruction_type SW = Some (SType, None)"
| "instruction_type SD = Some (SType, None)"
| "instruction_type BEQ = Some (BType, None)"
| "instruction_type BNE = Some (BType, None)"
| "instruction_type BLT = Some (BType, None)"
| "instruction_type BGE = Some (BType, None)"
| "instruction_type BLTU = Some (BType, None)"
| "instruction_type BGEU = Some (BType, None)"
| "instruction_type JAL = Some (JType, None)"
| "instruction_type JALR = Some (IType, None)"
| "instruction_type AUIPC = Some (UType, None)"
| "instruction_type LUI = Some (UType, None)"
| "instruction_type ECALL = Some (EcallType, None)"
| "instruction_type EBREAK = None"
| "instruction_type UNIMP = None"
subsection \<open>The derived order\<close>

text \<open>\<open>derive(PartialOrd, Ord)\<close> orders a field-less enum by its discriminants.\<close>

lemma opcode_disc_inject: "opcode_disc a = opcode_disc b \<longleftrightarrow> a = b"
proof
  assume "opcode_disc a = opcode_disc b"
  moreover have "[ADD, ADDI, SUB, XOR_op, OR_op, AND_op, SLL, SRL, SRA, SLT, SLTU, MUL, MULH, MULHU,
      MULHSU, DIV, DIVU, REM, REMU, ADDW, SUBW, SLLW, SRLW, SRAW, MULW, DIVW, DIVUW, REMW, REMUW,
      LB, LH, LW, LBU, LHU, LWU, LD, SB, SH, SW, SD, BEQ, BNE, BLT, BGE, BLTU, BGEU, JAL, JALR,
      AUIPC, LUI, ECALL, EBREAK, UNIMP] ! opcode_disc c = c" for c
    by (cases c) simp_all
  ultimately show "a = b"
    by metis
qed simp

instantiation Opcode :: linorder
begin

definition less_eq_Opcode :: "Opcode \<Rightarrow> Opcode \<Rightarrow> bool" where
  "less_eq_Opcode a b \<longleftrightarrow> opcode_disc a \<le> opcode_disc b"

definition less_Opcode :: "Opcode \<Rightarrow> Opcode \<Rightarrow> bool" where
  "less_Opcode a b \<longleftrightarrow> opcode_disc a < opcode_disc b"

instance
  by standard (auto simp: less_eq_Opcode_def less_Opcode_def opcode_disc_inject [symmetric])

end

lemma opcode_disc_bound: "opcode_disc op \<le> 52"
  by (cases op) simp_all

end
