(* ===== verification/Alu.thy ===== *)
theory Alu
  imports Opcode "HOL-Library.Signed_Division"
begin

text \<open>
  The arithmetic of the ALU instructions. \<open>core_alu\<close> is the \<open>match instruction.opcode\<close> of
  \<open>CoreVM::execute_alu\<close> (\<open>vm.rs\<close>) and \<open>minimal_alu\<close> the one of \<open>MinimalExecutor::execute_alu\<close>
  (\<open>minimal/arch/portable/mod.rs\<close>), each written with the casts of its source. \<open>riscv_alu\<close> gives the
  same instructions as the RISC-V manual does, on the integers that the operands denote, and the
  lemmas show that all three agree.
\<close>

subsection \<open>Signed machine arithmetic\<close>

text \<open>\<open>wrapping_div\<close> and \<open>wrapping_rem\<close> of a signed Rust integer, for a nonzero divisor.\<close>

definition wrapping_div :: "'a :: len word \<Rightarrow> 'a word \<Rightarrow> 'a word" where
  "wrapping_div b c = word_of_int (sint b sdiv sint c)"

definition wrapping_rem :: "'a :: len word \<Rightarrow> 'a word \<Rightarrow> 'a word" where
  "wrapping_rem b c = word_of_int (sint b smod sint c)"

text \<open>\<open>x as i32 as i64 as u64\<close> for a 32-bit \<open>x\<close>.\<close>

abbreviation sext_u32 :: "u32 \<Rightarrow> u64" where
  "sext_u32 x \<equiv> scast x"

subsection \<open>The two implementations\<close>

primrec core_alu :: "Opcode \<Rightarrow> u64 \<Rightarrow> u64 \<Rightarrow> u64 option" where
  "core_alu ADD = (\<lambda>b c. Some (b + c))"
| "core_alu ADDI = (\<lambda>b c. Some (b + c))"
| "core_alu SUB = (\<lambda>b c. Some (b - c))"
| "core_alu XOR_op = (\<lambda>b c. Some (b XOR c))"
| "core_alu OR_op = (\<lambda>b c. Some (b OR c))"
| "core_alu AND_op = (\<lambda>b c. Some (b AND c))"
| "core_alu SLL = (\<lambda>b c. Some (push_bit (unat (c AND 0x3f)) b))"
| "core_alu SRL = (\<lambda>b c. Some (drop_bit (unat (c AND 0x3f)) b))"
| "core_alu SRA = (\<lambda>b c. Some (signed_drop_bit (unat (c AND 0x3f)) b))"
| "core_alu SLT = (\<lambda>b c. Some (if b <s c then 1 else 0))"
| "core_alu SLTU = (\<lambda>b c. Some (if b < c then 1 else 0))"
| "core_alu MUL = (\<lambda>b c. Some (b * c))"
| "core_alu MULH = (\<lambda>b c. Some (ucast (signed_drop_bit 64 ((scast b :: u128) * scast c))))"
| "core_alu MULHU = (\<lambda>b c. Some (ucast (drop_bit 64 ((ucast b :: u128) * ucast c))))"
| "core_alu MULHSU = (\<lambda>b c. Some (ucast (signed_drop_bit 64 ((scast b :: u128) * ucast c))))"
| "core_alu DIV = (\<lambda>b c. Some (if c = 0 then - 1 else wrapping_div b c))"
| "core_alu DIVU = (\<lambda>b c. Some (if c = 0 then - 1 else b div c))"
| "core_alu REM = (\<lambda>b c. Some (if c = 0 then b else wrapping_rem b c))"
| "core_alu REMU = (\<lambda>b c. Some (if c = 0 then b else b mod c))"
| "core_alu ADDW = (\<lambda>b c. Some (sext_u32 (ucast b + ucast c)))"
| "core_alu SUBW = (\<lambda>b c. Some (sext_u32 (ucast b - ucast c)))"
| "core_alu SLLW = (\<lambda>b c. Some (sext_u32 (ucast (push_bit (unat (c AND 0x1f)) b))))"
| "core_alu SRLW = (\<lambda>b c. Some (sext_u32 (drop_bit (unat (c AND 0x1f)) (ucast b))))"
| "core_alu SRAW = (\<lambda>b c. Some (sext_u32 (signed_drop_bit (unat (c AND 0x1f)) (ucast b))))"
| "core_alu MULW = (\<lambda>b c. Some (sext_u32 (ucast b * ucast c)))"
| "core_alu DIVW = (\<lambda>b c. Some (if (ucast c :: u32) = 0 then - 1
    else sext_u32 (wrapping_div (ucast b) (ucast c))))"
| "core_alu DIVUW = (\<lambda>b c. Some (if (ucast c :: u32) = 0 then - 1
    else sext_u32 (ucast b div ucast c)))"
| "core_alu REMW = (\<lambda>b c. Some (if (ucast c :: u32) = 0 then sext_u32 (ucast b)
    else sext_u32 (wrapping_rem (ucast b) (ucast c))))"
| "core_alu REMUW = (\<lambda>b c. Some (if (ucast c :: u32) = 0 then sext_u32 (ucast b)
    else sext_u32 (ucast b mod ucast c)))"
| "core_alu LB = (\<lambda>b c. None)" | "core_alu LH = (\<lambda>b c. None)"
| "core_alu LW = (\<lambda>b c. None)" | "core_alu LBU = (\<lambda>b c. None)"
| "core_alu LHU = (\<lambda>b c. None)" | "core_alu LWU = (\<lambda>b c. None)"
| "core_alu LD = (\<lambda>b c. None)" | "core_alu SB = (\<lambda>b c. None)"
| "core_alu SH = (\<lambda>b c. None)" | "core_alu SW = (\<lambda>b c. None)"
| "core_alu SD = (\<lambda>b c. None)" | "core_alu BEQ = (\<lambda>b c. None)"
| "core_alu BNE = (\<lambda>b c. None)" | "core_alu BLT = (\<lambda>b c. None)"
| "core_alu BGE = (\<lambda>b c. None)" | "core_alu BLTU = (\<lambda>b c. None)"
| "core_alu BGEU = (\<lambda>b c. None)" | "core_alu JAL = (\<lambda>b c. None)"
| "core_alu JALR = (\<lambda>b c. None)" | "core_alu AUIPC = (\<lambda>b c. None)"
| "core_alu LUI = (\<lambda>b c. None)" | "core_alu ECALL = (\<lambda>b c. None)"
| "core_alu EBREAK = (\<lambda>b c. None)" | "core_alu UNIMP = (\<lambda>b c. None)"

primrec minimal_alu :: "Opcode \<Rightarrow> u64 \<Rightarrow> u64 \<Rightarrow> u64 option" where
  "minimal_alu ADD = (\<lambda>b c. Some (b + c))"
| "minimal_alu ADDI = (\<lambda>b c. Some (b + c))"
| "minimal_alu SUB = (\<lambda>b c. Some (b - c))"
| "minimal_alu XOR_op = (\<lambda>b c. Some (b XOR c))"
| "minimal_alu OR_op = (\<lambda>b c. Some (b OR c))"
| "minimal_alu AND_op = (\<lambda>b c. Some (b AND c))"
| "minimal_alu SLL = (\<lambda>b c. Some (push_bit (unat (c AND 0x3f)) b))"
| "minimal_alu SRL = (\<lambda>b c. Some (drop_bit (unat (c AND 0x3f)) b))"
| "minimal_alu SRA = (\<lambda>b c. Some (signed_drop_bit (unat (c AND 0x3f)) b))"
| "minimal_alu SLT = (\<lambda>b c. Some (if b <s c then 1 else 0))"
| "minimal_alu SLTU = (\<lambda>b c. Some (if b < c then 1 else 0))"
| "minimal_alu MUL = (\<lambda>b c. Some (b * c))"
| "minimal_alu MULH = (\<lambda>b c. Some (ucast (signed_drop_bit 64 ((scast b :: u128) * scast c))))"
| "minimal_alu MULHU = (\<lambda>b c. Some (ucast (drop_bit 64 ((ucast b :: u128) * ucast c))))"
| "minimal_alu MULHSU = (\<lambda>b c. Some (ucast (signed_drop_bit 64 ((scast b :: u128) * ucast c))))"
| "minimal_alu DIV = (\<lambda>b c. Some (if c = 0 then - 1 else wrapping_div b c))"
| "minimal_alu DIVU = (\<lambda>b c. Some (if c = 0 then - 1 else b div c))"
| "minimal_alu REM = (\<lambda>b c. Some (if c = 0 then b else wrapping_rem b c))"
| "minimal_alu REMU = (\<lambda>b c. Some (if c = 0 then b else b mod c))"
| "minimal_alu ADDW = (\<lambda>b c. Some (sext_u32 (ucast b + ucast c)))"
| "minimal_alu SUBW = (\<lambda>b c. Some (sext_u32 (ucast b - ucast c)))"
| "minimal_alu SLLW = (\<lambda>b c. Some (sext_u32 (ucast (push_bit (unat (c AND 0x1f)) b))))"
| "minimal_alu SRLW = (\<lambda>b c. Some (sext_u32 (drop_bit (unat (c AND 0x1f)) (ucast b))))"
| "minimal_alu SRAW = (\<lambda>b c. Some (sext_u32 (signed_drop_bit (unat (c AND 0x1f)) (ucast b))))"
| "minimal_alu MULW = (\<lambda>b c. Some (sext_u32 (ucast b * ucast c)))"
| "minimal_alu DIVW = (\<lambda>b c. Some (if (ucast c :: u32) = 0 then - 1
    else sext_u32 (wrapping_div (ucast b) (ucast c))))"
| "minimal_alu DIVUW = (\<lambda>b c. Some (if (ucast c :: u32) = 0 then - 1
    else sext_u32 (ucast b div ucast c)))"
| "minimal_alu REMW = (\<lambda>b c. Some (if (ucast c :: u32) = 0 then sext_u32 (ucast b)
    else sext_u32 (wrapping_rem (ucast b) (ucast c))))"
| "minimal_alu REMUW = (\<lambda>b c. Some (if (ucast c :: u32) = 0 then sext_u32 (ucast b)
    else sext_u32 (ucast b mod ucast c)))"
| "minimal_alu LB = (\<lambda>b c. None)" | "minimal_alu LH = (\<lambda>b c. None)"
| "minimal_alu LW = (\<lambda>b c. None)" | "minimal_alu LBU = (\<lambda>b c. None)"
| "minimal_alu LHU = (\<lambda>b c. None)" | "minimal_alu LWU = (\<lambda>b c. None)"
| "minimal_alu LD = (\<lambda>b c. None)" | "minimal_alu SB = (\<lambda>b c. None)"
| "minimal_alu SH = (\<lambda>b c. None)" | "minimal_alu SW = (\<lambda>b c. None)"
| "minimal_alu SD = (\<lambda>b c. None)" | "minimal_alu BEQ = (\<lambda>b c. None)"
| "minimal_alu BNE = (\<lambda>b c. None)" | "minimal_alu BLT = (\<lambda>b c. None)"
| "minimal_alu BGE = (\<lambda>b c. None)" | "minimal_alu BLTU = (\<lambda>b c. None)"
| "minimal_alu BGEU = (\<lambda>b c. None)" | "minimal_alu JAL = (\<lambda>b c. None)"
| "minimal_alu JALR = (\<lambda>b c. None)" | "minimal_alu AUIPC = (\<lambda>b c. None)"
| "minimal_alu LUI = (\<lambda>b c. None)" | "minimal_alu ECALL = (\<lambda>b c. None)"
| "minimal_alu EBREAK = (\<lambda>b c. None)" | "minimal_alu UNIMP = (\<lambda>b c. None)"

subsection \<open>The RISC-V manual\<close>

text \<open>\<open>sext32 x\<close> is the 64-bit register content for a 32-bit result \<open>x\<close>: its low 32 bits,
  sign-extended. Shift amounts are the low six (or five) bits of the second operand.\<close>

definition sext32 :: "int \<Rightarrow> u64" where
  "sext32 x = word_of_int (signed_take_bit 31 x)"

definition lo32 :: "u64 \<Rightarrow> int" where
  "lo32 w = uint w mod 2 ^ 32"

definition slo32 :: "u64 \<Rightarrow> int" where
  "slo32 w = signed_take_bit 31 (uint w)"

text \<open>Division rounds towards zero; the manual fixes the results of a division by zero and of the
  overflowing division of the least integer by \<open>-1\<close>.\<close>

definition riscv_div :: "nat \<Rightarrow> int \<Rightarrow> int \<Rightarrow> int" where
  "riscv_div w b c = (if c = 0 then - 1 else if b = - (2 ^ (w - 1)) \<and> c = - 1 then b
     else sgn b * sgn c * (\<bar>b\<bar> div \<bar>c\<bar>))"

definition riscv_rem :: "nat \<Rightarrow> int \<Rightarrow> int \<Rightarrow> int" where
  "riscv_rem w b c = (if c = 0 then b else if b = - (2 ^ (w - 1)) \<and> c = - 1 then 0
     else sgn b * (\<bar>b\<bar> mod \<bar>c\<bar>))"

definition riscv_alu :: "Opcode \<Rightarrow> u64 \<Rightarrow> u64 \<Rightarrow> u64 option" where
  "riscv_alu op b c = (case op of
      ADD \<Rightarrow> Some (word_of_int (uint b + uint c))
    | ADDI \<Rightarrow> Some (word_of_int (uint b + uint c))
    | SUB \<Rightarrow> Some (word_of_int (uint b - uint c))
    | XOR_op \<Rightarrow> Some (b XOR c)
    | OR_op \<Rightarrow> Some (b OR c)
    | AND_op \<Rightarrow> Some (b AND c)
    | SLL \<Rightarrow> Some (word_of_int (uint b * 2 ^ (unat c mod 64)))
    | SRL \<Rightarrow> Some (word_of_int (uint b div 2 ^ (unat c mod 64)))
    | SRA \<Rightarrow> Some (word_of_int (sint b div 2 ^ (unat c mod 64)))
    | SLT \<Rightarrow> Some (if sint b < sint c then 1 else 0)
    | SLTU \<Rightarrow> Some (if uint b < uint c then 1 else 0)
    | MUL \<Rightarrow> Some (word_of_int (sint b * sint c))
    | MULH \<Rightarrow> Some (word_of_int ((sint b * sint c) div 2 ^ 64))
    | MULHU \<Rightarrow> Some (word_of_int ((uint b * uint c) div 2 ^ 64))
    | MULHSU \<Rightarrow> Some (word_of_int ((sint b * uint c) div 2 ^ 64))
    | DIV \<Rightarrow> Some (word_of_int (riscv_div 64 (sint b) (sint c)))
    | DIVU \<Rightarrow> Some (if c = 0 then - 1 else word_of_int (uint b div uint c))
    | REM \<Rightarrow> Some (word_of_int (riscv_rem 64 (sint b) (sint c)))
    | REMU \<Rightarrow> Some (if c = 0 then b else word_of_int (uint b mod uint c))
    | ADDW \<Rightarrow> Some (sext32 (uint b + uint c))
    | SUBW \<Rightarrow> Some (sext32 (uint b - uint c))
    | SLLW \<Rightarrow> Some (sext32 (uint b * 2 ^ (unat c mod 32)))
    | SRLW \<Rightarrow> Some (sext32 (lo32 b div 2 ^ (unat c mod 32)))
    | SRAW \<Rightarrow> Some (sext32 (slo32 b div 2 ^ (unat c mod 32)))
    | MULW \<Rightarrow> Some (sext32 (uint b * uint c))
    | DIVW \<Rightarrow> Some (sext32 (riscv_div 32 (slo32 b) (slo32 c)))
    | DIVUW \<Rightarrow> Some (if lo32 c = 0 then - 1 else sext32 (lo32 b div lo32 c))
    | REMW \<Rightarrow> Some (sext32 (riscv_rem 32 (slo32 b) (slo32 c)))
    | REMUW \<Rightarrow> Some (if lo32 c = 0 then sext32 (lo32 b) else sext32 (lo32 b mod lo32 c))
    | _ \<Rightarrow> None)"

subsection \<open>Words and the integers they denote\<close>

lemma unat_and_3f: "unat ((c :: u64) AND 0x3f) = unat c mod 64"
proof -
  have "c AND 0x3f = take_bit 6 c"
    by (simp add: take_bit_eq_mask mask_eq_exp_minus_1)
  then show ?thesis
    by (simp only: unsigned_take_bit_eq) (simp add: take_bit_eq_mod)
qed

lemma unat_and_1f: "unat ((c :: u64) AND 0x1f) = unat c mod 32"
proof -
  have "c AND 0x1f = take_bit 5 c"
    by (simp add: take_bit_eq_mask mask_eq_exp_minus_1)
  then show ?thesis
    by (simp only: unsigned_take_bit_eq) (simp add: take_bit_eq_mod)
qed

lemma push_bit_word_of_int: "push_bit n b = word_of_int (uint (b :: 'a :: len word) * 2 ^ n)"
  by (simp add: push_bit_eq_mult)

lemma uint_drop_bit_div: "uint (drop_bit n b) = uint (b :: 'a :: len word) div 2 ^ n"
proof -
  have "uint (drop_bit n b) = drop_bit n (uint b)"
    by (rule bit_eqI) (simp only: bit_simps, auto simp: bit_simps dest: bit_imp_le_length)
  then show ?thesis by (simp only: drop_bit_eq_div)
qed

lemma drop_bit_word_of_int: "drop_bit n b = word_of_int (uint (b :: 'a :: len word) div 2 ^ n)"
  by (subst uint_drop_bit_div [symmetric]) simp

lemma signed_drop_bit_word_of_int:
  "signed_drop_bit n b = word_of_int (sint (b :: 'a :: len word) div 2 ^ n)"
proof -
  have "sint (signed_drop_bit n b) = sint b div 2 ^ n"
    by (simp add: sint_signed_drop_bit_eq drop_bit_eq_div)
  then have "word_of_int (sint (signed_drop_bit n b)) = (word_of_int (sint b div 2 ^ n) :: 'a word)"
    by simp
  then show ?thesis by simp
qed

lemma mult_bounds_128:
  fixes b c :: int
  assumes b: "- (2 ^ 63) \<le> b" "b < 2 ^ 63" and c: "- (2 ^ 63) \<le> c" "c < 2 ^ 64"
  shows "- (2 ^ 127) \<le> b * c" "b * c < 2 ^ 127"
proof -
  have "\<bar>b\<bar> \<le> 2 ^ 63" using b by simp
  moreover have "\<bar>c\<bar> \<le> 2 ^ 64 - 1" using c by simp
  ultimately have "\<bar>b\<bar> * \<bar>c\<bar> \<le> 2 ^ 63 * (2 ^ 64 - 1)"
    by (rule mult_mono) simp_all
  then have "\<bar>b * c\<bar> < 2 ^ 127" by (simp add: abs_mult)
  then show "- (2 ^ 127) \<le> b * c" "b * c < 2 ^ 127" by linarith+
qed

lemma sint_bounds_64: "- (2 ^ 63) \<le> sint (b :: u64)" "sint (b :: u64) < 2 ^ 63"
  using sint_greater_eq [of b] sint_less [of b] by simp_all

lemma ucast_down_sint: "(ucast (w :: u128) :: u64) = word_of_int (sint w)"
proof -
  have "(scast w :: u64) = ucast w"
    by (rule bit_word_eqI) (simp add: bit_simps min_def)
  then show ?thesis by (simp only: scast_eq)
qed

lemma high_half_signed:
  assumes "- (2 ^ 127) \<le> x" "x < 2 ^ 127"
  shows "(ucast (signed_drop_bit 64 (word_of_int x :: u128)) :: u64) = word_of_int (x div 2 ^ 64)"
  using assms
  by (simp add: ucast_down_sint sint_signed_drop_bit_eq drop_bit_eq_div signed_of_int
      signed_take_bit_int_eq_self)

lemma uint_ucast_128: "uint (ucast (b :: u64) :: u128) = uint b"
  by (simp add: unsigned_ucast_eq)
    (rule take_bit_int_eq_self, simp, rule less_le_trans [OF uint_lt2p], simp)

lemma high_half_unsigned:
  "(ucast (drop_bit 64 ((ucast b :: u128) * ucast c)) :: u64) = word_of_int (uint b * uint c div 2 ^ 64)"
  for b c :: u64
proof -
  have "uint b * uint c < 2 ^ 64 * 2 ^ 64"
    by (rule mult_strict_mono') (use uint_lt2p [of b] uint_lt2p [of c] in simp_all)
  then have "uint ((ucast b :: u128) * ucast c) = uint b * uint c"
    using uint_mult_lem [of "ucast b :: u128" "ucast c"] by (simp add: uint_ucast_128)
  then show ?thesis
    by (simp only: ucast_eq [of "drop_bit _ _"] uint_drop_bit_div)
qed

lemma neg_half_word:
  "(word_of_int (2 ^ (LENGTH('a) - 1)) :: 'a :: len word) = word_of_int (- (2 ^ (LENGTH('a) - 1)))"
proof -
  have "(2 :: int) ^ LENGTH('a) dvd 2 ^ (LENGTH('a) - 1) - (- (2 ^ (LENGTH('a) - 1)))"
    by (metis Suc_diff_1 diff_minus_eq_add dvd_refl len_gt_0 mult_2 power_Suc)
  then show ?thesis
    by (simp only: word_of_int_eq_iff take_bit_eq_mod mod_eq_dvd_iff)
qed

lemma wrapping_div_riscv:
  fixes b c :: "'a :: len word"
  assumes "c \<noteq> 0"
  shows "wrapping_div b c = word_of_int (riscv_div LENGTH('a) (sint b) (sint c))"
proof (cases "sint b = - (2 ^ (LENGTH('a) - 1)) \<and> sint c = - 1")
  case True
  then show ?thesis
    using neg_half_word [where 'a = 'a]
    by (simp add: wrapping_div_def riscv_div_def signed_divide_int_def)
qed (use assms in \<open>auto simp: wrapping_div_def riscv_div_def signed_divide_int_def signed_eq_0_iff\<close>)

lemma wrapping_rem_riscv:
  fixes b c :: "'a :: len word"
  assumes "c \<noteq> 0"
  shows "wrapping_rem b c = word_of_int (riscv_rem w (sint b) (sint c))"
  using assms by (auto simp: wrapping_rem_def riscv_rem_def signed_modulo_int_def signed_eq_0_iff)

lemma sext_u32_word_of_int: "sext_u32 (word_of_int x) = sext32 x"
  unfolding sext32_def scast_eq by (simp add: signed_of_int)

lemma uint_lo32: "uint (ucast (b :: u64) :: u32) = lo32 b"
  by (simp add: lo32_def unsigned_ucast_eq take_bit_eq_mod)

lemma sint_slo32: "sint (ucast (b :: u64) :: u32) = slo32 b"
  by (simp add: slo32_def signed_ucast_eq)

lemma ucast_u32_eq_0: "(ucast (c :: u64) :: u32) = 0 \<longleftrightarrow> lo32 c = 0"
  unfolding uint_lo32 [symmetric] by (simp only: unsigned_eq_0_iff)

lemma ucast_u32_eq_0': "(ucast (c :: u64) :: u32) = 0 \<longleftrightarrow> slo32 c = 0"
  unfolding sint_slo32 [symmetric] by (simp only: signed_eq_0_iff)

lemma sext_u32_ucast: "sext_u32 (ucast b) = sext32 (uint b)"
  by (simp flip: sext_u32_word_of_int)

lemma ucast_word_of_int: "(ucast (word_of_int x :: u64) :: u32) = word_of_int x"
  by (rule bit_word_eqI) (simp add: bit_simps)

lemma sext32_lo32: "sext32 (lo32 b) = sext32 (uint b)"
  unfolding sext32_def lo32_def take_bit_eq_mod [symmetric] by (simp add: signed_take_bit_take_bit)

lemma sext32_slo32: "sext32 (slo32 b) = sext32 (uint b)"
  by (simp add: sext32_def slo32_def)

lemma sext32_minus_1: "sext32 (- 1) = - 1"
  by (simp add: sext32_def)

subsection \<open>Agreement\<close>

lemma alu_shift_agree:
  "core_alu SLL b c = riscv_alu SLL b c"
  "core_alu SRL b c = riscv_alu SRL b c"
  "core_alu SRA b c = riscv_alu SRA b c"
  "core_alu SLLW b c = riscv_alu SLLW b c"
  "core_alu SRLW b c = riscv_alu SRLW b c"
  "core_alu SRAW b c = riscv_alu SRAW b c"
  subgoal by (simp add: riscv_alu_def unat_and_3f push_bit_word_of_int)
  subgoal by (simp only: core_alu.simps riscv_alu_def unat_and_3f drop_bit_word_of_int) simp
  subgoal by (simp add: riscv_alu_def unat_and_3f signed_drop_bit_word_of_int)
  subgoal by (simp only: core_alu.simps riscv_alu_def unat_and_1f push_bit_word_of_int
      ucast_word_of_int sext_u32_word_of_int) simp
  subgoal by (simp only: core_alu.simps riscv_alu_def unat_and_1f drop_bit_word_of_int uint_lo32
      sext_u32_word_of_int) simp
  subgoal by (simp only: core_alu.simps riscv_alu_def unat_and_1f signed_drop_bit_word_of_int
      sint_slo32 sext_u32_word_of_int) simp
  done

lemma alu_mul_agree:
  "core_alu MUL b c = riscv_alu MUL b c"
  "core_alu MULH b c = riscv_alu MULH b c"
  "core_alu MULHU b c = riscv_alu MULHU b c"
  "core_alu MULHSU b c = riscv_alu MULHSU b c"
  "core_alu MULW b c = riscv_alu MULW b c"
  subgoal by (simp add: riscv_alu_def)
  subgoal
  proof -
    have "- (2 ^ 127) \<le> sint b * sint c" "sint b * sint c < 2 ^ 127"
      by (rule mult_bounds_128; use sint_bounds_64 [of b] sint_bounds_64 [of c] in simp)+
    from high_half_signed [OF this] show ?thesis
      by (simp add: riscv_alu_def)
  qed
  subgoal by (simp add: riscv_alu_def high_half_unsigned)
  subgoal
  proof -
    have "- (2 ^ 63) \<le> uint c" by (rule order_trans [OF _ uint_ge_0]) simp
    then have "- (2 ^ 127) \<le> sint b * uint c" "sint b * uint c < 2 ^ 127"
      by (rule mult_bounds_128 [OF sint_bounds_64]; use uint_lt2p [of c] in simp)+
    from high_half_signed [OF this] show ?thesis
      by (simp add: riscv_alu_def)
  qed
  subgoal by (simp add: riscv_alu_def flip: sext_u32_word_of_int)
  done

lemma alu_div_agree:
  "core_alu DIV b c = riscv_alu DIV b c"
  "core_alu DIVU b c = riscv_alu DIVU b c"
  "core_alu REM b c = riscv_alu REM b c"
  "core_alu REMU b c = riscv_alu REMU b c"
  by (cases "c = 0";
      simp add: riscv_alu_def riscv_div_def riscv_rem_def word_div_def word_mod_def;
      simp add: wrapping_div_riscv wrapping_rem_riscv [where w = 64] riscv_div_def riscv_rem_def)+

lemma alu_divw_agree:
  "core_alu DIVW b c = riscv_alu DIVW b c"
  "core_alu DIVUW b c = riscv_alu DIVUW b c"
  "core_alu REMW b c = riscv_alu REMW b c"
  "core_alu REMUW b c = riscv_alu REMUW b c"
proof -
  show "core_alu DIVW b c = riscv_alu DIVW b c"
  proof (cases "slo32 c = 0")
    case True
    then show ?thesis by (simp add: riscv_alu_def ucast_u32_eq_0' riscv_div_def sext32_minus_1)
  next
    case False
    then show ?thesis
      by (simp add: riscv_alu_def wrapping_div_riscv ucast_u32_eq_0' sint_slo32
          sext_u32_word_of_int)
  qed
  show "core_alu REMW b c = riscv_alu REMW b c"
  proof (cases "slo32 c = 0")
    case True
    then show ?thesis
      by (simp add: riscv_alu_def ucast_u32_eq_0' riscv_rem_def sext_u32_ucast sext32_slo32)
  next
    case False
    then show ?thesis
      by (simp add: riscv_alu_def wrapping_rem_riscv [where w = 32] ucast_u32_eq_0' sint_slo32
          sext_u32_word_of_int)
  qed
qed (simp_all add: riscv_alu_def ucast_u32_eq_0 word_div_def word_mod_def uint_lo32
      sext_u32_word_of_int sext_u32_ucast sext32_lo32)

lemma core_alu_riscv: "core_alu op b c = riscv_alu op b c"
proof (cases op)
  case SLT
  then show ?thesis by (simp add: riscv_alu_def word_sless_alt)
next
  case SLTU
  then show ?thesis by (simp add: riscv_alu_def word_less_def)
next
  case ADDW
  then show ?thesis by (simp add: riscv_alu_def flip: sext_u32_word_of_int)
next
  case SUBW
  then show ?thesis by (simp add: riscv_alu_def flip: sext_u32_word_of_int)
qed (simp_all only: alu_shift_agree alu_mul_agree alu_div_agree alu_divw_agree,
     simp_all add: riscv_alu_def)

lemma minimal_alu_core: "minimal_alu op = core_alu op"
  by (cases op) simp_all

subsection \<open>Properties\<close>

text \<open>(C7) For every opcode and every pair of operands, the arithmetic of the core VM and that of the
  minimal executor are the one RV64IM prescribes over the mathematical integers (wrap-around, the
  high halves of products, division by zero and the overflowing division, and the sign extension of
  32-bit results), and both panic on exactly the opcodes that are not arithmetic.\<close>

theorem alu_is_riscv: "core_alu op b c = riscv_alu op b c \<and> minimal_alu op b c = riscv_alu op b c"
  by (simp add: core_alu_riscv minimal_alu_core)

end
