(* ===== verification/Instruction.thy ===== *)
theory Instruction
  imports Opcode
begin

text \<open>
  \<open>crates/core/executor/src/instruction.rs\<close>: the decoded instruction, its classification
  predicates, and \<open>encode\<close>, which writes an instruction back as a 32-bit RISC-V word.
\<close>

subsection \<open>Instructions\<close>

definition validate_sign_extension :: "u64 \<Rightarrow> nat \<Rightarrow> bool" where
  "validate_sign_extension value bit_width =
    (if 64 \<le> bit_width then True
     else
       let sign_bit_mask = push_bit (bit_width - 1) (1 :: u64);
           sign_bit = (value AND sign_bit_mask \<noteq> 0);
           upper_bits_mask = NOT (push_bit bit_width (1 :: u64) - 1);
           upper_bits = value AND upper_bits_mask
       in if sign_bit then upper_bits = upper_bits_mask else upper_bits = 0)"

record Instruction =
  opcode :: Opcode
  op_a :: u8
  op_b :: u64
  op_c :: u64
  imm_b :: bool
  imm_c :: bool

definition new_instruction :: "Opcode \<Rightarrow> u8 \<Rightarrow> u64 \<Rightarrow> u64 \<Rightarrow> bool \<Rightarrow> bool \<Rightarrow> Instruction" where
  "new_instruction opc a b c ib ic =
    \<lparr>opcode = opc, op_a = a, op_b = b, op_c = c, imm_b = ib, imm_c = ic\<rparr>"

definition is_alu_instruction :: "Instruction \<Rightarrow> bool" where
  "is_alu_instruction i \<longleftrightarrow> opcode i \<in> {ADD, ADDI, SUB, XOR_op, OR_op, AND_op, SLL, SRL, SRA, SLT, SLTU,
     MUL, MULH, MULHU, MULHSU, DIV, DIVU, REM, REMU,
     ADDW, SUBW, MULW, DIVW, DIVUW, REMW, REMUW, SLLW, SRLW, SRAW}"

definition is_ecall_instruction :: "Instruction \<Rightarrow> bool" where
  "is_ecall_instruction i \<longleftrightarrow> opcode i = ECALL"

definition is_memory_load_instruction :: "Instruction \<Rightarrow> bool" where
  "is_memory_load_instruction i \<longleftrightarrow> opcode i \<in> {LB, LH, LW, LBU, LHU, LWU, LD}"

definition is_memory_store_instruction :: "Instruction \<Rightarrow> bool" where
  "is_memory_store_instruction i \<longleftrightarrow> opcode i \<in> {SB, SH, SW, SD}"

definition is_branch_instruction :: "Instruction \<Rightarrow> bool" where
  "is_branch_instruction i \<longleftrightarrow> opcode i \<in> {BEQ, BNE, BLT, BGE, BLTU, BGEU}"

definition is_jump_instruction :: "Instruction \<Rightarrow> bool" where
  "is_jump_instruction i \<longleftrightarrow> opcode i \<in> {JAL, JALR}"

definition is_jal_instruction :: "Instruction \<Rightarrow> bool" where
  "is_jal_instruction i \<longleftrightarrow> opcode i = JAL"

definition is_jalr_instruction :: "Instruction \<Rightarrow> bool" where
  "is_jalr_instruction i \<longleftrightarrow> opcode i = JALR"

definition is_utype_instruction :: "Instruction \<Rightarrow> bool" where
  "is_utype_instruction i \<longleftrightarrow> opcode i \<in> {AUIPC, LUI}"

definition is_with_correct_next_pc :: "Instruction \<Rightarrow> bool" where
  "is_with_correct_next_pc i \<longleftrightarrow> opcode i \<in> {BEQ, BNE, BLT, BGE, BLTU, BGEU, JAL, JALR}"

definition is_divrem_instruction :: "Instruction \<Rightarrow> bool" where
  "is_divrem_instruction i \<longleftrightarrow> opcode i \<in> {DIV, DIVU, REM, REMU}"

definition is_ebreak_instruction :: "Instruction \<Rightarrow> bool" where
  "is_ebreak_instruction i \<longleftrightarrow> opcode i = EBREAK"

definition is_unimp_instruction :: "Instruction \<Rightarrow> bool" where
  "is_unimp_instruction i \<longleftrightarrow> opcode i = UNIMP"

lemmas is_instruction_defs =
  is_alu_instruction_def is_ecall_instruction_def is_memory_load_instruction_def
  is_memory_store_instruction_def is_branch_instruction_def is_jump_instruction_def
  is_jal_instruction_def is_jalr_instruction_def is_utype_instruction_def
  is_with_correct_next_pc_def is_divrem_instruction_def is_ebreak_instruction_def
  is_unimp_instruction_def

subsection \<open>Encoding\<close>

text \<open>The six arms of the \<open>match base_opcode\<close> of \<open>encode\<close>, each with its assertions in order; \<open>base\<close>
  is the matched base opcode and the \<open>expect\<close> calls on the encoding tables are the \<open>funct\<close>
  bindings.\<close>

definition encode_r :: "u32 \<Rightarrow> Instruction \<Rightarrow> u32 option" where
  "encode_r base i = do {
     assert_that (op_a i \<le> 31);
     assert_that (op_b i \<le> 31);
     assert_that (op_c i \<le> 31);
     let rd = (ucast (op_a i) :: u32);
     let rs1 = (ucast (op_b i) :: u32);
     let rs2 = (ucast (op_c i) :: u32);
     f3 \<leftarrow> funct3 (opcode i);
     f7 \<leftarrow> funct7 (opcode i);
     Some (push_bit 25 (ucast f7) OR push_bit 20 rs2 OR push_bit 15 rs1
           OR push_bit 12 (ucast f3) OR push_bit 7 rd OR base)
   }"

definition encode_i :: "rrs_formats \<Rightarrow> u32 \<Rightarrow> Instruction \<Rightarrow> u32 option" where
  "encode_i r base i = do {
     assert_that (op_a i \<le> 31);
     assert_that (op_b i \<le> 31);
     assert_that (validate_sign_extension (op_c i) 12);
     let rd = (ucast (op_a i) :: u32);
     let rs1 = (ucast (op_b i) :: u32);
     let imm = (ucast (op_c i AND 0xFFF) :: u32);
     f3 \<leftarrow> map_option ucast (funct3 (opcode i));
     if (base = OPCODE_OP_IMM r \<or> base = OPCODE_OP_IMM_32 r) \<and> (f3 = 1 \<or> f3 = 5) then do {
       f7 \<leftarrow> funct7 (opcode i);
       Some (push_bit 25 (ucast f7) OR push_bit 20 imm OR push_bit 15 rs1
             OR push_bit 12 f3 OR push_bit 7 rd OR base)
     }
     else if base = OPCODE_SYSTEM r \<and> f3 = 0 \<and> rd = 0 \<and> rs1 = 0 then do {
       f12 \<leftarrow> funct12 (opcode i);
       Some (push_bit 20 f12 OR push_bit 15 rs1 OR push_bit 12 f3 OR push_bit 7 rd OR base)
     }
     else Some (push_bit 20 imm OR push_bit 15 rs1 OR push_bit 12 f3 OR push_bit 7 rd OR base)
   }"

definition encode_s :: "u32 \<Rightarrow> Instruction \<Rightarrow> u32 option" where
  "encode_s base i = do {
     assert_that (op_a i \<le> 31);
     assert_that (op_b i \<le> 31);
     assert_that (validate_sign_extension (op_c i) 12);
     f3 \<leftarrow> funct3 (opcode i);
     let rd = (ucast (op_a i) :: u32);
     let rs1 = (ucast (op_b i) :: u32);
     let imm = (ucast (op_c i AND 0xFFF) :: u32);
     let imm_11_5 = drop_bit 5 imm AND 127;
     let imm_4_0 = imm AND 31;
     Some (push_bit 25 imm_11_5 OR push_bit 20 rd OR push_bit 15 rs1
           OR push_bit 12 (ucast f3) OR push_bit 7 imm_4_0 OR base)
   }"

definition encode_b :: "u32 \<Rightarrow> Instruction \<Rightarrow> u32 option" where
  "encode_b base i = do {
     assert_that (op_a i \<le> 31);
     assert_that (op_b i \<le> 31);
     assert_that (validate_sign_extension (op_c i) 13);
     f3 \<leftarrow> funct3 (opcode i);
     let rd = (ucast (op_a i) :: u32);
     let rs1 = (ucast (op_b i) :: u32);
     let imm = (ucast (op_c i AND 0x1FFF) :: u32);
     assert_that (imm AND 1 = 0);
     let imm_12 = drop_bit 12 imm AND 1;
     let imm_10_5 = drop_bit 5 imm AND 63;
     let imm_4_1 = drop_bit 1 imm AND 15;
     let imm_11 = drop_bit 11 imm AND 1;
     Some (push_bit 31 imm_12 OR push_bit 25 imm_10_5 OR push_bit 20 rs1 OR push_bit 15 rd
           OR push_bit 12 (ucast f3) OR push_bit 8 imm_4_1 OR push_bit 7 imm_11
           OR (base AND 127))
   }"

definition encode_u :: "u32 \<Rightarrow> Instruction \<Rightarrow> u32 option" where
  "encode_u base i = do {
     assert_that (op_a i \<le> 31);
     let sign_extended_imm = drop_bit 12 (op_b i);
     let sign_extended_imm =
       (if push_bit 32 1 \<le> op_b i then sign_extended_imm + (- 1 - push_bit 52 1 + 1)
        else sign_extended_imm);
     assert_that (validate_sign_extension sign_extended_imm 20);
     let rd = (ucast (op_a i) :: u32);
     let imm_upper = (ucast (op_b i) :: u32);
     Some (imm_upper OR push_bit 7 rd OR base)
   }"

definition encode_j :: "u32 \<Rightarrow> Instruction \<Rightarrow> u32 option" where
  "encode_j base i = do {
     assert_that (op_a i \<le> 31);
     assert_that (validate_sign_extension (op_b i) 21);
     assert_that (op_b i AND 1 = 0);
     let rd = (ucast (op_a i) :: u32);
     let imm = (ucast (op_b i AND 0x1FFFFF) :: u32);
     let imm_20 = drop_bit 20 imm AND 1;
     let imm_10_1 = drop_bit 1 imm AND 0x3FF;
     let imm_11 = drop_bit 11 imm AND 1;
     let imm_19_12 = drop_bit 12 imm AND 0xFF;
     Some (push_bit 31 imm_20 OR push_bit 21 imm_10_1 OR push_bit 20 imm_11
           OR push_bit 12 imm_19_12 OR push_bit 7 rd OR base)
   }"

definition encode_base :: "rrs_formats \<Rightarrow> Instruction \<Rightarrow> u32 option" where
  "encode_base r i = do {
     (base_opcode, imm_base_opcode) \<leftarrow> base_opcode (opcode i) r;
     if imm_c i then imm_base_opcode else Some base_opcode
   }"

definition encode :: "rrs_formats \<Rightarrow> Instruction \<Rightarrow> u32 option" where
  "encode r i =
    (if opcode i = ECALL then Some 0x00000073
     else do {
       base \<leftarrow> encode_base r i;
       if base = OPCODE_OP r \<or> base = OPCODE_OP_32 r then encode_r base i
       else if base = OPCODE_OP_IMM r \<or> base = OPCODE_OP_IMM_32 r \<or> base = OPCODE_LOAD r
         \<or> base = OPCODE_JALR r \<or> base = OPCODE_SYSTEM r then encode_i r base i
       else if base = OPCODE_STORE r then encode_s base i
       else if base = OPCODE_BRANCH r then encode_b base i
       else if base = OPCODE_AUIPC r \<or> base = OPCODE_LUI r then encode_u base i
       else if base = OPCODE_JAL r then encode_j base i
       else None
     })"

end
