(* ===== verification/Syscall_Code.thy ===== *)
theory Syscall_Code
  imports Sp1_Prelude
begin

text \<open>
  \<open>crates/core/executor/src/syscall_code.rs\<close>: the system-call codes, their numbering, and the
  tables that the executors consult: which field or 256-bit operation a code stands for, under
  which code its rows are counted, and how many words and pages a call may touch.
\<close>

subsection \<open>Codes and numbers\<close>

datatype (plugins only: code size) SyscallCode =
    HALT | WRITE | ENTER_UNCONSTRAINED | EXIT_UNCONSTRAINED
  | SHA_EXTEND | SHA_COMPRESS | ED_ADD | ED_DECOMPRESS
  | KECCAK_PERMUTE | SECP256K1_ADD | SECP256K1_DOUBLE | SECP256K1_DECOMPRESS
  | BN254_ADD | BN254_DOUBLE | COMMIT | COMMIT_DEFERRED_PROOFS
  | VERIFY_SP1_PROOF | BLS12381_DECOMPRESS | HINT_LEN | HINT_READ
  | UINT256_MUL | U256XU2048_MUL | BLS12381_ADD | BLS12381_DOUBLE
  | BLS12381_FP_ADD | BLS12381_FP_SUB | BLS12381_FP_MUL | BLS12381_FP2_ADD
  | BLS12381_FP2_SUB | BLS12381_FP2_MUL | BN254_FP_ADD | BN254_FP_SUB
  | BN254_FP_MUL | BN254_FP2_ADD | BN254_FP2_SUB | BN254_FP2_MUL
  | SECP256R1_ADD | SECP256R1_DOUBLE | SECP256R1_DECOMPRESS | UINT256_ADD_CARRY
  | UINT256_MUL_CARRY | MPROTECT | POSEIDON2 | SIG_RETURN
  | HINT_MPROTECT_FLUSH | DUMP_ELF | INSERT_PROFILER_SYMBOLS | DELETE_PROFILER_SYMBOLS

text \<open>\<open>self as u32\<close>.\<close>

primrec syscall_num :: "SyscallCode \<Rightarrow> u32" where
  "syscall_num HALT = 0x00000000"
| "syscall_num WRITE = 0x00000002"
| "syscall_num ENTER_UNCONSTRAINED = 0x00000003"
| "syscall_num EXIT_UNCONSTRAINED = 0x00000004"
| "syscall_num SHA_EXTEND = 0x00300105"
| "syscall_num SHA_COMPRESS = 0x00010106"
| "syscall_num ED_ADD = 0x00010107"
| "syscall_num ED_DECOMPRESS = 0x00000108"
| "syscall_num KECCAK_PERMUTE = 0x00010109"
| "syscall_num SECP256K1_ADD = 0x0001010A"
| "syscall_num SECP256K1_DOUBLE = 0x0000010B"
| "syscall_num SECP256K1_DECOMPRESS = 0x0000010C"
| "syscall_num BN254_ADD = 0x0001010E"
| "syscall_num BN254_DOUBLE = 0x0000010F"
| "syscall_num COMMIT = 0x00000010"
| "syscall_num COMMIT_DEFERRED_PROOFS = 0x0000001A"
| "syscall_num VERIFY_SP1_PROOF = 0x0000001B"
| "syscall_num BLS12381_DECOMPRESS = 0x0000011C"
| "syscall_num HINT_LEN = 0x000000F0"
| "syscall_num HINT_READ = 0x000000F1"
| "syscall_num UINT256_MUL = 0x0001011D"
| "syscall_num U256XU2048_MUL = 0x0001012F"
| "syscall_num BLS12381_ADD = 0x0001011E"
| "syscall_num BLS12381_DOUBLE = 0x0000011F"
| "syscall_num BLS12381_FP_ADD = 0x00010120"
| "syscall_num BLS12381_FP_SUB = 0x00010121"
| "syscall_num BLS12381_FP_MUL = 0x00010122"
| "syscall_num BLS12381_FP2_ADD = 0x00010123"
| "syscall_num BLS12381_FP2_SUB = 0x00010124"
| "syscall_num BLS12381_FP2_MUL = 0x00010125"
| "syscall_num BN254_FP_ADD = 0x00010126"
| "syscall_num BN254_FP_SUB = 0x00010127"
| "syscall_num BN254_FP_MUL = 0x00010128"
| "syscall_num BN254_FP2_ADD = 0x00010129"
| "syscall_num BN254_FP2_SUB = 0x0001012A"
| "syscall_num BN254_FP2_MUL = 0x0001012B"
| "syscall_num SECP256R1_ADD = 0x0001012C"
| "syscall_num SECP256R1_DOUBLE = 0x0000012D"
| "syscall_num SECP256R1_DECOMPRESS = 0x0000012E"
| "syscall_num UINT256_ADD_CARRY = 0x00010130"
| "syscall_num UINT256_MUL_CARRY = 0x00010131"
| "syscall_num MPROTECT = 0x00000132"
| "syscall_num POSEIDON2 = 0x00000133"
| "syscall_num SIG_RETURN = 0x00000134"
| "syscall_num HINT_MPROTECT_FLUSH = 0x00000035"
| "syscall_num DUMP_ELF = 0x00000040"
| "syscall_num INSERT_PROFILER_SYMBOLS = 0x00000041"
| "syscall_num DELETE_PROFILER_SYMBOLS = 0x00000042"

text \<open>The arms of \<open>from_u32\<close> in their order; any other number panics.\<close>

definition from_u32_arms :: "(u32 \<times> SyscallCode) list" where
  "from_u32_arms = [
    (0x00000000, HALT),
    (0x00000002, WRITE),
    (0x00000003, ENTER_UNCONSTRAINED),
    (0x00000004, EXIT_UNCONSTRAINED),
    (0x00300105, SHA_EXTEND),
    (0x00010106, SHA_COMPRESS),
    (0x00010107, ED_ADD),
    (0x00000108, ED_DECOMPRESS),
    (0x00010109, KECCAK_PERMUTE),
    (0x0001010A, SECP256K1_ADD),
    (0x0000010B, SECP256K1_DOUBLE),
    (0x0000010C, SECP256K1_DECOMPRESS),
    (0x0001010E, BN254_ADD),
    (0x0000010F, BN254_DOUBLE),
    (0x0001011E, BLS12381_ADD),
    (0x0000011F, BLS12381_DOUBLE),
    (0x00000010, COMMIT),
    (0x0000001A, COMMIT_DEFERRED_PROOFS),
    (0x0000001B, VERIFY_SP1_PROOF),
    (0x000000F0, HINT_LEN),
    (0x000000F1, HINT_READ),
    (0x0001011D, UINT256_MUL),
    (0x0001012F, U256XU2048_MUL),
    (0x00010120, BLS12381_FP_ADD),
    (0x00010121, BLS12381_FP_SUB),
    (0x00010122, BLS12381_FP_MUL),
    (0x00010123, BLS12381_FP2_ADD),
    (0x00010124, BLS12381_FP2_SUB),
    (0x00010125, BLS12381_FP2_MUL),
    (0x00010126, BN254_FP_ADD),
    (0x00010127, BN254_FP_SUB),
    (0x00010128, BN254_FP_MUL),
    (0x00010129, BN254_FP2_ADD),
    (0x0001012A, BN254_FP2_SUB),
    (0x0001012B, BN254_FP2_MUL),
    (0x0000011C, BLS12381_DECOMPRESS),
    (0x0001012C, SECP256R1_ADD),
    (0x0000012D, SECP256R1_DOUBLE),
    (0x0000012E, SECP256R1_DECOMPRESS),
    (0x00010130, UINT256_ADD_CARRY),
    (0x00010131, UINT256_MUL_CARRY),
    (0x00000132, MPROTECT),
    (0x00000133, POSEIDON2),
    (0x00000134, SIG_RETURN),
    (0x00000035, HINT_MPROTECT_FLUSH),
    (0x00000040, DUMP_ELF),
    (0x00000041, INSERT_PROFILER_SYMBOLS),
    (0x00000042, DELETE_PROFILER_SYMBOLS)]"

definition from_u32 :: "u32 \<Rightarrow> SyscallCode option" where
  "from_u32 value = map_of from_u32_arms value"

text \<open>\<open>(self as u32).to_le_bytes()[0]\<close> and \<open>[1]\<close>.\<close>

definition syscall_id :: "SyscallCode \<Rightarrow> u32" where
  "syscall_id code = ucast (ucast (syscall_num code) :: u8)"

definition should_send :: "SyscallCode \<Rightarrow> u32" where
  "should_send code = ucast (ucast (drop_bit 8 (syscall_num code)) :: u8)"

subsection \<open>Tables\<close>

definition count_map :: "SyscallCode \<Rightarrow> SyscallCode" where
  "count_map code = (case code of
      BN254_FP_SUB \<Rightarrow> BN254_FP_ADD
    | BN254_FP_MUL \<Rightarrow> BN254_FP_ADD
    | BN254_FP2_SUB \<Rightarrow> BN254_FP2_ADD
    | BLS12381_FP_SUB \<Rightarrow> BLS12381_FP_ADD
    | BLS12381_FP_MUL \<Rightarrow> BLS12381_FP_ADD
    | BLS12381_FP2_SUB \<Rightarrow> BLS12381_FP2_ADD
    | _ \<Rightarrow> code)"

datatype FieldOperation = Op_Add | Op_Mul | Op_Sub | Op_Div

datatype Uint256Operation = U256_Add | U256_Mul

text \<open>\<open>None\<close> is \<open>unreachable!\<close>.\<close>

definition fp_op_map :: "SyscallCode \<Rightarrow> FieldOperation option" where
  "fp_op_map code = (case code of
      BLS12381_FP_ADD \<Rightarrow> Some Op_Add
    | BLS12381_FP2_ADD \<Rightarrow> Some Op_Add
    | BN254_FP_ADD \<Rightarrow> Some Op_Add
    | BN254_FP2_ADD \<Rightarrow> Some Op_Add
    | BLS12381_FP_SUB \<Rightarrow> Some Op_Sub
    | BLS12381_FP2_SUB \<Rightarrow> Some Op_Sub
    | BN254_FP_SUB \<Rightarrow> Some Op_Sub
    | BN254_FP2_SUB \<Rightarrow> Some Op_Sub
    | BLS12381_FP_MUL \<Rightarrow> Some Op_Mul
    | BLS12381_FP2_MUL \<Rightarrow> Some Op_Mul
    | BN254_FP_MUL \<Rightarrow> Some Op_Mul
    | BN254_FP2_MUL \<Rightarrow> Some Op_Mul
    | _ \<Rightarrow> None)"

definition uint256_op_map :: "SyscallCode \<Rightarrow> Uint256Operation option" where
  "uint256_op_map code = (case code of
      UINT256_ADD_CARRY \<Rightarrow> Some U256_Add
    | UINT256_MUL_CARRY \<Rightarrow> Some U256_Mul
    | _ \<Rightarrow> None)"

primrec touched_addresses :: "SyscallCode \<Rightarrow> nat" where
  "touched_addresses HALT = 0"
| "touched_addresses WRITE = 0"
| "touched_addresses ENTER_UNCONSTRAINED = 0"
| "touched_addresses EXIT_UNCONSTRAINED = 0"
| "touched_addresses SHA_EXTEND = 64"
| "touched_addresses SHA_COMPRESS = 72"
| "touched_addresses ED_ADD = 16"
| "touched_addresses ED_DECOMPRESS = 8"
| "touched_addresses KECCAK_PERMUTE = 25"
| "touched_addresses SECP256K1_ADD = 16"
| "touched_addresses SECP256K1_DOUBLE = 8"
| "touched_addresses SECP256K1_DECOMPRESS = 8"
| "touched_addresses BN254_ADD = 16"
| "touched_addresses BN254_DOUBLE = 8"
| "touched_addresses COMMIT = 0"
| "touched_addresses COMMIT_DEFERRED_PROOFS = 0"
| "touched_addresses VERIFY_SP1_PROOF = 0"
| "touched_addresses BLS12381_DECOMPRESS = 12"
| "touched_addresses HINT_LEN = 0"
| "touched_addresses HINT_READ = 0"
| "touched_addresses UINT256_MUL = 12"
| "touched_addresses U256XU2048_MUL = 72"
| "touched_addresses BLS12381_ADD = 24"
| "touched_addresses BLS12381_DOUBLE = 12"
| "touched_addresses BLS12381_FP_ADD = 12"
| "touched_addresses BLS12381_FP_SUB = 12"
| "touched_addresses BLS12381_FP_MUL = 12"
| "touched_addresses BLS12381_FP2_ADD = 24"
| "touched_addresses BLS12381_FP2_SUB = 24"
| "touched_addresses BLS12381_FP2_MUL = 24"
| "touched_addresses BN254_FP_ADD = 8"
| "touched_addresses BN254_FP_SUB = 8"
| "touched_addresses BN254_FP_MUL = 8"
| "touched_addresses BN254_FP2_ADD = 16"
| "touched_addresses BN254_FP2_SUB = 16"
| "touched_addresses BN254_FP2_MUL = 16"
| "touched_addresses SECP256R1_ADD = 16"
| "touched_addresses SECP256R1_DOUBLE = 8"
| "touched_addresses SECP256R1_DECOMPRESS = 8"
| "touched_addresses UINT256_ADD_CARRY = 20"
| "touched_addresses UINT256_MUL_CARRY = 20"
| "touched_addresses MPROTECT = 0"
| "touched_addresses POSEIDON2 = 8"
| "touched_addresses SIG_RETURN = 0"
| "touched_addresses HINT_MPROTECT_FLUSH = 0"
| "touched_addresses DUMP_ELF = 0"
| "touched_addresses INSERT_PROFILER_SYMBOLS = 0"
| "touched_addresses DELETE_PROFILER_SYMBOLS = 0"

primrec touched_pages :: "SyscallCode \<Rightarrow> nat" where
  "touched_pages HALT = 0"
| "touched_pages WRITE = 0"
| "touched_pages ENTER_UNCONSTRAINED = 0"
| "touched_pages EXIT_UNCONSTRAINED = 0"
| "touched_pages SHA_EXTEND = 2 * 2"
| "touched_pages SHA_COMPRESS = 3 * 2"
| "touched_pages ED_ADD = 2 * 2"
| "touched_pages ED_DECOMPRESS = 2 * 2"
| "touched_pages KECCAK_PERMUTE = 2 * 2"
| "touched_pages SECP256K1_ADD = 2 * 2"
| "touched_pages SECP256K1_DOUBLE = 2"
| "touched_pages SECP256K1_DECOMPRESS = 2 * 2"
| "touched_pages BN254_ADD = 2 * 2"
| "touched_pages BN254_DOUBLE = 2"
| "touched_pages COMMIT = 0"
| "touched_pages COMMIT_DEFERRED_PROOFS = 0"
| "touched_pages VERIFY_SP1_PROOF = 0"
| "touched_pages BLS12381_DECOMPRESS = 2 * 2"
| "touched_pages HINT_LEN = 0"
| "touched_pages HINT_READ = 0"
| "touched_pages UINT256_MUL = 2 * 2"
| "touched_pages U256XU2048_MUL = 4 * 2"
| "touched_pages BLS12381_ADD = 2 * 2"
| "touched_pages BLS12381_DOUBLE = 2"
| "touched_pages BLS12381_FP_ADD = 2 * 2"
| "touched_pages BLS12381_FP_SUB = 2 * 2"
| "touched_pages BLS12381_FP_MUL = 2 * 2"
| "touched_pages BLS12381_FP2_ADD = 2 * 2"
| "touched_pages BLS12381_FP2_SUB = 2 * 2"
| "touched_pages BLS12381_FP2_MUL = 2 * 2"
| "touched_pages BN254_FP_ADD = 2 * 2"
| "touched_pages BN254_FP_SUB = 2 * 2"
| "touched_pages BN254_FP_MUL = 2 * 2"
| "touched_pages BN254_FP2_ADD = 2 * 2"
| "touched_pages BN254_FP2_SUB = 2 * 2"
| "touched_pages BN254_FP2_MUL = 2 * 2"
| "touched_pages SECP256R1_ADD = 2 * 2"
| "touched_pages SECP256R1_DOUBLE = 2"
| "touched_pages SECP256R1_DECOMPRESS = 2 * 2"
| "touched_pages UINT256_ADD_CARRY = 5 * 2"
| "touched_pages UINT256_MUL_CARRY = 5 * 2"
| "touched_pages MPROTECT = 1"
| "touched_pages POSEIDON2 = 2"
| "touched_pages SIG_RETURN = 0"
| "touched_pages HINT_MPROTECT_FLUSH = 0"
| "touched_pages DUMP_ELF = 0"
| "touched_pages INSERT_PROFILER_SYMBOLS = 0"
| "touched_pages DELETE_PROFILER_SYMBOLS = 0"

subsection \<open>Numbering\<close>

lemma from_u32_syscall_num [simp]: "from_u32 (syscall_num code) = Some code"
  by (cases code) (simp_all add: from_u32_def from_u32_arms_def)

lemma from_u32_eq_Some: "from_u32 n = Some code \<longleftrightarrow> n = syscall_num code"
proof
  assume "from_u32 n = Some code"
  then have "(n, code) \<in> set from_u32_arms"
    unfolding from_u32_def by (rule map_of_SomeD)
  moreover have "list_all (\<lambda>(n, c). n = syscall_num c) from_u32_arms"
    by (simp add: from_u32_arms_def)
  ultimately show "n = syscall_num code"
    by (auto simp: list_all_iff)
qed simp

lemma syscall_num_inject [simp]: "syscall_num a = syscall_num b \<longleftrightarrow> a = b"
  by (metis from_u32_syscall_num option.inject)

lemma count_map_idem: "count_map (count_map code) = count_map code"
  by (cases code) (simp_all add: count_map_def)

subsection \<open>Properties\<close>

text \<open>(C24) A 32-bit number is accepted as a system call exactly when it is the number of one, and it is
  then decoded to that one; the numbers of different system calls differ.\<close>

theorem syscall_code_roundtrip: "from_u32 n = Some code \<longleftrightarrow> n = syscall_num code"
  by (rule from_u32_eq_Some)

end
