(* ===== verification/Machine.thy ===== *)
theory Machine
  imports Instruction Syscall_Code
begin

text \<open>
  The data that both executors share: registers (\<open>register.rs\<close>), the operand views of an instruction
  (\<open>disassembler/rrs.rs\<close>), errors (\<open>errors.rs\<close>), the execution modes (\<open>mode.rs\<close>), memory values and
  access records (\<open>core/jit/src/risc.rs\<close>, \<open>events/memory.rs\<close>), and programs (\<open>program.rs\<close>).
\<close>

subsection \<open>Registers\<close>

datatype (plugins only: code size) Register =
    X0 | X1 | X2 | X3 | X4 | X5 | X6 | X7 | X8 | X9 | X10 | X11 | X12 | X13 | X14 | X15
  | X16 | X17 | X18 | X19 | X20 | X21 | X22 | X23 | X24 | X25 | X26 | X27 | X28 | X29 | X30 | X31

text \<open>\<open>r as usize\<close>.\<close>

primrec reg_idx :: "Register \<Rightarrow> nat" where
  "reg_idx X0 = 0" | "reg_idx X1 = 1" | "reg_idx X2 = 2" | "reg_idx X3 = 3"
| "reg_idx X4 = 4" | "reg_idx X5 = 5" | "reg_idx X6 = 6" | "reg_idx X7 = 7"
| "reg_idx X8 = 8" | "reg_idx X9 = 9" | "reg_idx X10 = 10" | "reg_idx X11 = 11"
| "reg_idx X12 = 12" | "reg_idx X13 = 13" | "reg_idx X14 = 14" | "reg_idx X15 = 15"
| "reg_idx X16 = 16" | "reg_idx X17 = 17" | "reg_idx X18 = 18" | "reg_idx X19 = 19"
| "reg_idx X20 = 20" | "reg_idx X21 = 21" | "reg_idx X22 = 22" | "reg_idx X23 = 23"
| "reg_idx X24 = 24" | "reg_idx X25 = 25" | "reg_idx X26 = 26" | "reg_idx X27 = 27"
| "reg_idx X28 = 28" | "reg_idx X29 = 29" | "reg_idx X30 = 30" | "reg_idx X31 = 31"

definition all_registers :: "Register list" where
  "all_registers = [X0, X1, X2, X3, X4, X5, X6, X7, X8, X9, X10, X11, X12, X13, X14, X15,
     X16, X17, X18, X19, X20, X21, X22, X23, X24, X25, X26, X27, X28, X29, X30, X31]"

definition from_u8 :: "u8 \<Rightarrow> Register option" where
  "from_u8 value = (if value \<le> 31 then Some (all_registers ! unat value) else None)"

lemma reg_idx_less [simp]: "reg_idx r < 32"
  by (cases r) simp_all

lemma all_registers_nth [simp]: "all_registers ! reg_idx r = r"
  by (cases r) (simp_all add: all_registers_def)

lemma length_all_registers [simp]: "length all_registers = 32"
  by (simp add: all_registers_def)

lemma reg_idx_inject [simp]: "reg_idx a = reg_idx b \<longleftrightarrow> a = b"
  by (metis all_registers_nth)

lemma reg_idx_nth [simp]: "i < 32 \<Longrightarrow> reg_idx (all_registers ! i) = i"
proof -
  have "map reg_idx all_registers = [0..<32]"
    by (simp add: all_registers_def upt_rec)
  moreover assume "i < 32"
  ultimately show "reg_idx (all_registers ! i) = i"
    by (metis add_0 length_all_registers nth_map nth_upt)
qed

lemma reg_idx_eq_0 [simp]: "reg_idx r = 0 \<longleftrightarrow> r = X0"
  by (cases r) simp_all

lemma unat_u8_le_31: "(v :: u8) \<le> 31 \<longleftrightarrow> unat v < 32"
  by (auto simp: word_le_nat_alt)

lemma from_u8_eq_Some: "from_u8 v = Some r \<longleftrightarrow> unat v = reg_idx r"
  by (auto simp: from_u8_def unat_u8_le_31)

subsection \<open>Operand views\<close>

definition r_type :: "Instruction \<Rightarrow> (Register \<times> Register \<times> Register) option" where
  "r_type i = do {
     a \<leftarrow> from_u8 (op_a i);
     b \<leftarrow> from_u8 (ucast (op_b i));
     c \<leftarrow> from_u8 (ucast (op_c i));
     Some (a, b, c)
   }"

definition i_type :: "Instruction \<Rightarrow> (Register \<times> Register \<times> u64) option" where
  "i_type i = do {
     a \<leftarrow> from_u8 (op_a i);
     b \<leftarrow> from_u8 (ucast (op_b i));
     Some (a, b, op_c i)
   }"

definition s_type :: "Instruction \<Rightarrow> (Register \<times> Register \<times> u64) option" where
  "s_type i = do {
     a \<leftarrow> from_u8 (op_a i);
     b \<leftarrow> from_u8 (ucast (op_b i));
     Some (a, b, op_c i)
   }"

definition b_type :: "Instruction \<Rightarrow> (Register \<times> Register \<times> u64) option" where
  "b_type i = do {
     a \<leftarrow> from_u8 (op_a i);
     b \<leftarrow> from_u8 (ucast (op_b i));
     Some (a, b, op_c i)
   }"

definition j_type :: "Instruction \<Rightarrow> (Register \<times> u64) option" where
  "j_type i = do { a \<leftarrow> from_u8 (op_a i); Some (a, op_b i) }"

definition u_type :: "Instruction \<Rightarrow> (Register \<times> u64) option" where
  "u_type i = do { a \<leftarrow> from_u8 (op_a i); Some (a, op_b i) }"

lemmas operand_view_defs = r_type_def i_type_def s_type_def b_type_def j_type_def u_type_def

subsection \<open>Errors and modes\<close>

datatype TrapError = PagePermissionViolation u64

datatype (plugins only: code size) ExecutionError =
    InvalidMemoryAccess Opcode u64
  | InvalidMemoryAccessUntrustedProgram u64
  | UnsupportedSyscall u32
  | Breakpoint
  | ExceededCycleLimit u64
  | InvalidSyscallUsage u64
  | Unimplemented
  | EndInUnconstrained
  | UnconstrainedCycleLimitExceeded u64
  | UnexpectedExitCode u32
  | InstructionNotFound
  | InvalidShardingState
  | UnhandledTrap TrapError
  | TooMuchMemory
  | KilledByMemoryMonitor u64
  | ChildKilled
  | Other string

text \<open>The error of \<open>core/jit/src/risc.rs\<close> that the minimal executor raises on a permission failure.\<close>

datatype Interrupt = Interrupt (trap_code: u64)

datatype ExecutionMode = SupervisorMode | UserMode

primrec PAGE_PROTECTION_ENABLED :: "ExecutionMode \<Rightarrow> bool" where
  "PAGE_PROTECTION_ENABLED SupervisorMode = False"
| "PAGE_PROTECTION_ENABLED UserMode = True"

abbreviation (input) PC_INC :: u64 where "PC_INC \<equiv> 4"
abbreviation (input) CLK_INC :: u64 where "CLK_INC \<equiv> 8"
abbreviation (input) HALT_PC :: u64 where "HALT_PC \<equiv> 1"
abbreviation (input) LOG_PAGE_SIZE :: nat where "LOG_PAGE_SIZE \<equiv> 12"
abbreviation (input) MAX_LOG_ADDR :: nat where "MAX_LOG_ADDR \<equiv> 40"
abbreviation (input) PROT_FAILURE_EXEC :: u64 where "PROT_FAILURE_EXEC \<equiv> 1"
abbreviation (input) PROT_FAILURE_READ :: u64 where "PROT_FAILURE_READ \<equiv> 5"
abbreviation (input) PROT_FAILURE_WRITE :: u64 where "PROT_FAILURE_WRITE \<equiv> 7"

subsection \<open>Page protections\<close>

text \<open>The segment-flag constants of \<open>elf::abi\<close>, a third-party crate.\<close>

record elf_abi =
  PF_NONE :: u32
  PF_X :: u32
  PF_W :: u32
  PF_R :: u32

definition PROT_NONE :: "elf_abi \<Rightarrow> u8" where "PROT_NONE e = ucast (PF_NONE e)"
definition PROT_READ :: "elf_abi \<Rightarrow> u8" where "PROT_READ e = ucast (PF_R e)"
definition PROT_WRITE :: "elf_abi \<Rightarrow> u8" where "PROT_WRITE e = ucast (PF_W e)"
definition PROT_EXEC :: "elf_abi \<Rightarrow> u8" where "PROT_EXEC e = ucast (PF_X e)"

definition DEFAULT_PAGE_PROT :: "elf_abi \<Rightarrow> u8" where
  "DEFAULT_PAGE_PROT e = PROT_READ e OR PROT_WRITE e"

definition PERMITTED_PROTS :: "elf_abi \<Rightarrow> u8 list" where
  "PERMITTED_PROTS e =
    [PROT_NONE e, PROT_READ e OR PROT_WRITE e, PROT_READ e OR PROT_EXEC e, PROT_READ e]"

subsection \<open>Memory values and access records\<close>

record MemValue =
  clk :: u64
  "value" :: u64

definition default_MemValue :: MemValue where
  "default_MemValue = \<lparr>clk = 0, value = 0\<rparr>"

record PageProtValue =
  pp_timestamp :: u64
  pp_value :: u8

definition default_PageProtValue :: "elf_abi \<Rightarrow> PageProtValue" where
  "default_PageProtValue e = \<lparr>pp_timestamp = 0, pp_value = DEFAULT_PAGE_PROT e\<rparr>"

definition mem_of_page_prot :: "PageProtValue \<Rightarrow> MemValue" where
  "mem_of_page_prot v = \<lparr>clk = pp_timestamp v, value = ucast (pp_value v)\<rparr>"

definition page_prot_of_mem :: "MemValue \<Rightarrow> PageProtValue option" where
  "page_prot_of_mem v = do {
     assert_that (value v AND NOT 0xff = 0);
     Some \<lparr>pp_timestamp = clk v, pp_value = ucast (value v AND 0xff)\<rparr>
   }"

record MemoryRecord =
  mr_timestamp :: u64
  mr_value :: u64

record PageProtRecord =
  external_flag :: bool
  pr_timestamp :: u64
  page_idx :: u64
  page_prot :: u8

record MemoryReadRecord =
  rd_value :: u64
  rd_timestamp :: u64
  rd_prev_timestamp :: u64
  rd_prev_page_prot_record :: "PageProtRecord option"

record MemoryWriteRecord =
  wr_prev_timestamp :: u64
  wr_prev_page_prot_record :: "PageProtRecord option"
  wr_prev_value :: u64
  wr_timestamp :: u64
  wr_value :: u64

datatype MemoryAccessPosition =
  UntrustedInstruction | Memory_position | C_position | B_position | A_position

text \<open>\<open>position as u64\<close>.\<close>

primrec position_num :: "MemoryAccessPosition \<Rightarrow> u64" where
  "position_num UntrustedInstruction = 0"
| "position_num Memory_position = 1"
| "position_num C_position = 2"
| "position_num B_position = 3"
| "position_num A_position = 4"

lemma page_prot_of_mem_of_page_prot [simp]:
  "page_prot_of_mem (mem_of_page_prot v) = Some v"
proof -
  have "(ucast (w :: u8) :: u64) AND NOT 0xff = 0" for w
    by (rule bit_word_eqI) (auto simp: mask_8 bit_simps dest: bit_imp_le_length)
  moreover have "ucast ((ucast (w :: u8) :: u64) AND 0xff) = w" for w
    by (rule bit_word_eqI) (auto simp: mask_8 bit_simps)
  ultimately show ?thesis
    by (simp add: page_prot_of_mem_def mem_of_page_prot_def)
qed

subsection \<open>Programs\<close>

text \<open>The fields of \<open>Program\<close> that execution reads; the two hash maps are association lists with
  distinct keys, in the order in which the map is iterated.\<close>

record Program =
  instructions :: "Instruction list"
  pc_start_abs :: u64
  pc_base :: u64
  trap_context :: "u64 option"
  page_prot_image :: "(u64 \<times> u8) list"
  memory_image :: "(u64 \<times> u64) list"
  enable_untrusted_programs :: bool
  untrusted_memory :: "(u64 \<times> u64) option"

definition new_program :: "Instruction list \<Rightarrow> u64 \<Rightarrow> u64 \<Rightarrow> Program option" where
  "new_program is start base = do {
     assert_that (is \<noteq> []);
     assert_that (length is \<le> 2 ^ 22);
     Some \<lparr>instructions = is, pc_start_abs = start, pc_base = base, trap_context = None,
           page_prot_image = [], memory_image = [], enable_untrusted_programs = False,
           untrusted_memory = None\<rparr>
   }"

definition fetch :: "Program \<Rightarrow> u64 \<Rightarrow> Instruction option" where
  "fetch p pc = vec_get (instructions p) (unat ((pc - pc_base p) div 4))"

end
