(* ===== verification/Mem_Access.thy ===== *)
theory Mem_Access
  imports Machine
begin

text \<open>
  Loads and stores narrower than a 64-bit memory word. \<open>compute_load_value\<close> and
  \<open>compute_store_value\<close> are the functions of \<open>vm.rs\<close>, which report a misaligned address as an error;
  \<open>load_value\<close> and \<open>store_value\<close> are those of the minimal executor
  (\<open>minimal/arch/portable/mod.rs\<close>), which panic on it. The specification \<open>load_bytes\<close> and
  \<open>store_bytes\<close> reads and writes the bytes \<open>addr mod 8, ...\<close> of the little-endian word.
\<close>

subsection \<open>The core VM's functions\<close>

definition is_multiple_of :: "u64 \<Rightarrow> u64 \<Rightarrow> bool" where
  "is_multiple_of a n \<longleftrightarrow> a mod n = 0"

definition compute_load_value :: "Opcode \<Rightarrow> u64 \<Rightarrow> u64 \<Rightarrow> (ExecutionError, u64) outcome" where
  "compute_load_value opc addr word = (case opc of
      LB \<Rightarrow> Ok (scast (ucast (drop_bit (unat ((addr mod 8) * 8)) word AND 0xFF) :: u8))
    | LH \<Rightarrow> if \<not> is_multiple_of addr 2 then Err (InvalidMemoryAccess LH addr)
        else Ok (scast (ucast (drop_bit (unat (((addr div 2) mod 4) * 16)) word AND 0xFFFF) :: u16))
    | LW \<Rightarrow> if \<not> is_multiple_of addr 4 then Err (InvalidMemoryAccess LW addr)
        else Ok (scast (ucast (drop_bit (unat (((addr div 4) mod 2) * 32)) word AND 0xFFFFFFFF) :: u32))
    | LBU \<Rightarrow> Ok (ucast (ucast (drop_bit (unat ((addr mod 8) * 8)) word AND 0xFF) :: u8))
    | LHU \<Rightarrow> if \<not> is_multiple_of addr 2 then Err (InvalidMemoryAccess LHU addr)
        else Ok (ucast (ucast (drop_bit (unat (((addr div 2) mod 4) * 16)) word AND 0xFFFF) :: u16))
    | LWU \<Rightarrow> if \<not> is_multiple_of addr 4 then Err (InvalidMemoryAccess LWU addr)
        else Ok (drop_bit (unat (((addr div 4) mod 2) * 32)) word AND 0xFFFFFFFF)
    | LD \<Rightarrow> if \<not> is_multiple_of addr 8 then Err (InvalidMemoryAccess LD addr)
        else Ok word
    | _ \<Rightarrow> Panic)"

definition compute_store_value ::
    "Opcode \<Rightarrow> u64 \<Rightarrow> u64 \<Rightarrow> u64 \<Rightarrow> (ExecutionError, u64) outcome" where
  "compute_store_value opc src addr word = (case opc of
      SB \<Rightarrow>
        let shift = unat ((addr mod 8) * 8)
        in Ok (push_bit shift (src AND 0xFF) OR (word AND NOT (push_bit shift 0xFF)))
    | SH \<Rightarrow> if \<not> is_multiple_of addr 2 then Err (InvalidMemoryAccess SH addr)
        else
          let shift = unat (((addr div 2) mod 4) * 16)
          in Ok (push_bit shift (src AND 0xFFFF) OR (word AND NOT (push_bit shift 0xFFFF)))
    | SW \<Rightarrow> if \<not> is_multiple_of addr 4 then Err (InvalidMemoryAccess SW addr)
        else
          let shift = unat (((addr div 4) mod 2) * 32)
          in Ok (push_bit shift (src AND 0xFFFFFFFF) OR (word AND NOT (push_bit shift 0xFFFFFFFF)))
    | SD \<Rightarrow> if \<not> is_multiple_of addr 8 then Err (InvalidMemoryAccess SD addr)
        else Ok src
    | _ \<Rightarrow> Panic)"

subsection \<open>The minimal executor's functions\<close>

definition load_value :: "Opcode \<Rightarrow> u64 \<Rightarrow> u64 \<Rightarrow> u64 option" where
  "load_value opc addr val = (case opc of
      LB \<Rightarrow> Some (scast (ucast (drop_bit (unat ((addr mod 8) * 8)) val AND 0xFF) :: u8))
    | LH \<Rightarrow> do {
        assert_that (is_multiple_of addr 2);
        Some (scast (ucast (drop_bit (unat (((addr div 2) mod 4) * 16)) val AND 0xFFFF) :: u16))
      }
    | LW \<Rightarrow> do {
        assert_that (is_multiple_of addr 4);
        Some (scast (ucast (drop_bit (unat (((addr div 4) mod 2) * 32)) val AND 0xFFFFFFFF) :: u32))
      }
    | LBU \<Rightarrow> Some (ucast (ucast (drop_bit (unat ((addr mod 8) * 8)) val AND 0xFF) :: u8))
    | LHU \<Rightarrow> do {
        assert_that (is_multiple_of addr 2);
        Some (ucast (ucast (drop_bit (unat (((addr div 2) mod 4) * 16)) val AND 0xFFFF) :: u16))
      }
    | LWU \<Rightarrow> do {
        assert_that (is_multiple_of addr 4);
        Some (drop_bit (unat (((addr div 4) mod 2) * 32)) val AND 0xFFFFFFFF)
      }
    | LD \<Rightarrow> do { assert_that (is_multiple_of addr 8); Some val }
    | _ \<Rightarrow> None)"

definition store_value :: "Opcode \<Rightarrow> u64 \<Rightarrow> u64 \<Rightarrow> u64 \<Rightarrow> u64 option" where
  "store_value opc src addr last_value = (case opc of
      SB \<Rightarrow>
        let shift = unat ((addr mod 8) * 8)
        in Some (push_bit shift (src AND 0xFF) OR (last_value AND NOT (push_bit shift 0xFF)))
    | SH \<Rightarrow> do {
        assert_that (is_multiple_of addr 2);
        let shift = unat (((addr div 2) mod 4) * 16);
        Some (push_bit shift (src AND 0xFFFF) OR (last_value AND NOT (push_bit shift 0xFFFF)))
      }
    | SW \<Rightarrow> do {
        assert_that (is_multiple_of addr 4);
        let shift = unat (((addr div 4) mod 2) * 32);
        Some (push_bit shift (src AND 0xFFFFFFFF)
              OR (last_value AND NOT (push_bit shift 0xFFFFFFFF)))
      }
    | SD \<Rightarrow> do { assert_that (is_multiple_of addr 8); Some src }
    | _ \<Rightarrow> None)"

subsection \<open>Byte-level specification\<close>

text \<open>The number of bytes an opcode accesses, whether it sign-extends, and the byte view of a word.\<close>

definition access_bytes :: "Opcode \<Rightarrow> nat" where
  "access_bytes opc = (if opc \<in> {LB, LBU, SB} then 1 else if opc \<in> {LH, LHU, SH} then 2
     else if opc \<in> {LW, LWU, SW} then 4 else if opc \<in> {LD, SD} then 8 else 0)"

definition opc_signed :: "Opcode \<Rightarrow> bool" where
  "opc_signed opc \<longleftrightarrow> opc \<in> {LB, LH, LW}"

definition load_bytes :: "Opcode \<Rightarrow> u64 \<Rightarrow> u64 \<Rightarrow> u64" where
  "load_bytes opc addr word =
    (let v = drop_bit (8 * (unat addr mod 8)) word;
         w = 8 * access_bytes opc
     in if opc_signed opc then signed_take_bit (w - 1) v else take_bit w v)"

definition get_byte :: "u64 \<Rightarrow> nat \<Rightarrow> u8" where
  "get_byte word k = ucast (drop_bit (8 * k) word)"

definition is_load :: "Opcode \<Rightarrow> bool" where
  "is_load opc \<longleftrightarrow> opc \<in> {LB, LH, LW, LBU, LHU, LWU, LD}"

definition is_store :: "Opcode \<Rightarrow> bool" where
  "is_store opc \<longleftrightarrow> opc \<in> {SB, SH, SW, SD}"

lemma alignment [simp]:
  "is_multiple_of addr 2 \<longleftrightarrow> unat addr mod 2 = 0"
  "is_multiple_of addr 4 \<longleftrightarrow> unat addr mod 4 = 0"
  "is_multiple_of addr 8 \<longleftrightarrow> unat addr mod 8 = 0"
  by (simp_all add: is_multiple_of_def word_arith_nat_mod unat_eq_0 [symmetric] take_bit_nat_eq_self
      unat_of_nat)

lemma shift_byte: "unat ((addr mod 8) * 8 :: u64) = 8 * (unat addr mod 8)"
  by (simp add: unat_word_ariths unat_mod_distrib)

lemma unat_mult_small:
  "unat (a :: u64) * unat b < 18446744073709551616 \<Longrightarrow> unat (a * b) = unat a * unat b"
  by (simp add: unat_word_ariths)

lemma shift_half:
  assumes "unat addr mod 2 = 0"
  shows "unat (((addr div 2) mod 4) * 16 :: u64) = 8 * (unat addr mod 8)"
proof -
  obtain k where "unat addr = 2 * k"
    using assms by (metis mod_0_imp_dvd dvdE)
  with mult_mod_right [of 2 k 4] show ?thesis
    by (subst unat_mult_small) (simp_all add: unat_mod_distrib unat_div_distrib)
qed

lemma shift_word:
  assumes "unat addr mod 4 = 0"
  shows "unat (((addr div 4) mod 2) * 32 :: u64) = 8 * (unat addr mod 8)"
proof -
  obtain k where "unat addr = 4 * k"
    using assms by (metis mod_0_imp_dvd dvdE)
  with mult_mod_right [of 4 k 2] show ?thesis
    by (subst unat_mult_small) (simp_all add: unat_mod_distrib unat_div_distrib)
qed

lemma byte_masks:
  "(0xFF :: u64) = mask 8" "(0xFFFF :: u64) = mask 16" "(0xFFFFFFFF :: u64) = mask 32"
  by (simp_all add: mask_eq_exp_minus_1)

lemma scast_ucast_take_bit:
  fixes v :: "'a :: len word"
  assumes "LENGTH('b) \<le> LENGTH('a)"
  shows "scast (ucast (take_bit LENGTH('b) v) :: 'b :: len word) =
    (signed_take_bit (LENGTH('b) - 1) v :: 'a word)"
  using assms
  by (intro bit_word_eqI) (auto simp: bit_signed_iff bit_unsigned_iff bit_take_bit_iff
      bit_signed_take_bit_iff min_def)

lemma ucast_ucast_take_bit:
  fixes v :: "'a :: len word"
  shows "ucast (ucast (take_bit LENGTH('b) v) :: 'b :: len word) = take_bit LENGTH('b) v"
  by (intro bit_word_eqI) (auto simp: bit_unsigned_iff bit_take_bit_iff)

lemmas extend_take_bit =
  scast_ucast_take_bit [where 'a = 64 and 'b = 8, simplified]
  scast_ucast_take_bit [where 'a = 64 and 'b = 16, simplified]
  scast_ucast_take_bit [where 'a = 64 and 'b = 32, simplified]
  ucast_ucast_take_bit [where 'a = 64 and 'b = 8, simplified]
  ucast_ucast_take_bit [where 'a = 64 and 'b = 16, simplified]

lemma is_load_cases:
  assumes "is_load opc"
  obtains "opc = LB" | "opc = LH" | "opc = LW" | "opc = LBU" | "opc = LHU" | "opc = LWU" | "opc = LD"
  using assms by (auto simp: is_load_def)

lemma is_store_cases:
  assumes "is_store opc"
  obtains "opc = SB" | "opc = SH" | "opc = SW" | "opc = SD"
  using assms by (auto simp: is_store_def)

lemma compute_load_value_bytes:
  assumes "is_load opc"
  shows "compute_load_value opc addr word =
    (if unat addr mod access_bytes opc = 0 then Ok (load_bytes opc addr word)
     else Err (InvalidMemoryAccess opc addr))"
  using assms
  by (elim is_load_cases)
    (simp_all add: compute_load_value_def load_bytes_def opc_signed_def access_bytes_def byte_masks extend_take_bit take_bit_word_eq_self
      shift_byte shift_half shift_word take_bit_eq_mask [symmetric])

text \<open>A store replaces the bit field of \<open>w\<close> bits at position \<open>s\<close>.\<close>

definition store_field :: "nat \<Rightarrow> nat \<Rightarrow> u64 \<Rightarrow> u64 \<Rightarrow> u64" where
  "store_field s w src word = push_bit s (take_bit w src) OR (word AND NOT (push_bit s (mask w)))"

lemma bit_store_field:
  "bit (store_field s w src word) i \<longleftrightarrow>
    (if s \<le> i \<and> i < s + w then bit src (i - s) \<and> i < 64 else bit word i)"
  by (auto simp: store_field_def bit_or_iff bit_and_iff bit_not_iff bit_push_bit_iff
      bit_take_bit_iff bit_mask_iff dest: bit_imp_le_length)

lemma store_field_64: "store_field 0 64 src word = src"
  by (rule bit_word_eqI) (simp add: bit_store_field)

lemma compute_store_value_field:
  assumes "is_store opc"
  shows "compute_store_value opc src addr word =
    (if unat addr mod access_bytes opc = 0
     then Ok (store_field (8 * (unat addr mod 8)) (8 * access_bytes opc) src word)
     else Err (InvalidMemoryAccess opc addr))"
  using assms
  by (elim is_store_cases)
    (simp_all add: compute_store_value_def access_bytes_def byte_masks Let_def store_field_64
      shift_byte shift_half shift_word take_bit_eq_mask [symmetric] store_field_def [symmetric])

lemma load_value_compute:
  "load_value opc addr w = Some v \<longleftrightarrow> compute_load_value opc addr w = Ok v"
  by (cases opc) (simp_all add: load_value_def compute_load_value_def)

lemma store_value_compute:
  "store_value opc src addr w = Some v \<longleftrightarrow> compute_store_value opc src addr w = Ok v"
  by (cases opc) (simp_all add: store_value_def compute_store_value_def Let_def)

lemma bit_get_byte: "bit (get_byte w k) j \<longleftrightarrow> j < 8 \<and> bit w (8 * k + j)"
  by (simp add: get_byte_def bit_unsigned_iff bit_drop_bit_eq)

lemma get_byte_store_field:
  assumes "k < 8"
  shows "get_byte (store_field (8 * a) (8 * n) src word) k =
    (if a \<le> k \<and> k < a + n then get_byte src (k - a) else get_byte word k)"
  using assms
  by (intro bit_word_eqI) (auto simp: bit_get_byte bit_store_field diff_mult_distrib2)

lemma word_eq_bytes: "(\<And>k. k < 8 \<Longrightarrow> get_byte v k = get_byte w k) \<Longrightarrow> v = w"
proof (rule bit_word_eqI)
  fix i
  assume *: "\<And>k. k < 8 \<Longrightarrow> get_byte v k = get_byte w k" and "i < LENGTH(64)"
  then have "bit (get_byte v (i div 8)) (i mod 8) = bit (get_byte w (i div 8)) (i mod 8)"
    by simp
  then show "bit v i = bit w i"
    by (simp add: bit_get_byte)
qed

lemma bit_load_bytes:
  "bit (load_bytes ld a w) i \<longleftrightarrow> i < 64 \<and>
    (if opc_signed ld then bit w (8 * (unat a mod 8) + min i (8 * access_bytes ld - 1))
     else i < 8 * access_bytes ld \<and> bit w (8 * (unat a mod 8) + i))"
  by (auto simp: opc_signed_def load_bytes_def Let_def bit_signed_take_bit_iff bit_take_bit_iff
      bit_drop_bit_eq min.commute dest: bit_imp_le_length)

lemma load_bytes_cong:
  assumes "0 < access_bytes ld"
    and "\<And>i. i < 8 * access_bytes ld \<Longrightarrow>
      bit v (8 * (unat a mod 8) + i) = bit w (8 * (unat b mod 8) + i)"
  shows "load_bytes ld a v = load_bytes ld b w"
proof (rule bit_word_eqI)
  fix i
  have "min i (8 * access_bytes ld - 1) < 8 * access_bytes ld"
    using assms(1) by linarith
  then show "bit (load_bytes ld a v) i = bit (load_bytes ld b w) i"
    using assms(2) [of i] assms(2) [of "min i (8 * access_bytes ld - 1)"] 
    by (auto simp: bit_load_bytes)
qed

lemma load_bytes_store_same:
  assumes "0 < access_bytes ld" "access_bytes ld = n" "unat addr mod 8 + n \<le> 8"
  shows "load_bytes ld addr (store_field (8 * (unat addr mod 8)) (8 * n) src word) = load_bytes ld 0 src"
  using assms by (intro load_bytes_cong) (simp_all add: bit_store_field)

lemma load_bytes_store_other:
  assumes "unat a mod 8 + access_bytes ld \<le> b \<or> b + n \<le> unat a mod 8" "0 < access_bytes ld"
  shows "load_bytes ld a (store_field (8 * b) (8 * n) src word) = load_bytes ld a word"
proof (rule load_bytes_cong [OF assms(2)])
  fix i
  assume "i < 8 * access_bytes ld"
  then have "\<not> (8 * b \<le> 8 * (unat a mod 8) + i \<and> 8 * (unat a mod 8) + i < 8 * b + 8 * n)"
    using assms(1) by linarith
  then show "bit (store_field (8 * b) (8 * n) src word) (8 * (unat a mod 8) + i) =
      bit word (8 * (unat a mod 8) + i)"
    by (simp only: bit_store_field if_False)
qed

lemma aligned_in_word:
  assumes "unat (addr :: u64) mod access_bytes opc = 0" "is_load opc \<or> is_store opc"
  shows "unat addr mod 8 + access_bytes opc \<le> 8" "0 < access_bytes opc"
proof -
  have "n mod 2 = 0 \<Longrightarrow> n mod 8 + 2 \<le> 8" "n mod 4 = 0 \<Longrightarrow> n mod 8 + 4 \<le> 8" "n mod 8 + 1 \<le> 8"
    for n :: nat by presburger+
  with assms show "unat addr mod 8 + access_bytes opc \<le> 8"
    by (auto simp: access_bytes_def split: if_splits)
  from assms(2) show "0 < access_bytes opc"
    by (auto simp: access_bytes_def is_load_def is_store_def)
qed

subsection \<open>Properties\<close>

lemma load_value_bytes:
  assumes "is_load opc"
  shows "load_value opc addr word =
    (if unat addr mod access_bytes opc = 0 then Some (load_bytes opc addr word) else None)"
  using load_value_compute [of opc addr word] compute_load_value_bytes [OF assms, of addr word]
  by (cases "load_value opc addr word") (auto split: if_splits)

lemma store_value_field:
  assumes "is_store opc"
  shows "store_value opc src addr word =
    (if unat addr mod access_bytes opc = 0
     then Some (store_field (8 * (unat addr mod 8)) (8 * access_bytes opc) src word) else None)"
  using store_value_compute [of opc src addr word] compute_store_value_field [OF assms, of src addr word]
  by (cases "store_value opc src addr word") (auto split: if_splits)

text \<open>(C8) A load returns the addressed bytes of the word it is given, sign-extended or zero-extended as
  its opcode says, exactly when the address is a multiple of the access size; otherwise the core VM
  reports an invalid access and the minimal executor panics.\<close>

theorem load_is_bytes:
  assumes "is_load opc"
  shows "compute_load_value opc addr word =
      (if unat addr mod access_bytes opc = 0 then Ok (load_bytes opc addr word)
       else Err (InvalidMemoryAccess opc addr)) \<and>
    load_value opc addr word =
      (if unat addr mod access_bytes opc = 0 then Some (load_bytes opc addr word) else None)"
  using assms by (simp add: compute_load_value_bytes load_value_bytes)

theorem load_is_bytes_witness:
  "compute_load_value LH 6 0x8001000000000000 = Ok 0xFFFFFFFFFFFF8001 \<and>
   load_value LH 7 0x8001000000000000 = None"
proof -
  have "load_bytes LH 6 0x8001000000000000 = 0xFFFFFFFFFFFF8001" "unat (6 :: u64) mod access_bytes LH = 0"
    "unat (7 :: u64) mod access_bytes LH \<noteq> 0" "is_load LH"
    by code_simp+
  with load_is_bytes [of LH 6 "0x8001000000000000"] load_is_bytes [of LH 7 "0x8001000000000000"]
  show ?thesis by simp
qed

text \<open>(C9) A store of an aligned address replaces exactly the addressed bytes of the memory word by the
  low bytes of the source register and keeps every other byte, in both executors; at an address that
  is not aligned the core VM reports an invalid access and the minimal executor panics.\<close>

theorem store_is_bytes:
  assumes "is_store opc" "k < 8"
  shows "(if unat addr mod access_bytes opc = 0
     then \<exists>w. compute_store_value opc src addr word = Ok w \<and> store_value opc src addr word = Some w \<and>
       get_byte w k =
         (if unat addr mod 8 \<le> k \<and> k < unat addr mod 8 + access_bytes opc
          then get_byte src (k - unat addr mod 8) else get_byte word k)
     else compute_store_value opc src addr word = Err (InvalidMemoryAccess opc addr) \<and>
       store_value opc src addr word = None)"
  using assms by (simp add: compute_store_value_field store_value_field get_byte_store_field)

theorem store_is_bytes_witness:
  "\<exists>w. compute_store_value SH 0xABCD 2 0x1122334455667788 = Ok w \<and>
     store_value SH 0xABCD 2 0x1122334455667788 = Some w \<and> get_byte w 3 = 0xAB"
proof -
  have "unat (2 :: u64) mod access_bytes SH = 0" "unat (2 :: u64) mod 8 = 2" "access_bytes SH = 2"
    "get_byte (0xABCD :: u64) 1 = 0xAB" "is_store SH"
    by code_simp+
  with store_is_bytes [of SH 3 2 "0xABCD" "0x1122334455667788"] show ?thesis
    by (simp split: if_splits)
qed

text \<open>(C10) Loading with the width of a preceding store at the same address returns the low bytes of the
  stored register, extended as the load says, and loading at an address whose bytes the store does not
  touch returns what it returned before.\<close>

theorem load_after_store:
  assumes st: "is_store st" and ld: "is_load ld"
    and w: "compute_store_value st src addr word = Ok w"
    and a: "unat a mod access_bytes ld = 0"
  shows "(a = addr \<and> access_bytes ld = access_bytes st \<longrightarrow>
      compute_load_value ld a w = Ok (load_bytes ld 0 src)) \<and>
    (unat a mod 8 + access_bytes ld \<le> unat addr mod 8 \<or>
     unat addr mod 8 + access_bytes st \<le> unat a mod 8 \<longrightarrow>
      compute_load_value ld a w = compute_load_value ld a word)"
proof -
  have addr: "unat addr mod access_bytes st = 0"
    and w': "w = store_field (8 * (unat addr mod 8)) (8 * access_bytes st) src word"
    using w st by (auto simp: compute_store_value_field split: if_splits)
  note in_word = aligned_in_word [OF addr disjI2 [OF st]] aligned_in_word [OF a disjI1 [OF ld]]
  show ?thesis
    using ld a in_word by (auto simp: w' compute_load_value_bytes load_bytes_store_same load_bytes_store_other)
qed

theorem load_after_store_witness:
  "\<exists>w. compute_store_value SW 0x80000001 4 0x1122334455667788 = Ok w \<and>
     compute_load_value LW 4 w = Ok (load_bytes LW 0 0x80000001) \<and>
     compute_load_value LBU 3 w = compute_load_value LBU 3 0x1122334455667788"
proof -
  have c: "unat (4 :: u64) mod access_bytes LW = 0" "access_bytes LW = access_bytes SW" "is_store SW"
    "is_load LW" "is_load LBU" "unat (3 :: u64) mod access_bytes LBU = 0"
    "unat (3 :: u64) mod 8 + access_bytes LBU \<le> unat (4 :: u64) mod 8" "unat (4 :: u64) mod access_bytes SW = 0"
    by code_simp+
  then obtain w where w: "compute_store_value SW 0x80000001 4 0x1122334455667788 = Ok w"
    by (simp add: compute_store_value_field)
  from load_after_store [OF c(3,4) w c(1)] load_after_store [OF c(3,5) w c(6)] c w show ?thesis
    by blast
qed

end
