(* ===== verification/Paged_Memory.thy ===== *)
theory Paged_Memory
  imports Sp1_Prelude
begin

text \<open>
  The memories of \<open>crates/core/executor/src/memory.rs\<close>: \<open>PagedMemory\<close>, a two-level table over
  64-bit words; \<open>Registers\<close>, an array of 32 optional values; and \<open>Memory\<close>, which sends the addresses
  below 32 to the registers and the others to the page table.

  The locale \<open>word_store\<close> is the contract of the three: reading and writing a finite map, whose keys
  are what the address identifies; \<open>removable_store\<close> adds removal and the value that an insertion
  replaces. It is interpreted on all of them at the end of the theory.
  The index vector of a \<open>PagedMemory\<close> and the slots of a page have a fixed length; they are functions
  on the indices, and the bounds check of the index vector is explicit (the slot of a page is
  computed with a mask, so it is always in range).
\<close>

subsection \<open>The paged memory\<close>

abbreviation (input) LOG_PAGE_LEN :: nat where "LOG_PAGE_LEN \<equiv> 18"
abbreviation (input) PAGE_LEN :: nat where "PAGE_LEN \<equiv> 262144"
abbreviation (input) MAX_PAGE_COUNT :: nat where "MAX_PAGE_COUNT \<equiv> 524288"
abbreviation (input) NO_PAGE :: u32 where "NO_PAGE \<equiv> 0xFFFFFFFF"

type_synonym 'v NewPage = "nat \<Rightarrow> 'v option"

definition new_page :: "'v NewPage" where
  "new_page = (\<lambda>_. None)"

record 'v PagedMemory =
  page_table :: "'v NewPage list"
  index :: "nat \<Rightarrow> u32"

definition new_preallocated :: "'v PagedMemory" where
  "new_preallocated = \<lparr>page_table = [], index = (\<lambda>_. NO_PAGE)\<rparr>"

definition compress_addr :: "u64 \<Rightarrow> u64" where
  "compress_addr addr = drop_bit 3 addr"

definition decompress_addr :: "u64 \<Rightarrow> u64" where
  "decompress_addr i = push_bit 3 i"

definition indices :: "u64 \<Rightarrow> nat \<times> nat" where
  "indices addr =
    (let index = compress_addr addr
     in (unat (drop_bit LOG_PAGE_LEN index), unat (index AND (2 ^ LOG_PAGE_LEN - 1))))"

definition index_get :: "'v PagedMemory \<Rightarrow> nat \<Rightarrow> u32 option" where
  "index_get m upper = (if upper < MAX_PAGE_COUNT then Some (index m upper) else None)"

definition write_slot :: "'v PagedMemory \<Rightarrow> nat \<Rightarrow> nat \<Rightarrow> 'v option \<Rightarrow> 'v PagedMemory" where
  "write_slot m i lower v =
    m\<lparr>page_table := (page_table m)[i := (page_table m ! i)(lower := v)]\<rparr>"

definition push_page :: "'v PagedMemory \<Rightarrow> nat \<Rightarrow> 'v PagedMemory" where
  "push_page m upper =
    m\<lparr>page_table := page_table m @ [new_page],
      index := (index m)(upper := of_nat (length (page_table m)))\<rparr>"

definition paged_get :: "'v PagedMemory \<Rightarrow> u64 \<Rightarrow> 'v option option" where
  "paged_get m addr = (case indices addr of (upper, lower) \<Rightarrow> do {
     i \<leftarrow> index_get m upper;
     if i = NO_PAGE then Some None
     else do {
       page \<leftarrow> vec_get (page_table m) (unat i);
       Some (page lower)
     }
   })"

text \<open>\<open>insert\<close> returns the previous value of the slot.\<close>

definition paged_insert :: "'v PagedMemory \<Rightarrow> u64 \<Rightarrow> 'v \<Rightarrow> ('v option \<times> 'v PagedMemory) option" where
  "paged_insert m addr v = (case indices addr of (upper, lower) \<Rightarrow> do {
     i \<leftarrow> index_get m upper;
     let m' = (if i = NO_PAGE then push_page m upper else m);
     let i' = (if i = NO_PAGE then of_nat (length (page_table m)) else i);
     page \<leftarrow> vec_get (page_table m') (unat i');
     Some (page lower, write_slot m' (unat i') lower (Some v))
   })"

definition paged_remove :: "'v PagedMemory \<Rightarrow> u64 \<Rightarrow> ('v option \<times> 'v PagedMemory) option" where
  "paged_remove m addr = (case indices addr of (upper, lower) \<Rightarrow> do {
     i \<leftarrow> index_get m upper;
     if i = NO_PAGE then Some (None, m)
     else do {
       page \<leftarrow> vec_get (page_table m) (unat i);
       Some (page lower, write_slot m (unat i) lower None)
     }
   })"

text \<open>An \<open>Entry\<close> is a reference to a slot: the page and position it points to and what it holds. A
  page is allocated when the entry is taken, whether or not it is then filled.\<close>

record 'v Entry =
  entry_page :: nat
  entry_slot :: nat
  entry_content :: "'v option"

definition paged_entry :: "'v PagedMemory \<Rightarrow> u64 \<Rightarrow> ('v Entry \<times> 'v PagedMemory) option" where
  "paged_entry m addr = (case indices addr of (upper, lower) \<Rightarrow> do {
     i \<leftarrow> index_get m upper;
     if i = NO_PAGE then
       Some (\<lparr>entry_page = length (page_table m), entry_slot = lower, entry_content = None\<rparr>,
             push_page m upper)
     else do {
       page \<leftarrow> vec_get (page_table m) (unat i);
       Some (\<lparr>entry_page = unat i, entry_slot = lower, entry_content = page lower\<rparr>, m)
     }
   })"

definition entry_set :: "'v PagedMemory \<Rightarrow> 'v Entry \<Rightarrow> 'v \<Rightarrow> 'v PagedMemory" where
  "entry_set m e v = write_slot m (entry_page e) (entry_slot e) (Some v)"

text \<open>\<open>or_insert\<close>: the value that the returned reference points to, and the memory.\<close>

definition or_insert :: "'v PagedMemory \<Rightarrow> 'v Entry \<Rightarrow> 'v \<Rightarrow> 'v \<times> 'v PagedMemory" where
  "or_insert m e d = (case entry_content e of
      None \<Rightarrow> (d, entry_set m e d)
    | Some v \<Rightarrow> (v, m))"

definition and_modify :: "'v PagedMemory \<Rightarrow> 'v Entry \<Rightarrow> ('v \<Rightarrow> 'v) \<Rightarrow> 'v Entry \<times> 'v PagedMemory" where
  "and_modify m e f = (case entry_content e of
      None \<Rightarrow> (e, m)
    | Some v \<Rightarrow> (e\<lparr>entry_content := Some (f v)\<rparr>, entry_set m e (f v)))"

text \<open>The pages in use, in the order of the index vector, each with its position in it.\<close>

definition used_pages :: "'v PagedMemory \<Rightarrow> (nat \<times> 'v NewPage) list option" where
  "used_pages m = those (map (\<lambda>upper. do {
       page \<leftarrow> vec_get (page_table m) (unat (index m upper));
       Some (upper, page)
     }) (filter (\<lambda>upper. index m upper \<noteq> NO_PAGE) [0..<MAX_PAGE_COUNT]))"

definition paged_keys :: "'v PagedMemory \<Rightarrow> u64 list option" where
  "paged_keys m = do {
     pages \<leftarrow> used_pages m;
     Some (concat (map (\<lambda>(upper, page).
       map (\<lambda>lower. decompress_addr (of_nat (upper * PAGE_LEN + lower)))
         (filter (\<lambda>lower. page lower \<noteq> None) [0..<PAGE_LEN])) pages))
   }"

definition paged_exact_len :: "'v PagedMemory \<Rightarrow> nat option" where
  "paged_exact_len m = do {
     pages \<leftarrow> used_pages m;
     Some (sum_list (map (\<lambda>(upper, page).
       length (filter (\<lambda>lower. page lower \<noteq> None) [0..<PAGE_LEN])) pages))
   }"

definition paged_estimate_len :: "'v PagedMemory \<Rightarrow> nat" where
  "paged_estimate_len m =
    length (filter (\<lambda>upper. index m upper \<noteq> NO_PAGE) [0..<MAX_PAGE_COUNT]) * PAGE_LEN"

definition paged_clear :: "'v PagedMemory \<Rightarrow> 'v PagedMemory" where
  "paged_clear m = m\<lparr>page_table := [], index := (\<lambda>_. NO_PAGE)\<rparr>"

text \<open>The loop of the \<open>FromIterator\<close> implementations of the three memories.\<close>

primrec insert_all ::
    "('m \<Rightarrow> u64 \<Rightarrow> 'v \<Rightarrow> ('v option \<times> 'm) option) \<Rightarrow> 'm \<Rightarrow> (u64 \<times> 'v) list \<Rightarrow> 'm option" where
  "insert_all ins m [] = Some m"
| "insert_all ins m (kv # kvs) = do {
     (_, m') \<leftarrow> ins m (fst kv) (snd kv);
     insert_all ins m' kvs
   }"

definition paged_from_iter :: "(u64 \<times> 'v) list \<Rightarrow> 'v PagedMemory option" where
  "paged_from_iter kvs = insert_all paged_insert new_preallocated kvs"

subsection \<open>Registers\<close>

type_synonym 'v Registers = "'v option list"

definition registers_default :: "'v Registers" where
  "registers_default = replicate 32 None"

definition registers_get :: "'v Registers \<Rightarrow> u64 \<Rightarrow> 'v option option" where
  "registers_get rs addr = vec_get rs (unat addr)"

definition registers_insert :: "'v Registers \<Rightarrow> u64 \<Rightarrow> 'v \<Rightarrow> ('v option \<times> 'v Registers) option" where
  "registers_insert rs addr v = do {
     old \<leftarrow> vec_get rs (unat addr);
     rs' \<leftarrow> vec_set rs (unat addr) (Some v);
     Some (old, rs')
   }"

definition registers_remove :: "'v Registers \<Rightarrow> u64 \<Rightarrow> ('v option \<times> 'v Registers) option" where
  "registers_remove rs addr = do {
     old \<leftarrow> vec_get rs (unat addr);
     rs' \<leftarrow> vec_set rs (unat addr) None;
     Some (old, rs')
   }"

definition registers_clear :: "'v Registers \<Rightarrow> 'v Registers" where
  "registers_clear rs = map (\<lambda>_. None) rs"

definition registers_from_iter :: "(u64 \<times> 'v) list \<Rightarrow> 'v Registers option" where
  "registers_from_iter kvs = insert_all registers_insert registers_default kvs"

subsection \<open>Registers and page table together\<close>

record 'v Memory =
  mem_registers :: "'v Registers"
  mem_page_table :: "'v PagedMemory"

definition memory_default :: "'v Memory" where
  "memory_default = \<lparr>mem_registers = registers_default, mem_page_table = new_preallocated\<rparr>"

definition memory_get :: "'v Memory \<Rightarrow> u64 \<Rightarrow> 'v option option" where
  "memory_get m addr =
    (if addr < 32 then registers_get (mem_registers m) addr
     else paged_get (mem_page_table m) addr)"

definition memory_insert :: "'v Memory \<Rightarrow> u64 \<Rightarrow> 'v \<Rightarrow> ('v option \<times> 'v Memory) option" where
  "memory_insert m addr v =
    (if addr < 32 then do {
       (old, rs) \<leftarrow> registers_insert (mem_registers m) addr v;
       Some (old, m\<lparr>mem_registers := rs\<rparr>)
     } else do {
       (old, p) \<leftarrow> paged_insert (mem_page_table m) addr v;
       Some (old, m\<lparr>mem_page_table := p\<rparr>)
     })"

definition memory_remove :: "'v Memory \<Rightarrow> u64 \<Rightarrow> ('v option \<times> 'v Memory) option" where
  "memory_remove m addr =
    (if addr < 32 then do {
       (old, rs) \<leftarrow> registers_remove (mem_registers m) addr;
       Some (old, m\<lparr>mem_registers := rs\<rparr>)
     } else do {
       (old, p) \<leftarrow> paged_remove (mem_page_table m) addr;
       Some (old, m\<lparr>mem_page_table := p\<rparr>)
     })"

definition memory_from_iter :: "(u64 \<times> 'v) list \<Rightarrow> 'v Memory option" where
  "memory_from_iter kvs = insert_all memory_insert memory_default kvs"

definition memory_clear :: "'v Memory \<Rightarrow> 'v Memory" where
  "memory_clear m =
    m\<lparr>mem_registers := registers_clear (mem_registers m),
      mem_page_table := paged_clear (mem_page_table m)\<rparr>"

subsection \<open>The contract\<close>

locale word_store =
  fixes inv :: "'m \<Rightarrow> bool"
    and key :: "u64 \<Rightarrow> 'k"
    and valid :: "u64 \<Rightarrow> bool"
    and abs :: "'m \<Rightarrow> 'k \<Rightarrow> 'v option"
    and empty :: 'm
    and get :: "'m \<Rightarrow> u64 \<Rightarrow> 'v option option"
    and ins :: "'m \<Rightarrow> u64 \<Rightarrow> 'v \<Rightarrow> ('v option \<times> 'm) option"
  assumes inv_empty: "inv empty"
    and abs_empty: "abs empty = Map.empty"
    and get_abs: "inv m \<Longrightarrow> valid a \<Longrightarrow> get m a = Some (abs m (key a))"
    and ins_abs: "inv m \<Longrightarrow> valid a \<Longrightarrow>
      \<exists>old m'. ins m a v = Some (old, m') \<and> inv m' \<and> abs m' = (abs m)(key a \<mapsto> v)"
begin

lemma get_after_ins:
  assumes "inv m" "valid a" "valid b" "ins m a v = Some (old, m')"
  shows "get m' b = (if key b = key a then Some (Some v) else get m b)"
  using ins_abs [OF assms(1,2), of v] assms by (auto simp: get_abs)

lemma insert_all_abs:
  assumes "inv m" "\<forall>kv \<in> set kvs. valid (fst kv)"
  shows "\<exists>m'. insert_all ins m kvs = Some m' \<and> inv m' \<and>
    abs m' = abs m ++ map_of (rev (map (apfst key) kvs))"
  using assms
proof (induction kvs arbitrary: m)
  case Nil
  then show ?case by simp
next
  case (Cons kv kvs)
  obtain old m1 where m1: "ins m (fst kv) (snd kv) = Some (old, m1)" "inv m1"
    "abs m1 = (abs m)(key (fst kv) \<mapsto> snd kv)"
    using ins_abs [OF Cons.prems(1)] Cons.prems(2) by (metis list.set_intros(1))
  obtain m' where "insert_all ins m1 kvs = Some m'" "inv m'"
    "abs m' = abs m1 ++ map_of (rev (map (apfst key) kvs))"
    using Cons.IH [OF m1(2)] Cons.prems(2) by auto
  with m1 show ?case
    by (cases kv) (auto simp: map_add_def fun_eq_iff split: option.splits)
qed

lemma from_iter_get:
  assumes "\<forall>kv \<in> set kvs. valid (fst kv)" "valid a"
  obtains m where "insert_all ins empty kvs = Some m" "inv m"
    "get m a = Some (map_of (rev (map (apfst key) kvs)) (key a))"
  using insert_all_abs [OF inv_empty assms(1)] assms(2) by (auto simp: get_abs abs_empty)

end

locale removable_store = word_store inv key valid abs empty get ins
  for inv :: "'m \<Rightarrow> bool" and key :: "u64 \<Rightarrow> 'k" and valid and abs :: "'m \<Rightarrow> 'k \<Rightarrow> 'v option"
    and empty get ins +
  fixes rem :: "'m \<Rightarrow> u64 \<Rightarrow> ('v option \<times> 'm) option"
  assumes ins_old: "inv m \<Longrightarrow> valid a \<Longrightarrow> ins m a v = Some (old, m') \<Longrightarrow> old = abs m (key a)"
    and rem_abs: "inv m \<Longrightarrow> valid a \<Longrightarrow>
      \<exists>m'. rem m a = Some (abs m (key a), m') \<and> inv m' \<and> abs m' = (abs m)(key a := None)"
begin

lemma get_after_rem:
  assumes "inv m" "valid a" "valid b" "rem m a = Some (old, m')"
  shows "get m' b = (if key b = key a then Some None else get m b)"
  using rem_abs [OF assms(1,2)] assms by (auto simp: get_abs)

lemma rem_ins:
  assumes "inv m" "valid a" "ins m a v = Some (old, m')"
  shows "\<exists>m''. rem m' a = Some (Some v, m'') \<and> inv m'' \<and> abs m'' = (abs m)(key a := None)"
  using ins_abs [OF assms(1,2), of v] assms(3) rem_abs [OF _ assms(2), of m'] by auto

end

subsection \<open>The paged memory implements it\<close>

definition used :: "'v PagedMemory \<Rightarrow> nat set" where
  "used m = {u. u < MAX_PAGE_COUNT \<and> index m u \<noteq> NO_PAGE}"

definition paged_inv :: "'v PagedMemory \<Rightarrow> bool" where
  "paged_inv m \<longleftrightarrow> inj_on (\<lambda>u. unat (index m u)) (used m) \<and>
    (\<forall>u \<in> used m. unat (index m u) < length (page_table m)) \<and>
    length (page_table m) = card (used m)"

definition paged_abs :: "'v PagedMemory \<Rightarrow> nat \<Rightarrow> 'v option" where
  "paged_abs m k =
    (if k div PAGE_LEN \<in> used m
     then (page_table m ! unat (index m (k div PAGE_LEN))) (k mod PAGE_LEN) else None)"

definition word_index :: "u64 \<Rightarrow> nat" where
  "word_index addr = unat addr div 8"

definition in_memory :: "u64 \<Rightarrow> bool" where
  "in_memory addr \<longleftrightarrow> addr < 2 ^ 40"

lemma indices_div_mod:
  "indices addr = (word_index addr div PAGE_LEN, word_index addr mod PAGE_LEN)"
proof -
  have "(2 ^ 18 - 1 :: u64) = mask 18"
    by (simp add: mask_eq_exp_minus_1)
  then show ?thesis
    by (simp only: indices_def Let_def take_bit_eq_mask [symmetric] compress_addr_def word_index_def
        unat_drop_bit unat_take_bit)
      (simp add: unat_drop_bit unat_take_bit div_mult2_eq [symmetric])
qed

lemma in_memory_upper: "in_memory addr \<Longrightarrow> word_index addr div PAGE_LEN < MAX_PAGE_COUNT"
  by (simp add: in_memory_def word_index_def word_less_nat_alt less_mult_imp_div_less)

lemma finite_used [simp]: "finite (used m)"
  by (simp add: used_def)

lemma card_used: "card (used m) \<le> MAX_PAGE_COUNT"
proof -
  have "used m \<subseteq> {..<MAX_PAGE_COUNT}"
    by (auto simp: used_def)
  then show ?thesis
    by (metis card_lessThan card_mono finite_lessThan)
qed

lemma paged_inv_length: "paged_inv m \<Longrightarrow> length (page_table m) \<le> MAX_PAGE_COUNT"
  using card_used [of m] by (simp add: paged_inv_def)

lemma page_number:
  assumes "n \<le> MAX_PAGE_COUNT"
  shows "unat (of_nat n :: u32) = n" "(of_nat n :: u32) \<noteq> NO_PAGE"
proof -
  show "unat (of_nat n :: u32) = n"
    using assms by (simp add: unat_of_nat)
  then show "(of_nat n :: u32) \<noteq> NO_PAGE"
    using assms by auto
qed

lemma paged_get_abs: "in_memory a \<Longrightarrow> paged_inv m \<Longrightarrow> paged_get m a = Some (paged_abs m (word_index a))"
  by (auto simp: paged_get_def indices_div_mod index_get_def in_memory_upper paged_abs_def used_def
      paged_inv_def)

lemma used_push_page:
  assumes "paged_inv m" "upper < MAX_PAGE_COUNT"
  shows "used (push_page m upper) = insert upper (used m)"
  using assms page_number(2) [OF paged_inv_length [OF assms(1)]]
  by (auto simp: used_def push_page_def)

lemma push_page_inv:
  assumes inv: "paged_inv m" and new: "index m upper = NO_PAGE" "upper < MAX_PAGE_COUNT"
  shows "paged_inv (push_page m upper)" "paged_abs (push_page m upper) = paged_abs m"
proof -
  have notin: "upper \<notin> used m"
    using new by (simp add: used_def)
  note n = page_number(1) [OF paged_inv_length [OF inv]]
  have less: "unat (index m u) < length (page_table m)" if "u \<in> used m" for u
    using inv that unfolding paged_inv_def by blast
  have idx: "unat (index (push_page m upper) u) = (if u = upper then length (page_table m) else unat (index m u))" for u
    by (simp add: push_page_def n)
  have pages: "page_table (push_page m upper) = page_table m @ [new_page]"
    by (simp add: push_page_def)
  have "inj_on (\<lambda>u. unat (index (push_page m upper) u)) (used m) \<longleftrightarrow>
      inj_on (\<lambda>u. unat (index m u)) (used m)"
    by (rule inj_on_cong) (use notin in \<open>auto simp: idx\<close>)
  then have "inj_on (\<lambda>u. unat (index (push_page m upper) u)) (used m)"
    using inv by (simp add: paged_inv_def)
  moreover have "length (page_table m) \<notin> (\<lambda>u. unat (index (push_page m upper) u)) ` used m"
    using less notin by (auto simp: idx) (metis less_irrefl)
  ultimately have "inj_on (\<lambda>u. unat (index (push_page m upper) u)) (insert upper (used m))"
    using notin by (simp add: inj_on_insert idx)
  moreover have "length (page_table m) = card (used m)"
    using inv by (simp add: paged_inv_def)
  ultimately show "paged_inv (push_page m upper)"
    using less notin unfolding paged_inv_def used_push_page [OF inv new(2)]
    by (simp add: idx pages less_SucI)
  show "paged_abs (push_page m upper) = paged_abs m"
    using notin less
    by (auto simp: fun_eq_iff paged_abs_def used_push_page [OF inv new(2)] idx pages nth_append
        new_page_def)
qed

lemma used_write_slot [simp]: "used (write_slot m i lower v) = used m"
  by (simp add: used_def write_slot_def)

lemma paged_inv_write_slot [simp]: "paged_inv (write_slot m i lower v) = paged_inv m"
  by (simp add: paged_inv_def) (simp add: write_slot_def)

lemma paged_abs_write_slot:
  assumes "paged_inv m" "k div PAGE_LEN \<in> used m"
  shows "paged_abs (write_slot m (unat (index m (k div PAGE_LEN))) (k mod PAGE_LEN) v) =
    (paged_abs m)(k := v)"
proof
  fix j
  let ?i = "unat (index m (k div PAGE_LEN))" and ?m = "write_slot m (unat (index m (k div PAGE_LEN))) (k mod PAGE_LEN) v"
  have less: "?i < length (page_table m)"
    using assms unfolding paged_inv_def by blast
  have index: "index ?m = index m"
    by (simp add: write_slot_def)
  show "paged_abs ?m j = ((paged_abs m)(k := v)) j"
  proof (cases "j div PAGE_LEN = k div PAGE_LEN")
    case True
    then have "j = k \<longleftrightarrow> j mod PAGE_LEN = k mod PAGE_LEN"
      by (metis div_mult_mod_eq)
    with True less show ?thesis
      using assms(2) by (simp add: paged_abs_def index) (simp add: write_slot_def)
  next
    case False
    then have "unat (index m (j div PAGE_LEN)) \<noteq> ?i" if "j div PAGE_LEN \<in> used m"
      using assms that unfolding paged_inv_def inj_on_def by blast
    moreover have "j \<noteq> k"
      using False by blast
    ultimately show ?thesis
      by (simp add: paged_abs_def index) (auto simp: write_slot_def)
  qed
qed

lemma paged_insert_abs:
  assumes "paged_inv m" "in_memory a"
  shows "\<exists>m'. paged_insert m a v = Some (paged_abs m (word_index a), m') \<and> paged_inv m' \<and>
    paged_abs m' = (paged_abs m)(word_index a \<mapsto> v)"
proof -
  let ?u = "word_index a div PAGE_LEN"
  define m1 where "m1 = (if index m ?u = NO_PAGE then push_page m ?u else m)"
  have u: "?u < MAX_PAGE_COUNT"
    using assms(2) by (rule in_memory_upper)
  have m1: "paged_inv m1" "paged_abs m1 = paged_abs m" "?u \<in> used m1"
    using push_page_inv [OF assms(1) _ u] used_push_page [OF assms(1) u] assms(1) u
    by (auto simp: m1_def used_def)
  have "paged_insert m a v = do {
      page \<leftarrow> vec_get (page_table m1) (unat (index m1 ?u));
      Some (page (word_index a mod PAGE_LEN),
        write_slot m1 (unat (index m1 ?u)) (word_index a mod PAGE_LEN) (Some v))
    }"
    using u by (auto simp: paged_insert_def indices_div_mod index_get_def m1_def Let_def)
      (simp_all add: push_page_def)
  also have "\<dots> = Some (paged_abs m1 (word_index a),
      write_slot m1 (unat (index m1 ?u)) (word_index a mod PAGE_LEN) (Some v))"
    using m1(1,3) by (auto simp: paged_abs_def paged_inv_def)
  finally show ?thesis
    using m1 by (simp add: paged_abs_write_slot)
qed

lemma paged_insert_ex:
  assumes "paged_inv m" "in_memory a"
  shows "\<exists>old m'. paged_insert m a v = Some (old, m') \<and> paged_inv m' \<and>
    paged_abs m' = (paged_abs m)(word_index a \<mapsto> v)"
  using paged_insert_abs [OF assms] by blast

lemma paged_insert_old:
  "paged_insert m a v = Some (old, m') \<Longrightarrow> paged_inv m \<Longrightarrow> in_memory a \<Longrightarrow> old = paged_abs m (word_index a)"
  using paged_insert_abs [of m a v] by auto

lemma paged_remove_abs:
  assumes "paged_inv m" "in_memory a"
  shows "\<exists>m'. paged_remove m a = Some (paged_abs m (word_index a), m') \<and> paged_inv m' \<and>
    paged_abs m' = (paged_abs m)(word_index a := None)"
proof (cases "word_index a div PAGE_LEN \<in> used m")
  case True
  then have "unat (index m (word_index a div PAGE_LEN)) < length (page_table m)"
    using assms(1) unfolding paged_inv_def by blast
  with True assms show ?thesis
    by (auto simp: paged_remove_def indices_div_mod index_get_def paged_abs_def used_def
        paged_abs_write_slot [OF assms(1) True])
next
  case False
  then have "index m (word_index a div PAGE_LEN) = NO_PAGE"
    using in_memory_upper [OF assms(2)] by (simp add: used_def)
  with False assms in_memory_upper [OF assms(2)] show ?thesis
    by (auto simp: paged_remove_def indices_div_mod index_get_def paged_abs_def)
qed

lemma paged_entry_abs:
  assumes "paged_inv m" "in_memory a"
  shows "\<exists>e m1. paged_entry m a = Some (e, m1) \<and> paged_inv m1 \<and> paged_abs m1 = paged_abs m \<and>
    entry_content e = paged_abs m (word_index a) \<and>
    (\<forall>v. paged_inv (entry_set m1 e v) \<and>
         paged_abs (entry_set m1 e v) = (paged_abs m)(word_index a \<mapsto> v))"
proof -
  let ?u = "word_index a div PAGE_LEN"
  define m1 where "m1 = (if index m ?u = NO_PAGE then push_page m ?u else m)"
  have u: "?u < MAX_PAGE_COUNT"
    using assms(2) by (rule in_memory_upper)
  have m1: "paged_inv m1" "paged_abs m1 = paged_abs m" "?u \<in> used m1"
    using push_page_inv [OF assms(1) _ u] used_push_page [OF assms(1) u] assms(1) u
    by (auto simp: m1_def used_def)
  have new: "index m1 ?u = of_nat (length (page_table m))" if "index m ?u = NO_PAGE"
    using that by (simp add: m1_def push_page_def)
  have "paged_entry m a = Some (\<lparr>entry_page = unat (index m1 ?u),
      entry_slot = word_index a mod PAGE_LEN, entry_content = paged_abs m (word_index a)\<rparr>, m1)"
  proof (cases "index m ?u = NO_PAGE")
    case True
    then show ?thesis
      using u new [OF True] page_number(1) [OF paged_inv_length [OF assms(1)]]
      by (simp add: paged_entry_def indices_div_mod index_get_def paged_abs_def used_def m1_def)
  next
    case False
    then have "m1 = m"
      by (simp add: m1_def)
    with False m1 have "unat (index m ?u) < length (page_table m)"
      unfolding paged_inv_def by blast
    with False \<open>m1 = m\<close> m1(3) u show ?thesis
      by (simp add: paged_entry_def indices_div_mod index_get_def paged_abs_def)
  qed
  with m1 paged_abs_write_slot [OF m1(1,3)] show ?thesis
    by (simp add: entry_set_def)
qed

lemma dom_paged_abs: "dom (paged_abs m) \<subseteq> {..<2 ^ 37}"
proof -
  have "k < MAX_PAGE_COUNT * PAGE_LEN" if "k div PAGE_LEN < MAX_PAGE_COUNT" for k
    using that by (simp add: div_less_iff_less_mult)
  then show ?thesis
    by (auto simp: dom_def paged_abs_def used_def split: if_splits)
qed

lemma finite_dom_paged_abs [simp]: "finite (dom (paged_abs m))"
  by (rule finite_subset [OF dom_paged_abs finite_lessThan])

lemma card_dom_paged_abs: "card (dom (paged_abs m)) \<le> 2 ^ 37"
  using card_mono [OF finite_lessThan dom_paged_abs] by (simp only: card_lessThan)

lemma paged_inv_new [simp]: "paged_inv new_preallocated"
  by (simp add: paged_inv_def new_preallocated_def used_def)

lemma paged_abs_new [simp]: "paged_abs new_preallocated = Map.empty"
  by (simp add: fun_eq_iff paged_abs_def new_preallocated_def used_def)

interpretation paged: removable_store paged_inv word_index in_memory paged_abs new_preallocated
  paged_get paged_insert paged_remove
  by unfold_locales
    (auto simp: paged_get_abs paged_remove_abs dest: paged_insert_old intro: paged_insert_ex)

subsection \<open>So do the registers and the combined memory\<close>

definition registers_inv :: "'v Registers \<Rightarrow> bool" where
  "registers_inv rs \<longleftrightarrow> length rs = 32"

definition registers_abs :: "'v Registers \<Rightarrow> nat \<Rightarrow> 'v option" where
  "registers_abs rs k = (if k < 32 then rs ! k else None)"

definition is_register :: "u64 \<Rightarrow> bool" where
  "is_register addr \<longleftrightarrow> addr < 32"

lemma is_register_unat: "is_register a \<longleftrightarrow> unat a < 32"
  by (simp add: is_register_def word_less_nat_alt)

lemmas registers_defs = registers_inv_def registers_abs_def registers_get_def registers_insert_def
  registers_remove_def registers_default_def is_register_unat

interpretation regs: removable_store registers_inv unat is_register registers_abs registers_default
  registers_get registers_insert registers_remove
  by unfold_locales (auto simp: registers_defs fun_eq_iff nth_list_update)

definition memory_inv :: "'v Memory \<Rightarrow> bool" where
  "memory_inv m \<longleftrightarrow> registers_inv (mem_registers m) \<and> paged_inv (mem_page_table m)"

definition memory_key :: "u64 \<Rightarrow> nat + nat" where
  "memory_key addr = (if is_register addr then Inl (unat addr) else Inr (word_index addr))"

definition memory_abs :: "'v Memory \<Rightarrow> nat + nat \<Rightarrow> 'v option" where
  "memory_abs m k = (case k of
      Inl r \<Rightarrow> registers_abs (mem_registers m) r
    | Inr w \<Rightarrow> paged_abs (mem_page_table m) w)"

lemma memory_insert_abs:
  assumes "memory_inv m" "in_memory a"
  shows "\<exists>m'. memory_insert m a v = Some (memory_abs m (memory_key a), m') \<and> memory_inv m' \<and>
    memory_abs m' = (memory_abs m)(memory_key a \<mapsto> v)"
proof (cases "is_register a")
  case True
  with regs.ins_abs [of "mem_registers m" a v] regs.ins_old [of "mem_registers m" a v] assms
  show ?thesis
    by (auto simp: memory_insert_def memory_inv_def memory_key_def memory_abs_def fun_eq_iff
        is_register_def split: sum.splits)
next
  case False
  with paged.ins_abs [of "mem_page_table m" a v] paged.ins_old [of "mem_page_table m" a v] assms
  show ?thesis
    by (auto simp: memory_insert_def memory_inv_def memory_key_def memory_abs_def fun_eq_iff
        is_register_def split: sum.splits)
qed

lemma memory_insert_ex:
  assumes "memory_inv m" "in_memory a"
  shows "\<exists>old m'. memory_insert m a v = Some (old, m') \<and> memory_inv m' \<and>
    memory_abs m' = (memory_abs m)(memory_key a \<mapsto> v)"
  using memory_insert_abs [OF assms] by blast

lemma memory_insert_old:
  "memory_insert m a v = Some (old, m') \<Longrightarrow> memory_inv m \<Longrightarrow> in_memory a \<Longrightarrow> old = memory_abs m (memory_key a)"
  using memory_insert_abs [of m a v] by auto

lemma memory_default_inv: "memory_inv memory_default"
  by (simp add: memory_inv_def memory_default_def regs.inv_empty)

lemma memory_default_abs: "memory_abs memory_default = Map.empty"
  by (auto simp: memory_default_def memory_abs_def regs.abs_empty split: sum.splits)

lemma memory_remove_abs:
  assumes "memory_inv m" "in_memory a"
  shows "\<exists>m'. memory_remove m a = Some (memory_abs m (memory_key a), m') \<and> memory_inv m' \<and>
    memory_abs m' = (memory_abs m)(memory_key a := None)"
proof (cases "is_register a")
  case True
  with regs.rem_abs [of "mem_registers m" a] assms show ?thesis
    by (auto simp: memory_remove_def memory_inv_def memory_key_def memory_abs_def fun_eq_iff
        is_register_def split: sum.splits)
next
  case False
  with paged.rem_abs [of "mem_page_table m" a] assms show ?thesis
    by (auto simp: memory_remove_def memory_inv_def memory_key_def memory_abs_def fun_eq_iff
        is_register_def split: sum.splits)
qed

lemma memory_get_abs:
  "memory_inv m \<Longrightarrow> in_memory a \<Longrightarrow> memory_get m a = Some (memory_abs m (memory_key a))"
  by (auto simp: memory_get_def memory_inv_def memory_key_def memory_abs_def regs.get_abs
      paged.get_abs is_register_def)

interpretation memory: removable_store memory_inv memory_key in_memory memory_abs memory_default
  memory_get memory_insert memory_remove
  by unfold_locales
    (auto simp: memory_get_abs memory_remove_abs memory_default_inv memory_default_abs
      dest: memory_insert_old intro: memory_insert_ex)

subsection \<open>Properties\<close>

text \<open>(C11) The paged memory is a map from the words of the address space to values. On every memory that
  satisfies the invariant, whether or not the page of the address has been allocated, an insertion and a
  removal succeed and return the value that a lookup returned before; afterwards a lookup returns the new
  value, or nothing, at that word and what it returned before everywhere else. Both keep the invariant
  that the pages in the table are those the index names, which the new memory satisfies; the new memory
  holds nothing. So on the addresses of the memory no lookup, insertion or removal panics.\<close>

theorem paged_memory_is_map:
  assumes "paged_inv m" "in_memory a" "in_memory b"
  shows "\<exists>old m' m''. paged_get m a = Some old \<and>
    paged_insert m a v = Some (old, m') \<and> paged_inv m' \<and>
    paged_get m' b = (if word_index b = word_index a then Some (Some v) else paged_get m b) \<and>
    paged_remove m a = Some (old, m'') \<and> paged_inv m'' \<and>
    paged_get m'' b = (if word_index b = word_index a then Some None else paged_get m b) \<and>
    paged_inv (new_preallocated :: 'v PagedMemory) \<and> paged_get (new_preallocated :: 'v PagedMemory) a = Some None"
proof -
  obtain m' where m': "paged_insert m a v = Some (paged_abs m (word_index a), m')" "paged_inv m'"
    using paged_insert_abs [OF assms(1,2)] by blast
  obtain m'' where m'': "paged_remove m a = Some (paged_abs m (word_index a), m'')" "paged_inv m''"
    using paged_remove_abs [OF assms(1,2)] by blast
  show ?thesis
    using m' m'' paged_get_abs [OF assms(2,1)] paged.get_after_ins [OF assms m'(1)]
      paged.get_after_rem [OF assms m''(1)]
    by (simp add: paged_get_abs [OF assms(2)])
qed

theorem paged_memory_is_map_witness:
  "\<exists>m' m'' m3. paged_insert new_preallocated 0x10 (7 :: u64) = Some (None, m') \<and>
     paged_get m' 0x17 = Some (Some 7) \<and>
     paged_remove (new_preallocated :: u64 PagedMemory) 0x10 = Some (None, m'') \<and> paged_get m'' 0x17 = Some None \<and>
     paged_remove m' 0x10 = Some (Some 7, m3) \<and> paged_get m3 0x17 = Some None"
proof -
  have a: "in_memory 0x10" "in_memory 0x17" "word_index 0x17 = word_index 0x10"
    "paged_get (new_preallocated :: u64 PagedMemory) 0x10 = Some None"
    by (simp_all add: in_memory_def word_index_def paged_get_abs)
  from a paged_memory_is_map [of "new_preallocated :: u64 PagedMemory" "0x10" "0x17" 7] obtain m' m'' where
    m: "paged_insert new_preallocated 0x10 (7 :: u64) = Some (None, m')" "paged_inv m'" "paged_get m' 0x17 = Some (Some 7)"
      "paged_remove (new_preallocated :: u64 PagedMemory) 0x10 = Some (None, m'')" "paged_get m'' 0x17 = Some None"
    by auto
  have "paged_get m' 0x10 = Some (Some 7)"
    using m(2,3) a by (simp add: paged_get_abs)
  with paged_memory_is_map [OF m(2) a(1,2), of 7] a(3) m show ?thesis
    by auto
qed

text \<open>(C12) Building the register file and paged memory of an executor from a list of addresses and values
  succeeds for all addresses of the memory, and a lookup then returns the last value listed for the
  word, or nothing.\<close>

theorem memory_from_iter_lookup:
  assumes "\<forall>kv \<in> set kvs. in_memory (fst kv)" "in_memory a"
  shows "\<exists>m. memory_from_iter kvs = Some m \<and> memory_inv m \<and>
    memory_get m a = Some (map_of (rev (map (apfst memory_key) kvs)) (memory_key a))"
  by (rule memory.from_iter_get [OF assms]) (simp add: memory_from_iter_def)

theorem memory_from_iter_lookup_witness:
  "\<exists>m. memory_from_iter [(5, 1 :: u64), (0x40, 2), (0x40, 3)] = Some m \<and>
     memory_get m 0x40 = Some (Some 3)"
proof -
  have "\<forall>kv \<in> set [(5, 1 :: u64), (0x40, 2), (0x40, 3)]. in_memory (fst kv)" "in_memory 0x40"
    by (simp_all add: in_memory_def)
  from memory_from_iter_lookup [OF this] show ?thesis
    by auto
qed

end
