(* ===== verification/Cow_Memory.thy ===== *)
theory Cow_Memory
  imports Machine Paged_Memory
begin

text \<open>
  The memory of the portable minimal executor (\<open>minimal/arch/portable/cow.rs\<close>).
  \<open>MaybeCowMemory\<close> is a paged memory that can be switched to copy-on-write mode and back;
  \<open>LimitedMemory\<close> adds the entry limit and the error that it raises, after which reads and writes
  go to a dummy value; \<open>MaybeCowPageProt\<close> is the same switch for the page permissions.

  The lemmas show that \<open>MaybeCowMemory\<close> meets the contract of \<open>Paged_Memory\<close>, that the limiter counts
  the entries exactly, and that whatever happens in copy-on-write mode is undone by \<open>owned\<close>.
\<close>

subsection \<open>Copy-on-write memory\<close>

datatype 't MaybeCowMemory =
    Cow (cow_copy: "'t PagedMemory") (cow_original: "'t PagedMemory")
  | Owned (owned_memory: "'t PagedMemory")

definition cow_new_owned :: "'t MaybeCowMemory" where
  "cow_new_owned = Owned new_preallocated"

definition new_cow :: "'t PagedMemory \<Rightarrow> 't MaybeCowMemory" where
  "new_cow original = Cow new_preallocated original"

primrec cow_copy_on_write :: "'t MaybeCowMemory \<Rightarrow> 't MaybeCowMemory" where
  "cow_copy_on_write (Cow copy original) = Cow copy original"
| "cow_copy_on_write (Owned memory) = new_cow memory"

primrec cow_owned :: "'t MaybeCowMemory \<Rightarrow> 't MaybeCowMemory" where
  "cow_owned (Cow copy original) = Owned original"
| "cow_owned (Owned memory) = Owned memory"

definition cow_get :: "'t MaybeCowMemory \<Rightarrow> u64 \<Rightarrow> 't option option" where
  "cow_get m addr = do {
     assert_that (addr mod 8 = 0);
     (case m of
       Cow copy original \<Rightarrow> do {
         v \<leftarrow> paged_get copy addr;
         (case v of Some x \<Rightarrow> Some (Some x) | None \<Rightarrow> paged_get original addr)
       }
     | Owned memory \<Rightarrow> paged_get memory addr)
   }"

primrec cow_keys :: "'t MaybeCowMemory \<Rightarrow> u64 list option" where
  "cow_keys (Cow copy original) = None"
| "cow_keys (Owned memory) = paged_keys memory"

text \<open>\<open>entry\<close> first copies the value of the original; the flag says whether it did.\<close>

definition cow_entry :: "'t MaybeCowMemory \<Rightarrow> u64 \<Rightarrow> ('t Entry \<times> bool \<times> 't MaybeCowMemory) option" where
  "cow_entry m addr = do {
     assert_that (addr mod 8 = 0);
     (m1, duplicated) \<leftarrow> (case m of
         Cow copy original \<Rightarrow> do {
           (e, copy1) \<leftarrow> paged_entry copy addr;
           (case entry_content e of
             None \<Rightarrow> do {
               ov \<leftarrow> paged_get original addr;
               (case ov of
                 Some v \<Rightarrow> Some (Cow (entry_set copy1 e v) original, True)
               | None \<Rightarrow> Some (Cow copy1 original, False))
             }
           | Some _ \<Rightarrow> Some (Cow copy1 original, False))
         }
       | Owned memory \<Rightarrow> Some (Owned memory, False));
     (case m1 of
       Cow copy original \<Rightarrow> do {
         (e, copy1) \<leftarrow> paged_entry copy addr;
         Some (e, duplicated, Cow copy1 original)
       }
     | Owned memory \<Rightarrow> do {
         (e, memory1) \<leftarrow> paged_entry memory addr;
         Some (e, duplicated, Owned memory1)
       })
   }"

definition cow_insert :: "'t MaybeCowMemory \<Rightarrow> u64 \<Rightarrow> 't \<Rightarrow> ('t option \<times> 't MaybeCowMemory) option" where
  "cow_insert m addr v = do {
     assert_that (addr mod 8 = 0);
     (case m of
       Cow copy original \<Rightarrow> do {
         (old, copy1) \<leftarrow> paged_insert copy addr v;
         Some (old, Cow copy1 original)
       }
     | Owned memory \<Rightarrow> do {
         (old, memory1) \<leftarrow> paged_insert memory addr v;
         Some (old, Owned memory1)
       })
   }"

text \<open>Writing through a reference obtained from \<open>entry\<close>.\<close>

primrec cow_entry_set :: "'t MaybeCowMemory \<Rightarrow> 't Entry \<Rightarrow> 't \<Rightarrow> 't MaybeCowMemory" where
  "cow_entry_set (Cow copy original) e v = Cow (entry_set copy e v) original"
| "cow_entry_set (Owned memory) e v = Owned (entry_set memory e v)"

subsection \<open>The entry limit\<close>

datatype Limiter = NoLimit | Limit (lim_current: u64) (lim_limit: u64)

definition new_limiter :: "u64 option \<Rightarrow> Limiter" where
  "new_limiter memory_limit = (case memory_limit of
      Some l \<Rightarrow> Limit 0 (l div 8)
    | None \<Rightarrow> NoLimit)"

text \<open>The limiter is updated also when the result is an error.\<close>

primrec increase :: "Limiter \<Rightarrow> ExecutionError option \<times> Limiter" where
  "increase NoLimit = (None, NoLimit)"
| "increase (Limit current limit) =
    (if current + 1 > limit then Some TooMuchMemory else None, Limit (current + 1) limit)"

primrec limiter_check_ptr :: "Limiter \<Rightarrow> u64 \<Rightarrow> bool \<Rightarrow> ExecutionError option" where
  "limiter_check_ptr NoLimit addr write = None"
| "limiter_check_ptr (Limit current limit) addr write =
    (if addr > push_bit MAX_LOG_ADDR 1 - 8
     then Some (InvalidMemoryAccess (if write then SD else LD) addr) else None)"

record LimitedMemory =
  lm_memory :: "MemValue MaybeCowMemory"
  limiter :: Limiter
  before_cow :: "Limiter option"
  last_error :: "ExecutionError option"
  dummy_value :: MemValue

text \<open>The function \<open>c\<close>: the first error is kept.\<close>

definition record_error :: "ExecutionError option \<Rightarrow> LimitedMemory \<Rightarrow> LimitedMemory" where
  "record_error result m = (if last_error m = None then m\<lparr>last_error := result\<rparr> else m)"

definition limited_new_owned :: "u64 option \<Rightarrow> LimitedMemory" where
  "limited_new_owned memory_limit =
    \<lparr>lm_memory = cow_new_owned, limiter = new_limiter memory_limit, before_cow = None,
     last_error = None, dummy_value = default_MemValue\<rparr>"

definition limited_copy_on_write :: "LimitedMemory \<Rightarrow> LimitedMemory" where
  "limited_copy_on_write m =
    m\<lparr>lm_memory := cow_copy_on_write (lm_memory m), before_cow := Some (limiter m)\<rparr>"

definition limited_owned :: "LimitedMemory \<Rightarrow> LimitedMemory option" where
  "limited_owned m = do {
     l \<leftarrow> before_cow m;
     Some (m\<lparr>lm_memory := cow_owned (lm_memory m), limiter := l, before_cow := None\<rparr>)
   }"

definition has_last_error :: "LimitedMemory \<Rightarrow> bool" where
  "has_last_error m \<longleftrightarrow> last_error m \<noteq> None"

definition limited_check_ptr :: "LimitedMemory \<Rightarrow> u64 \<Rightarrow> bool \<Rightarrow> LimitedMemory" where
  "limited_check_ptr m addr write = record_error (limiter_check_ptr (limiter m) addr write) m"

text \<open>\<open>get\<close> borrows the memory immutably but may set the error, which is a \<open>RefCell\<close>.\<close>

definition limited_get :: "LimitedMemory \<Rightarrow> u64 \<Rightarrow> (MemValue option \<times> LimitedMemory) option" where
  "limited_get m addr = (
     let m1 = limited_check_ptr m addr False
     in if has_last_error m1 then Some (Some (dummy_value m1), m1)
        else do { v \<leftarrow> cow_get (lm_memory m1) addr; Some (v, m1) })"

definition get_raw :: "LimitedMemory \<Rightarrow> u64 \<Rightarrow> MemValue option option" where
  "get_raw m addr = cow_get (lm_memory m) addr"

definition limited_insert :: "LimitedMemory \<Rightarrow> u64 \<Rightarrow> MemValue \<Rightarrow> LimitedMemory option" where
  "limited_insert m addr v = (
     let m1 = limited_check_ptr m addr True
     in if has_last_error m1 then Some m1
        else do {
          (previous_value, mem) \<leftarrow> cow_insert (lm_memory m1) addr v;
          let m2 = m1\<lparr>lm_memory := mem\<rparr>;
          Some (if previous_value = None
                then record_error (fst (increase (limiter m2))) (m2\<lparr>limiter := snd (increase (limiter m2))\<rparr>)
                else m2)
        })"

text \<open>\<open>get_mut\<close> returns a mutable reference. Here the assignment made through it is the argument
  \<open>f\<close>, and the result is the value the reference pointed to.\<close>

definition limited_get_mut ::
    "LimitedMemory \<Rightarrow> u64 \<Rightarrow> (MemValue \<Rightarrow> MemValue) \<Rightarrow> (MemValue \<times> LimitedMemory) option" where
  "limited_get_mut m addr f = (
     let m1 = limited_check_ptr m addr True
     in if has_last_error m1
        then Some (dummy_value m1, m1\<lparr>dummy_value := f (dummy_value m1)\<rparr>)
        else do {
          (e, duplicated, mem) \<leftarrow> cow_entry (lm_memory m1) addr;
          let m2 = (if duplicated \<or> entry_content e = None
                    then record_error (fst (increase (limiter m1))) (m1\<lparr>limiter := snd (increase (limiter m1))\<rparr>)
                    else m1);
          let v = (case entry_content e of None \<Rightarrow> default_MemValue | Some v \<Rightarrow> v);
          Some (v, m2\<lparr>lm_memory := cow_entry_set mem e (f v)\<rparr>)
        })"

subsection \<open>Page permissions\<close>

datatype MaybeCowPageProt =
    CowProt (prot_copy: "u64 \<Rightarrow> PageProtValue option") (prot_original: "u64 \<Rightarrow> PageProtValue option")
  | OwnedProt (owned_prot: "u64 \<Rightarrow> PageProtValue option")

primrec prot_copy_on_write :: "MaybeCowPageProt \<Rightarrow> MaybeCowPageProt" where
  "prot_copy_on_write (CowProt copy original) = CowProt copy original"
| "prot_copy_on_write (OwnedProt prots) = CowProt Map.empty prots"

primrec prot_owned :: "MaybeCowPageProt \<Rightarrow> MaybeCowPageProt" where
  "prot_owned (CowProt copy original) = OwnedProt original"
| "prot_owned (OwnedProt prots) = OwnedProt prots"

text \<open>\<open>entry\<close>: the content of the returned entry, and the map after the copy.\<close>

primrec prot_entry :: "MaybeCowPageProt \<Rightarrow> u64 \<Rightarrow> PageProtValue option \<times> MaybeCowPageProt" where
  "prot_entry (CowProt copy original) i = (
     let copy1 = (case copy i of
           None \<Rightarrow> (case original i of Some v \<Rightarrow> copy(i \<mapsto> v) | None \<Rightarrow> copy)
         | Some _ \<Rightarrow> copy)
     in (copy1 i, CowProt copy1 original))"
| "prot_entry (OwnedProt prots) i = (prots i, OwnedProt prots)"

primrec prot_get :: "MaybeCowPageProt \<Rightarrow> u64 \<Rightarrow> PageProtValue option" where
  "prot_get (CowProt copy original) i =
    (case copy i of Some v \<Rightarrow> Some v | None \<Rightarrow> original i)"
| "prot_get (OwnedProt prots) i = prots i"

primrec prot_insert :: "MaybeCowPageProt \<Rightarrow> u64 \<Rightarrow> PageProtValue \<Rightarrow> PageProtValue option \<times> MaybeCowPageProt" where
  "prot_insert (CowProt copy original) i v = (copy i, CowProt (copy(i \<mapsto> v)) original)"
| "prot_insert (OwnedProt prots) i v = (prots i, OwnedProt (prots(i \<mapsto> v)))"

subsection \<open>Layers, invariant and contents\<close>

text \<open>The layer that is written, and the layer under it in copy-on-write mode.\<close>

primrec cow_top :: "'t MaybeCowMemory \<Rightarrow> 't PagedMemory" where
  "cow_top (Cow copy original) = copy"
| "cow_top (Owned memory) = memory"

primrec cow_bottom :: "'t MaybeCowMemory \<Rightarrow> 't PagedMemory option" where
  "cow_bottom (Cow copy original) = Some original"
| "cow_bottom (Owned memory) = None"

definition bottom_abs :: "'t MaybeCowMemory \<Rightarrow> nat \<Rightarrow> 't option" where
  "bottom_abs m = (case cow_bottom m of None \<Rightarrow> Map.empty | Some p \<Rightarrow> paged_abs p)"

definition cow_inv :: "'t MaybeCowMemory \<Rightarrow> bool" where
  "cow_inv m \<longleftrightarrow> paged_inv (cow_top m) \<and> (\<forall>p. cow_bottom m = Some p \<longrightarrow> paged_inv p)"

definition cow_abs :: "'t MaybeCowMemory \<Rightarrow> nat \<Rightarrow> 't option" where
  "cow_abs m = bottom_abs m ++ paged_abs (cow_top m)"

definition word_addr :: "u64 \<Rightarrow> bool" where
  "word_addr a \<longleftrightarrow> a mod 8 = 0 \<and> in_memory a"

lemma cow_inv_simps [simp]:
  "cow_inv (Cow c p) \<longleftrightarrow> paged_inv c \<and> paged_inv p"
  "cow_inv (Owned p) \<longleftrightarrow> paged_inv p"
  by (simp_all add: cow_inv_def)

lemma cow_abs_simps [simp]:
  "cow_abs (Cow c p) = paged_abs p ++ paged_abs c"
  "cow_abs (Owned p) = paged_abs p"
  by (simp_all add: cow_abs_def bottom_abs_def)

lemma cow_get_abs: "cow_inv m \<Longrightarrow> word_addr a \<Longrightarrow> cow_get m a = Some (cow_abs m (word_index a))"
  by (cases m) (auto simp: cow_get_def word_addr_def paged_get_abs map_add_def split: option.splits)

text \<open>An insertion writes the top layer and returns what was there.\<close>

lemma cow_insert_layers:
  assumes "cow_inv m" "word_addr a"
  obtains m' where "cow_insert m a v = Some (paged_abs (cow_top m) (word_index a), m')"
    "cow_inv m'" "cow_bottom m' = cow_bottom m"
    "paged_abs (cow_top m') = (paged_abs (cow_top m))(word_index a \<mapsto> v)"
  using assms paged_insert_abs [of "cow_top m" a v]
  by (cases m) (auto simp: cow_insert_def word_addr_def)

lemma cow_insert_ex:
  assumes "cow_inv m" "word_addr a"
  shows "\<exists>old m'. cow_insert m a v = Some (old, m') \<and> cow_inv m' \<and>
    cow_abs m' = (cow_abs m)(word_index a \<mapsto> v)"
  by (rule cow_insert_layers [OF assms, of v]) (auto simp: cow_abs_def bottom_abs_def)

interpretation cow: word_store cow_inv word_index word_addr cow_abs cow_new_owned cow_get cow_insert
  by unfold_locales
    (auto simp: cow_get_abs intro: cow_insert_ex, simp_all add: cow_new_owned_def)

text \<open>Taking an entry and writing through it also writes the top layer. The entry shows the value of
  either layer, and the pair of results tells whether the top layer had one.\<close>

lemma cow_entry_layers:
  assumes "cow_inv m" "word_addr a"
  obtains e dup m1 where "cow_entry m a = Some (e, dup, m1)"
    "entry_content e = cow_abs m (word_index a)"
    "dup \<or> entry_content e = None \<longleftrightarrow> paged_abs (cow_top m) (word_index a) = None"
    "\<forall>v. cow_inv (cow_entry_set m1 e v)"
    "\<forall>v. cow_bottom (cow_entry_set m1 e v) = cow_bottom m"
    "\<forall>v. paged_abs (cow_top (cow_entry_set m1 e v)) = (paged_abs (cow_top m))(word_index a \<mapsto> v)"
proof (cases m)
  case (Owned p)
  with assms paged_entry_abs [of p a] obtain e p1 where
    "paged_entry p a = Some (e, p1)" "entry_content e = paged_abs p (word_index a)"
    "\<And>v. paged_inv (entry_set p1 e v)"
    "\<And>v. paged_abs (entry_set p1 e v) = (paged_abs p)(word_index a \<mapsto> v)"
    by (auto simp: word_addr_def)
  with that [of e False "Owned p1"] assms(2) Owned show thesis
    by (simp add: cow_entry_def word_addr_def)
next
  case (Cow c p)
  let ?k = "word_index a"
  have a: "a mod 8 = 0" "in_memory a" and c: "paged_inv c" and p: "paged_inv p"
    using assms Cow by (simp_all add: word_addr_def)
  obtain e1 c1 where 1: "paged_entry c a = Some (e1, c1)" "paged_inv c1" "paged_abs c1 = paged_abs c"
    "entry_content e1 = paged_abs c ?k" "\<And>v. paged_inv (entry_set c1 e1 v)"
    "\<And>v. paged_abs (entry_set c1 e1 v) = (paged_abs c)(?k \<mapsto> v)"
    using paged_entry_abs [OF c a(2)] by auto
  define dup where "dup \<longleftrightarrow> paged_abs c ?k = None \<and> paged_abs p ?k \<noteq> None"
  define c2 where "c2 = (if dup then entry_set c1 e1 (the (paged_abs p ?k)) else c1)"
  have c2: "paged_inv c2" "(paged_abs c2)(?k \<mapsto> v) = (paged_abs c)(?k \<mapsto> v)"
    "paged_abs c2 ?k = (paged_abs p ++ paged_abs c) ?k" for v
    using 1 by (auto simp: c2_def dup_def map_add_def split: option.splits)
  obtain e3 c3 where 3: "paged_entry c2 a = Some (e3, c3)" "entry_content e3 = paged_abs c2 ?k"
    "\<And>v. paged_inv (entry_set c3 e3 v)" "\<And>v. paged_abs (entry_set c3 e3 v) = (paged_abs c2)(?k \<mapsto> v)"
    using paged_entry_abs [OF c2(1) a(2)] by auto
  have "cow_entry m a = Some (e3, dup, Cow c3 p)"
    using 1(1,4) 3(1) a paged_get_abs [OF a(2) p]
    by (cases "paged_abs c ?k"; cases "paged_abs p ?k") (simp_all add: cow_entry_def Cow c2_def dup_def)
  with that [of e3 dup "Cow c3 p"] 3 c2 p Cow show thesis
    by (auto simp: dup_def map_add_def split: option.splits)
qed

subsection \<open>The limiter counts the entries\<close>

definition entries :: "'t MaybeCowMemory \<Rightarrow> nat" where
  "entries m = card (dom (bottom_abs m)) + card (dom (paged_abs (cow_top m)))"

text \<open>What holds of a limiter that has counted \<open>n\<close> entries.\<close>

primrec counted :: "Limiter \<Rightarrow> nat \<Rightarrow> bool" where
  "counted NoLimit n \<longleftrightarrow> True"
| "counted (Limit current limit) n \<longleftrightarrow> unat current = n"

primrec within_limit :: "Limiter \<Rightarrow> bool" where
  "within_limit NoLimit \<longleftrightarrow> True"
| "within_limit (Limit current limit) \<longleftrightarrow> current \<le> limit"

definition limited_inv :: "LimitedMemory \<Rightarrow> bool" where
  "limited_inv m \<longleftrightarrow> cow_inv (lm_memory m) \<and> counted (limiter m) (entries (lm_memory m)) \<and>
    (last_error m = None \<longrightarrow> within_limit (limiter m)) \<and>
    (\<forall>p. cow_bottom (lm_memory m) = Some p \<longrightarrow> (\<exists>l. before_cow m = Some l \<and>
       counted l (card (dom (paged_abs p))) \<and> (last_error m = None \<longrightarrow> within_limit l)))"

lemma entries_bound: "entries m \<le> 2 ^ 38"
proof -
  have "card (dom (bottom_abs m)) \<le> 2 ^ 37"
    using card_dom_paged_abs by (cases m) (simp_all add: bottom_abs_def)
  with card_dom_paged_abs [of "cow_top m"] show ?thesis
    by (simp add: entries_def)
qed

lemma counted_increase:
  assumes "counted l n" "n \<le> 2 ^ 38"
  shows "counted (snd (increase l)) (Suc n)" "fst (increase l) = None \<longleftrightarrow> within_limit (snd (increase l))"
proof -
  have "unat (w + 1) = Suc (unat w)" if "unat w \<le> 2 ^ 38" for w :: u64
    using that by (subst unat_word_ariths, subst mod_less) simp_all
  then show "counted (snd (increase l)) (Suc n)"
    using assms by (cases l) simp_all
  show "fst (increase l) = None \<longleftrightarrow> within_limit (snd (increase l))"
    by (cases l) (auto simp: not_less)
qed

lemma entries_upd:
  assumes "cow_bottom m' = cow_bottom m" "paged_abs (cow_top m') = (paged_abs (cow_top m))(k \<mapsto> v)"
  shows "entries m' = (if paged_abs (cow_top m) k = None then Suc (entries m) else entries m)"
  using assms by (auto simp: entries_def bottom_abs_def card_insert_if domIff)

text \<open>The effect of a write on the limiter and the error.\<close>

definition count_write :: "bool \<Rightarrow> LimitedMemory \<Rightarrow> LimitedMemory" where
  "count_write new m =
    (if new then record_error (fst (increase (limiter m))) (m\<lparr>limiter := snd (increase (limiter m))\<rparr>)
     else m)"

lemma count_write_simps [simp]:
  "lm_memory (count_write new m) = lm_memory m" "before_cow (count_write new m) = before_cow m"
  by (simp_all add: count_write_def record_error_def)

lemma limited_inv_write:
  assumes inv: "limited_inv m" and "last_error m = None"
    and m': "cow_inv m'" "cow_bottom m' = cow_bottom (lm_memory m)"
      "paged_abs (cow_top m') = (paged_abs (cow_top (lm_memory m)))(k \<mapsto> v)"
    and new: "new \<longleftrightarrow> paged_abs (cow_top (lm_memory m)) k = None"
  shows "limited_inv ((count_write new m)\<lparr>lm_memory := m'\<rparr>)"
proof -
  have "counted (limiter m) (entries (lm_memory m))"
    using inv by (simp add: limited_inv_def)
  note c = counted_increase [OF this entries_bound] and e = entries_upd [OF m'(2,3)]
  show ?thesis
    using assms c e by (auto simp: limited_inv_def count_write_def record_error_def)
qed

text \<open>The bound itself never changes, and the error is set exactly when it is passed.\<close>

primrec limit_of :: "Limiter \<Rightarrow> u64 option" where
  "limit_of NoLimit = None"
| "limit_of (Limit current limit) = Some limit"

definition limit_step :: "LimitedMemory \<Rightarrow> LimitedMemory \<Rightarrow> bool" where
  "limit_step m m' \<longleftrightarrow> limit_of (limiter m') = limit_of (limiter m) \<and>
    last_error m' = (if within_limit (limiter m') then None else Some TooMuchMemory)"

lemma limit_step_write:
  assumes "limited_inv m" "last_error m = None"
  shows "limit_step m ((count_write new m)\<lparr>lm_memory := m'\<rparr>)"
  using assms by (cases "limiter m")
    (auto simp: limit_step_def count_write_def record_error_def limited_inv_def)

subsection \<open>Sequences of accesses\<close>

text \<open>The accesses that the executor makes between two switches of mode.\<close>

datatype mem_op = M_get u64 | M_insert u64 MemValue | M_get_mut u64 "MemValue \<Rightarrow> MemValue"

primrec mem_op_addr :: "mem_op \<Rightarrow> u64" where
  "mem_op_addr (M_get a) = a"
| "mem_op_addr (M_insert a v) = a"
| "mem_op_addr (M_get_mut a f) = a"

primrec mem_op_exec :: "mem_op \<Rightarrow> LimitedMemory \<Rightarrow> LimitedMemory option" where
  "mem_op_exec (M_get a) m = map_option snd (limited_get m a)"
| "mem_op_exec (M_insert a v) m = limited_insert m a v"
| "mem_op_exec (M_get_mut a f) m = map_option snd (limited_get_mut m a f)"

primrec mem_ops_exec :: "mem_op list \<Rightarrow> LimitedMemory \<Rightarrow> LimitedMemory option" where
  "mem_ops_exec [] m = Some m"
| "mem_ops_exec (op # ops) m = do { m' \<leftarrow> mem_op_exec op m; mem_ops_exec ops m' }"

lemma record_error_simps [simp]:
  "lm_memory (record_error r m) = lm_memory m" "limiter (record_error r m) = limiter m"
  "before_cow (record_error r m) = before_cow m" "dummy_value (record_error r m) = dummy_value m"
  by (simp_all add: record_error_def)

lemma limited_check_ptr_simps [simp]:
  "lm_memory (limited_check_ptr m a w) = lm_memory m" "limiter (limited_check_ptr m a w) = limiter m"
  "before_cow (limited_check_ptr m a w) = before_cow m"
  by (simp_all add: limited_check_ptr_def)

lemma limited_inv_check_ptr: "limited_inv m \<Longrightarrow> limited_inv (limited_check_ptr m a w)"
  by (auto simp: limited_inv_def) (auto simp: limited_check_ptr_def record_error_def split: if_splits)

text \<open>With a limit, the address check makes every access that reaches the memory one in range.\<close>

lemma no_error_in_memory:
  assumes "limiter m \<noteq> NoLimit" "\<not> has_last_error (limited_check_ptr m a w)"
  shows "in_memory a"
proof -
  from assms obtain c l where "limiter m = Limit c l"
    by (cases "limiter m") auto
  with assms(2) have "a \<le> 2 ^ 40 - 8"
    by (auto simp: has_last_error_def limited_check_ptr_def record_error_def not_less split: if_splits)
  then show ?thesis
    by (simp add: in_memory_def word_le_nat_alt word_less_nat_alt)
qed

lemma limited_insert_count_write:
  "limited_insert m a v = (
     let m1 = limited_check_ptr m a True
     in if has_last_error m1 then Some m1
        else do {
          (old, mem) \<leftarrow> cow_insert (lm_memory m1) a v;
          Some ((count_write (old = None) m1)\<lparr>lm_memory := mem\<rparr>)
        })"
  by (auto simp: limited_insert_def count_write_def record_error_def Let_def split: Option.bind_split)

lemma limited_get_mut_count_write:
  "limited_get_mut m a f = (
     let m1 = limited_check_ptr m a True
     in if has_last_error m1
        then Some (dummy_value m1, m1\<lparr>dummy_value := f (dummy_value m1)\<rparr>)
        else do {
          (e, dup, mem) \<leftarrow> cow_entry (lm_memory m1) a;
          let v = (case entry_content e of None \<Rightarrow> default_MemValue | Some v \<Rightarrow> v);
          Some (v, (count_write (dup \<or> entry_content e = None) m1)\<lparr>lm_memory := cow_entry_set mem e (f v)\<rparr>)
        })"
  by (auto simp: limited_get_mut_def count_write_def Let_def split: Option.bind_split)

text \<open>The effect of the accesses when no error has occurred and the address is a word in range.\<close>

definition access_ok :: "LimitedMemory \<Rightarrow> u64 \<Rightarrow> bool" where
  "access_ok m a \<longleftrightarrow> last_error m = None \<and> word_addr a"

lemma word_addr_bound:
  assumes "word_addr a"
  shows "a \<le> 2 ^ 40 - 8"
proof -
  from assms have *: "unat a mod 8 = 0" "unat a < 2 ^ 40"
    by (simp_all add: word_addr_def in_memory_def word_less_nat_alt word_arith_nat_mod
        unat_eq_0 [symmetric] unat_of_nat take_bit_nat_eq_self)
  then obtain k where "unat a = 8 * k"
    by (metis mod_0_imp_dvd dvdE)
  with * have "unat a \<le> 2 ^ 40 - 8"
    by simp
  then show ?thesis
    by (simp add: word_le_nat_alt)
qed

lemma access_ok_check_ptr [simp]:
  assumes "access_ok m a"
  shows "limited_check_ptr m a w = m"
  using assms word_addr_bound [of a]
  by (cases "limiter m") (auto simp: access_ok_def limited_check_ptr_def record_error_def)

lemma access_ok_no_error [simp]: "access_ok m a \<Longrightarrow> \<not> has_last_error m"
  by (simp add: access_ok_def has_last_error_def)

lemma limited_get_abs:
  assumes "limited_inv m" "access_ok m a"
  shows "limited_get m a = Some (cow_abs (lm_memory m) (word_index a), m)"
proof -
  have "word_addr a" "cow_inv (lm_memory m)"
    using assms by (simp_all add: access_ok_def limited_inv_def)
  with assms show ?thesis
    by (simp add: limited_get_def cow_get_abs)
qed

lemma limited_insert_abs:
  assumes inv: "limited_inv m" and ok: "access_ok m a"
  obtains m' where "limited_insert m a v = Some m'" "limited_inv m'"
    "cow_bottom (lm_memory m') = cow_bottom (lm_memory m)" "before_cow m' = before_cow m"
    "cow_abs (lm_memory m') = (cow_abs (lm_memory m))(word_index a \<mapsto> v)"
    "limit_step m m'"
proof -
  have "cow_inv (lm_memory m)" "word_addr a" "last_error m = None"
    using inv ok by (simp_all add: limited_inv_def access_ok_def)
  then obtain mem where mem: "cow_insert (lm_memory m) a v = Some (paged_abs (cow_top (lm_memory m)) (word_index a), mem)"
    "cow_inv mem" "cow_bottom mem = cow_bottom (lm_memory m)"
    "paged_abs (cow_top mem) = (paged_abs (cow_top (lm_memory m)))(word_index a \<mapsto> v)"
    by (blast elim: cow_insert_layers)
  let ?m = "(count_write (paged_abs (cow_top (lm_memory m)) (word_index a) = None) m)\<lparr>lm_memory := mem\<rparr>"
  have "limited_insert m a v = Some ?m"
    using ok mem(1) by (simp add: limited_insert_count_write)
  with that [of ?m] limit_step_write [OF inv \<open>last_error m = None\<close>] limited_inv_write [OF inv \<open>last_error m = None\<close> mem(2-4) refl] mem show thesis
    by (simp add: cow_abs_def bottom_abs_def)
qed

lemma limited_get_mut_abs:
  assumes inv: "limited_inv m" and ok: "access_ok m a"
  defines "old \<equiv> (case cow_abs (lm_memory m) (word_index a) of None \<Rightarrow> default_MemValue | Some v \<Rightarrow> v)"
  obtains m' where "limited_get_mut m a f = Some (old, m')" "limited_inv m'"
    "cow_bottom (lm_memory m') = cow_bottom (lm_memory m)" "before_cow m' = before_cow m"
    "cow_abs (lm_memory m') = (cow_abs (lm_memory m))(word_index a \<mapsto> f old)"
    "limit_step m m'"
proof -
  have *: "cow_inv (lm_memory m)" "word_addr a" "last_error m = None"
    using inv ok by (simp_all add: limited_inv_def access_ok_def)
  from *(1,2) obtain e dup m1 where e: "cow_entry (lm_memory m) a = Some (e, dup, m1)"
    "entry_content e = cow_abs (lm_memory m) (word_index a)"
    "dup \<or> entry_content e = None \<longleftrightarrow> paged_abs (cow_top (lm_memory m)) (word_index a) = None"
    "\<forall>v. cow_inv (cow_entry_set m1 e v)"
    "\<forall>v. cow_bottom (cow_entry_set m1 e v) = cow_bottom (lm_memory m)"
    "\<forall>v. paged_abs (cow_top (cow_entry_set m1 e v)) = (paged_abs (cow_top (lm_memory m)))(word_index a \<mapsto> v)"
    by (rule cow_entry_layers) (rule that)
  let ?m = "(count_write (dup \<or> entry_content e = None) m)\<lparr>lm_memory := cow_entry_set m1 e (f old)\<rparr>"
  have "limited_get_mut m a f = Some (old, ?m)"
    using ok e(1,2) by (simp add: limited_get_mut_count_write old_def Let_def)
  with that [of ?m] limit_step_write [OF inv *(3)] limited_inv_write [OF inv *(3) e(4-6) [rule_format] e(3)] e(5,6) show thesis
    by (simp add: cow_abs_def bottom_abs_def)
qed

text \<open>The mode switch leaves everything below the top layer alone, whatever the accesses do.\<close>

lemma mem_op_exec_bottom:
  assumes "mem_op_exec op m = Some m'"
  shows "cow_bottom (lm_memory m') = cow_bottom (lm_memory m) \<and> before_cow m' = before_cow m"
proof -
  have ins: "cow_bottom mem' = cow_bottom mem" if "cow_insert mem a v = Some (old, mem')"
    for mem mem' :: "MemValue MaybeCowMemory" and a v old
    using that by (cases mem) (auto simp: cow_insert_def split: Option.bind_splits)
  have ent: "cow_bottom (cow_entry_set mem' e v) = cow_bottom mem" if "cow_entry mem a = Some (e, dup, mem')"
    for mem mem' :: "MemValue MaybeCowMemory" and a v e dup
    using that by (cases mem) (auto simp: cow_entry_def split: Option.bind_splits option.splits)
  show ?thesis
    using assms
    by (cases op)
      (auto simp: limited_get_def limited_insert_count_write limited_get_mut_count_write Let_def
        count_write_def split: if_splits Option.bind_splits dest: ins ent)
qed

lemma mem_ops_exec_bottom:
  "mem_ops_exec ops m = Some m' \<Longrightarrow>
    cow_bottom (lm_memory m') = cow_bottom (lm_memory m) \<and> before_cow m' = before_cow m"
proof (induction ops arbitrary: m)
  case Nil
  then show ?case by simp
next
  case (Cons op ops)
  then obtain m1 where m1: "mem_op_exec op m = Some m1" "mem_ops_exec ops m1 = Some m'"
    by (auto split: Option.bind_splits)
  from Cons.IH [OF m1(2)] mem_op_exec_bottom [OF m1(1)] show ?case
    by simp
qed

lemma mem_op_exec_inv:
  assumes "limited_inv m" "word_addr (mem_op_addr op)"
  obtains m' where "mem_op_exec op m = Some m'" "limited_inv m'"
proof (cases "last_error m")
  case None
  then have ok: "access_ok m (mem_op_addr op)"
    using assms(2) by (simp add: access_ok_def)
  show thesis
  proof (cases op)
    case (M_get a)
    with ok limited_get_abs [OF assms(1)] assms(1) that show thesis by simp
  next
    case (M_insert a v)
    then have "access_ok m a"
      using ok by simp
    then show thesis
      by (rule limited_insert_abs [OF assms(1), of a v]) (rule that, simp_all add: M_insert)
  next
    case (M_get_mut a f)
    then have "access_ok m a"
      using ok by simp
    then show thesis
      by (rule limited_get_mut_abs [OF assms(1), of a f]) (rule that, simp_all add: M_get_mut)
  qed
next
  case (Some e)
  then have "limited_check_ptr m a w = m" "has_last_error m" for a w
    by (simp_all add: limited_check_ptr_def record_error_def has_last_error_def)
  with assms(1) that show thesis
    by (cases op) (auto simp: limited_get_def limited_insert_def limited_get_mut_def limited_inv_def)
qed

lemma mem_ops_exec_inv:
  "limited_inv m \<Longrightarrow> \<forall>op \<in> set ops. word_addr (mem_op_addr op) \<Longrightarrow>
    \<exists>m'. mem_ops_exec ops m = Some m' \<and> limited_inv m'"
proof (induction ops arbitrary: m)
  case Nil
  then show ?case by simp
next
  case (Cons op ops)
  then obtain m1 where "mem_op_exec op m = Some m1" "limited_inv m1"
    by (auto elim: mem_op_exec_inv)
  with Cons show ?case by simp
qed

lemma limited_inv_new: "limited_inv (limited_new_owned l)"
  by (cases l) (simp_all add: limited_inv_def limited_new_owned_def cow_new_owned_def new_limiter_def
      entries_def bottom_abs_def)

lemma limited_inv_copy_on_write:
  assumes "limited_inv m" "lm_memory m = Owned p"
  shows "limited_inv (limited_copy_on_write m)"
  using assms by (simp add: limited_inv_def limited_copy_on_write_def new_cow_def entries_def
      bottom_abs_def)

lemma limited_inv_owned:
  assumes "limited_inv m" "lm_memory m = Cow c p"
  shows "\<exists>m'. limited_owned m = Some m' \<and> limited_inv m'"
  using assms by (auto simp: limited_inv_def limited_owned_def entries_def bottom_abs_def)

text \<open>The words a sequence of accesses writes, or creates by asking for a mutable reference.\<close>

primrec written :: "mem_op \<Rightarrow> nat set" where
  "written (M_get a) = {}"
| "written (M_insert a v) = {word_index a}"
| "written (M_get_mut a f) = {word_index a}"

definition words_written :: "mem_op list \<Rightarrow> nat set" where
  "words_written ops = \<Union> (written ` set ops)"

lemma words_written_simps [simp]:
  "words_written [] = {}" "words_written (op # ops) = written op \<union> words_written ops"
  by (simp_all add: words_written_def)

lemma finite_words_written [simp]: "finite (words_written ops)"
proof -
  have "finite (written op)" for op
    by (cases op) simp_all
  then show ?thesis
    by (simp add: words_written_def)
qed

lemma mem_op_exec_step:
  assumes "limited_inv m" "last_error m = None" "word_addr (mem_op_addr op)"
  obtains m' where "mem_op_exec op m = Some m'" "limited_inv m'" "limit_step m m'"
    "cow_bottom (lm_memory m') = cow_bottom (lm_memory m)"
    "dom (cow_abs (lm_memory m')) = written op \<union> dom (cow_abs (lm_memory m))"
proof -
  have ok: "access_ok m (mem_op_addr op)"
    using assms by (simp add: access_ok_def)
  show thesis
  proof (cases op)
    case (M_get a)
    with ok limited_get_abs [OF assms(1)] have "mem_op_exec op m = Some m"
      by simp
    moreover have "limit_step m m"
      using assms by (auto simp: limit_step_def limited_inv_def)
    ultimately show thesis
      using that [of m] assms(1) M_get by simp
  next
    case (M_insert a v)
    then have "access_ok m a"
      using ok by simp
    then obtain m' where "limited_insert m a v = Some m'" "limited_inv m'" "limit_step m m'"
      "cow_bottom (lm_memory m') = cow_bottom (lm_memory m)"
      "cow_abs (lm_memory m') = (cow_abs (lm_memory m))(word_index a \<mapsto> v)"
      by (rule limited_insert_abs [OF assms(1), of a v]) (rule that)
    with that [of m'] show thesis
      by (simp add: M_insert)
  next
    case (M_get_mut a f)
    then have "access_ok m a"
      using ok by simp
    then obtain m' old where "limited_get_mut m a f = Some (old, m')" "limited_inv m'" "limit_step m m'"
      "cow_bottom (lm_memory m') = cow_bottom (lm_memory m)"
      "cow_abs (lm_memory m') = (cow_abs (lm_memory m))(word_index a \<mapsto> f old)"
      by (rule limited_get_mut_abs [OF assms(1), of a f]) (rule that)
    with that [of m'] show thesis
      by (simp add: M_get_mut)
  qed
qed

lemma mem_op_exec_error:
  assumes "last_error m = Some e"
  shows "\<exists>m'. mem_op_exec op m = Some m' \<and> last_error m' = Some e"
proof -
  from assms have "limited_check_ptr m a w = m" "has_last_error m" for a w
    by (simp_all add: limited_check_ptr_def record_error_def has_last_error_def)
  with assms show ?thesis
    by (cases op) (auto simp: limited_get_def limited_insert_def limited_get_mut_def)
qed

lemma mem_ops_exec_error:
  "last_error m = Some e \<Longrightarrow> \<exists>m'. mem_ops_exec ops m = Some m' \<and> last_error m' = Some e"
proof (induction ops arbitrary: m)
  case Nil
  then show ?case by simp
next
  case (Cons op ops)
  from mem_op_exec_error [OF Cons.prems, of op] obtain m1
    where "mem_op_exec op m = Some m1" "last_error m1 = Some e"
    by blast
  with Cons.IH show ?case by simp
qed

lemma owned_entries:
  assumes "limited_inv m" "cow_bottom (lm_memory m) = None" "limit_of (limiter m) = Some lim"
  shows "within_limit (limiter m) \<longleftrightarrow> card (dom (cow_abs (lm_memory m))) \<le> unat lim"
  using assms by (cases "limiter m")
    (auto simp: limited_inv_def entries_def cow_abs_def bottom_abs_def word_le_nat_alt)

lemma mem_ops_exec_limit:
  assumes "limited_inv m" "cow_bottom (lm_memory m) = None" "limit_of (limiter m) = Some lim"
    "last_error m = None" "\<forall>op \<in> set ops. word_addr (mem_op_addr op)"
  shows "\<exists>m'. mem_ops_exec ops m = Some m' \<and> last_error m' =
    (if card (words_written ops \<union> dom (cow_abs (lm_memory m))) \<le> unat lim then None
     else Some TooMuchMemory)"
  using assms
proof (induction ops arbitrary: m)
  case Nil
  then have "within_limit (limiter m)"
    by (simp add: limited_inv_def)
  with Nil owned_entries [of m lim] show ?case by simp
next
  case (Cons op ops)
  have "word_addr (mem_op_addr op)"
    using Cons.prems(5) by simp
  from mem_op_exec_step [OF Cons.prems(1,4) this] obtain m1 where
    m1: "mem_op_exec op m = Some m1" "limited_inv m1" "limit_step m m1"
    "cow_bottom (lm_memory m1) = None"
    "dom (cow_abs (lm_memory m1)) = written op \<union> dom (cow_abs (lm_memory m))"
    using Cons.prems(2) by metis
  have lim: "limit_of (limiter m1) = Some lim"
    using m1(3) Cons.prems(3) by (simp add: limit_step_def)
  have eq: "words_written (op # ops) \<union> dom (cow_abs (lm_memory m)) =
      words_written ops \<union> dom (cow_abs (lm_memory m1))"
    using m1(5) by auto
  show ?case
  proof (cases "within_limit (limiter m1)")
    case True
    then have "last_error m1 = None"
      using m1(3) by (simp add: limit_step_def)
    with Cons.IH [OF m1(2,4) lim] Cons.prems(5) m1(1) show ?thesis
      unfolding eq by simp
  next
    case False
    then have e: "last_error m1 = Some TooMuchMemory"
      using m1(3) by (simp add: limit_step_def)
    have "finite (dom (cow_abs (lm_memory m1)))"
      using m1(4) by (simp add: cow_abs_def bottom_abs_def)
    then have "card (dom (cow_abs (lm_memory m1))) \<le> card (words_written ops \<union> dom (cow_abs (lm_memory m1)))"
      by (intro card_mono) auto
    with False owned_entries [OF m1(2,4) lim] mem_ops_exec_error [OF e, of ops] m1(1) show ?thesis
      unfolding eq by simp
  qed
qed

subsection \<open>Properties\<close>

text \<open>(C13) The memory limit is exact: starting from an empty memory with a limit of \<open>l\<close> bytes, a
  sequence of accesses to words of the address space ends without an error if and only if it writes
  at most \<open>l / 8\<close> distinct words, however often and in whatever order it writes them; otherwise the
  recorded error is \<open>TooMuchMemory\<close>. No access panics.\<close>

theorem memory_limit_exact:
  assumes "\<forall>op \<in> set ops. word_addr (mem_op_addr op)"
  shows "\<exists>m. mem_ops_exec ops (limited_new_owned (Some l)) = Some m \<and>
    last_error m = (if card (words_written ops) \<le> unat l div 8 then None else Some TooMuchMemory)"
proof -
  have new: "cow_bottom (lm_memory (limited_new_owned (Some l))) = None"
    "limit_of (limiter (limited_new_owned (Some l))) = Some (l div 8)"
    "last_error (limited_new_owned (Some l)) = None" "dom (cow_abs (lm_memory (limited_new_owned (Some l)))) = {}"
    by (simp_all add: limited_new_owned_def cow_new_owned_def new_limiter_def)
  have "unat (l div 8) = unat l div 8"
    by (simp add: unat_div)
  with mem_ops_exec_limit [OF limited_inv_new new(1-3) assms] show ?thesis
    by (simp only: new(4) Un_empty_right)
qed

theorem memory_limit_exact_witness:
  "\<exists>m. mem_ops_exec [M_insert 8 default_MemValue, M_get 16, M_get_mut 8 (\<lambda>v. v), M_insert 24 default_MemValue]
     (limited_new_owned (Some 15)) = Some m \<and> last_error m = Some TooMuchMemory"
proof -
  have "\<forall>op \<in> set [M_insert 8 default_MemValue, M_get 16, M_get_mut 8 (\<lambda>v. v), M_insert 24 default_MemValue].
      word_addr (mem_op_addr op)"
    by (simp add: word_addr_def in_memory_def)
  from memory_limit_exact [OF this, of 15] show ?thesis
    by (simp add: word_index_def)
qed

text \<open>(C14) Leaving copy-on-write mode undoes everything that happened in it: whatever accesses are made
  after the switch to copy-on-write, the switch back restores the memory and the count of its entries
  exactly; only the error flag and the dummy word, which are not part of the guest's memory, survive.\<close>

theorem copy_on_write_restores:
  assumes "lm_memory m = Owned p" "mem_ops_exec ops (limited_copy_on_write m) = Some m'"
  shows "limited_owned m' =
    Some (m\<lparr>before_cow := None, last_error := last_error m', dummy_value := dummy_value m'\<rparr>)"
proof -
  have "cow_bottom (lm_memory m') = Some p" "before_cow m' = Some (limiter m)"
    using mem_ops_exec_bottom [OF assms(2)] assms(1) by (simp_all add: limited_copy_on_write_def new_cow_def)
  moreover from this(1) obtain c where "lm_memory m' = Cow c p"
    by (cases "lm_memory m'") auto
  ultimately show ?thesis
    using assms(1) by (simp add: limited_owned_def)
qed

theorem copy_on_write_restores_witness:
  "\<exists>m'. mem_ops_exec [M_insert 8 \<lparr>clk = 1, value = 2\<rparr>] (limited_copy_on_write (limited_new_owned (Some 80))) = Some m' \<and>
     cow_get (lm_memory m') 8 = Some (Some \<lparr>clk = 1, value = 2\<rparr>) \<and>
     limited_owned m' = Some ((limited_new_owned (Some 80))\<lparr>last_error := last_error m', dummy_value := dummy_value m'\<rparr>)"
proof -
  let ?m = "limited_copy_on_write (limited_new_owned (Some 80))"
  have owned: "lm_memory (limited_new_owned (Some 80)) = Owned new_preallocated"
    "before_cow (limited_new_owned (Some 80)) = None"
    by (simp_all add: limited_new_owned_def cow_new_owned_def)
  have inv: "limited_inv ?m" and ok: "access_ok ?m 8" and w: "word_addr 8"
    using limited_inv_copy_on_write [OF limited_inv_new owned(1)]
    by (simp_all add: access_ok_def word_addr_def in_memory_def limited_copy_on_write_def limited_new_owned_def)
  obtain m' where m': "limited_insert ?m 8 \<lparr>clk = 1, value = 2\<rparr> = Some m'" "limited_inv m'"
    "cow_abs (lm_memory m') = (cow_abs (lm_memory ?m))(word_index 8 \<mapsto> \<lparr>clk = 1, value = 2\<rparr>)"
    by (rule limited_insert_abs [OF inv ok]) (rule that)
  then have "mem_ops_exec [M_insert 8 \<lparr>clk = 1, value = 2\<rparr>] ?m = Some m'"
    by simp
  from copy_on_write_restores [OF owned(1) this] m' w this owned(2) show ?thesis
    by (simp add: cow_get_abs limited_inv_def)
qed

end
