(* ===== verification/Trace_Chunk.thy ===== *)
theory Trace_Chunk
  imports Machine
begin

text \<open>
  The trace that the minimal executor hands to the other virtual machines: the buffer it is built in
  (\<open>minimal/arch/portable/trace.rs\<close>), its capacity (\<open>core/jit/src/backends/mod.rs\<close>), and the chunk
  that is read back from the buffer's bytes or from the bincode encoding (\<open>core/jit/src/risc.rs\<close>).

  A buffer is an anonymous map of \<open>buf_len\<close> zero bytes into which the header fields and the memory
  values are written at fixed offsets; the model keeps the fields apart, and \<open>buffer_bytes\<close> lays them
  out as the \<open>repr(C)\<close> structs do on a little-endian target. The lemmas show that reading a chunk back
  from these bytes gives what was written, and that the bincode encoding round-trips.
\<close>

subsection \<open>Little-endian bytes\<close>

definition to_le_bytes :: "u64 \<Rightarrow> u8 list" where
  "to_le_bytes w = map (\<lambda>i. ucast (drop_bit (8 * i) w)) [0..<8]"

definition from_le_bytes :: "u8 list \<Rightarrow> u64" where
  "from_le_bytes bs = foldr (\<lambda>b w. ucast b OR push_bit 8 w) bs 0"

text \<open>\<open>as_chunks\<close>: the leading blocks of \<open>n\<close> elements.\<close>

fun as_chunks :: "nat \<Rightarrow> 'a list \<Rightarrow> 'a list list" where
  "as_chunks n xs = (if n = 0 \<or> length xs < n then [] else take n xs # as_chunks n (drop n xs))"

declare as_chunks.simps [simp del]

definition mem_value_bytes :: "MemValue \<Rightarrow> u8 list" where
  "mem_value_bytes v = to_le_bytes (clk v) @ to_le_bytes (value v)"

definition mem_value_of_bytes :: "u8 list \<Rightarrow> MemValue" where
  "mem_value_of_bytes bs =
    \<lparr>clk = from_le_bytes (take 8 bs), value = from_le_bytes (take 8 (drop 8 bs))\<rparr>"

abbreviation (input) MEM_VALUE_SIZE :: u64 where "MEM_VALUE_SIZE \<equiv> 16"
abbreviation (input) HEADER_SIZE :: u64 where "HEADER_SIZE \<equiv> 304"

subsection \<open>The buffer\<close>

definition trace_capacity :: "u64 option \<Rightarrow> u64" where
  "trace_capacity max_trace_size = (
     let max_trace_size = (case max_trace_size of Some n \<Rightarrow> n | None \<Rightarrow> 0)
     in if max_trace_size = 0 then 0
        else
          let event_bytes = max_trace_size * MEM_VALUE_SIZE;
              event_bytes = event_bytes * 10 div 9;
              worst_case_bytes = 512 * MEM_VALUE_SIZE;
              header_bytes = HEADER_SIZE
          in event_bytes + worst_case_bytes + header_bytes)"

record TraceChunkBuffer =
  buf_len :: u64
  h_start_registers :: "nat \<Rightarrow> u64"
  h_pc_start :: u64
  h_clk_start :: u64
  h_clk_end :: u64
  h_global_clk_end :: u64
  buf_reads :: "MemValue list"

definition new_buffer :: "u64 \<Rightarrow> TraceChunkBuffer option" where
  "new_buffer sz = do {
     assert_that (sz \<ge> HEADER_SIZE);
     Some \<lparr>buf_len = sz, h_start_registers = (\<lambda>_. 0), h_pc_start = 0, h_clk_start = 0,
           h_clk_end = 0, h_global_clk_end = 0, buf_reads = []\<rparr>
   }"

definition num_mem_reads :: "TraceChunkBuffer \<Rightarrow> u64" where
  "num_mem_reads b = of_nat (length (buf_reads b))"

definition trace_extend :: "TraceChunkBuffer \<Rightarrow> MemValue list \<Rightarrow> TraceChunkBuffer option" where
  "trace_extend b values = do {
     assert_that (unat (num_mem_reads b) + length values < 2 ^ 64);
     let new_num_mem_reads = num_mem_reads b + of_nat (length values);
     assert_that (new_num_mem_reads * MEM_VALUE_SIZE \<le> buf_len b - HEADER_SIZE);
     Some (b\<lparr>buf_reads := buf_reads b @ values\<rparr>)
   }"

definition header_words :: "TraceChunkBuffer \<Rightarrow> u64 list" where
  "header_words b = map (h_start_registers b) [0..<32] @
     [h_pc_start b, h_clk_start b, h_clk_end b, num_mem_reads b, h_global_clk_end b, 0]"

definition buffer_bytes :: "TraceChunkBuffer \<Rightarrow> u8 list" where
  "buffer_bytes b = (
     let written = concat (map to_le_bytes (header_words b)) @ concat (map mem_value_bytes (buf_reads b))
     in written @ replicate (unat (buf_len b) - length written) 0)"

subsection \<open>The chunk\<close>

record TraceChunk =
  start_registers :: "nat \<Rightarrow> u64"
  pc_start :: u64
  clk_start :: u64
  clk_end :: u64
  mem_reads :: "MemValue list"

text \<open>An array of 32 words, read from a list of words; the entries above are never used.\<close>

definition array32 :: "u64 list \<Rightarrow> nat \<Rightarrow> u64" where
  "array32 ws i = (if i < 32 then ws ! i else 0)"

definition copy_from_bytes :: "u8 list \<Rightarrow> TraceChunk option" where
  "copy_from_bytes src = do {
     assert_that (length src \<ge> unat HEADER_SIZE);
     let raw = map from_le_bytes (as_chunks 8 (take (unat HEADER_SIZE) src));
     let n_words = unat (raw ! 35);
     assert_that (n_words * unat MEM_VALUE_SIZE < 2 ^ 64);
     let n_bytes = n_words * unat MEM_VALUE_SIZE;
     assert_that (unat HEADER_SIZE + n_bytes < 2 ^ 64);
     let total = unat HEADER_SIZE + n_bytes;
     assert_that (length src \<ge> total);
     let tail = take n_bytes (drop (unat HEADER_SIZE) src);
     Some \<lparr>start_registers = array32 raw, pc_start = raw ! 32, clk_start = raw ! 33,
           clk_end = raw ! 34, mem_reads = map mem_value_of_bytes (as_chunks 16 tail)\<rparr>
   }"

definition encode_bincode :: "(nat \<Rightarrow> u64) \<Rightarrow> u64 \<Rightarrow> u64 \<Rightarrow> u64 \<Rightarrow> MemValue list \<Rightarrow> u8 list" where
  "encode_bincode regs pc clk0 clk1 reads =
     concat (map to_le_bytes (map regs [0..<32] @ [pc, clk0, clk1])) @
     to_le_bytes (of_nat (length reads)) @
     concat (map mem_value_bytes reads)"

abbreviation (input) BINCODE_HEADER_LEN :: nat where "BINCODE_HEADER_LEN \<equiv> 288"

text \<open>Here \<open>None\<close> is the function's own \<open>None\<close>: it does not panic.\<close>

definition decode_bincode :: "u8 list \<Rightarrow> TraceChunk option" where
  "decode_bincode bytes =
    (if length bytes < BINCODE_HEADER_LEN then None
     else
       let words = map from_le_bytes (as_chunks 8 (take BINCODE_HEADER_LEN bytes));
           n_reads = unat (words ! 35);
           tail = drop BINCODE_HEADER_LEN bytes
       in if n_reads * unat MEM_VALUE_SIZE \<ge> 2 ^ 64 then None
          else if length tail \<noteq> n_reads * unat MEM_VALUE_SIZE then None
          else Some \<lparr>start_registers = array32 words, pc_start = words ! 32,
                     clk_start = words ! 33, clk_end = words ! 34,
                     mem_reads = map mem_value_of_bytes (as_chunks 16 tail)\<rparr>)"

text \<open>The chunk that \<open>TraceChunkRaw\<close> presents through the \<open>MinimalTrace\<close> trait.\<close>

definition chunk_of_buffer :: "TraceChunkBuffer \<Rightarrow> TraceChunk" where
  "chunk_of_buffer b =
    \<lparr>start_registers = array32 (map (h_start_registers b) [0..<32]), pc_start = h_pc_start b,
     clk_start = h_clk_start b, clk_end = h_clk_end b, mem_reads = buf_reads b\<rparr>"

subsection \<open>Reading back what was written\<close>

lemma length_to_le_bytes [simp]: "length (to_le_bytes w) = 8"
  by (simp add: to_le_bytes_def)

lemma bit_from_le_bytes:
  "bit (from_le_bytes bs) i \<longleftrightarrow> i < 64 \<and> i < 8 * length bs \<and> bit (bs ! (i div 8)) (i mod 8)"
proof (induction bs arbitrary: i)
  case Nil
  then show ?case by (simp add: from_le_bytes_def)
next
  case (Cons b bs)
  have *: "from_le_bytes (b # bs) = ucast b OR push_bit 8 (from_le_bytes bs)"
    by (simp add: from_le_bytes_def)
  show ?case
  proof (cases "i < 8")
    case True
    then show ?thesis
      by (simp add: * bit_or_iff bit_unsigned_iff bit_push_bit_iff)
  next
    case False
    then obtain j where i: "i = j + 8"
      by (metis add.commute le_add_diff_inverse not_less)
    have "\<not> bit b (j + 8)" "(j + 8) div 8 = Suc (j div 8)"
      by (auto dest: bit_imp_le_length)
    then show ?thesis
      by (auto simp: * i bit_or_iff bit_unsigned_iff bit_push_bit_iff Cons.IH)
  qed
qed

lemma from_to_le_bytes [simp]: "from_le_bytes (to_le_bytes w) = w"
proof (rule bit_word_eqI)
  fix i
  assume "i < LENGTH(64)"
  then have "i div 8 < 8"
    by simp
  with \<open>i < LENGTH(64)\<close> show "bit (from_le_bytes (to_le_bytes w)) i = bit w i"
    by (simp add: bit_from_le_bytes) (simp add: to_le_bytes_def bit_simps)
qed

lemma to_from_le_bytes:
  assumes "length bs = 8"
  shows "to_le_bytes (from_le_bytes bs) = bs"
proof (rule nth_equalityI)
  fix k
  assume "k < length (to_le_bytes (from_le_bytes bs))"
  with assms show "to_le_bytes (from_le_bytes bs) ! k = bs ! k"
    by (intro bit_word_eqI) (simp add: to_le_bytes_def bit_simps bit_from_le_bytes)
qed (simp add: assms)

lemma as_chunks_concat:
  assumes "n > 0" "\<forall>x \<in> set xs. length (f x) = n" "length r < n"
  shows "as_chunks n (concat (map f xs) @ r) = map f xs"
  using assms by (induction xs) (simp_all add: as_chunks.simps)

lemma mem_value_of_bytes_bytes [simp]: "mem_value_of_bytes (mem_value_bytes v) = v"
  by (simp add: mem_value_of_bytes_def mem_value_bytes_def)

lemma length_mem_value_bytes [simp]: "length (mem_value_bytes v) = 16"
  by (simp add: mem_value_bytes_def)

lemma length_concat_map: "\<forall>x \<in> set xs. length (f x) = n \<Longrightarrow> length (concat (map f xs)) = n * length xs"
  by (induction xs) simp_all

lemma length_words_bytes: "length (concat (map to_le_bytes ws)) = 8 * length ws"
  by (rule length_concat_map) simp

lemma length_reads_bytes: "length (concat (map mem_value_bytes vs)) = 16 * length vs"
  by (rule length_concat_map) simp

lemma words_of_bytes: "map from_le_bytes (as_chunks 8 (concat (map to_le_bytes ws))) = ws"
  using as_chunks_concat [of 8 ws to_le_bytes "[]"] by (simp add: o_def)

lemma reads_of_bytes: "map mem_value_of_bytes (as_chunks 16 (concat (map mem_value_bytes vs))) = vs"
  using as_chunks_concat [of 16 vs mem_value_bytes "[]"] by (simp add: o_def)

lemma length_header_words [simp]: "length (header_words b) = 38"
  by (simp add: header_words_def)

lemma header_words_nth:
  "array32 (header_words b) = array32 (map (h_start_registers b) [0..<32])"
  "header_words b ! 32 = h_pc_start b" "header_words b ! 33 = h_clk_start b"
  "header_words b ! 34 = h_clk_end b" "header_words b ! 35 = num_mem_reads b"
  by (auto simp: header_words_def array32_def nth_append fun_eq_iff)

text \<open>A buffer is well-formed when its reads fit in it, which is what \<open>extend\<close> checks.\<close>

definition buffer_inv :: "TraceChunkBuffer \<Rightarrow> bool" where
  "buffer_inv b \<longleftrightarrow> unat HEADER_SIZE + 16 * length (buf_reads b) \<le> unat (buf_len b)"

lemma unat_sizes: "unat HEADER_SIZE = 304" "unat MEM_VALUE_SIZE = 16"
  by simp_all

lemma copy_from_buffer_bytes:
  assumes "buffer_inv b"
  shows "copy_from_bytes (buffer_bytes b) = Some (chunk_of_buffer b)"
proof -
  define h where "h = concat (map to_le_bytes (header_words b))"
  define r where "r = concat (map mem_value_bytes (buf_reads b))"
  define z :: "u8 list" where "z = replicate (unat (buf_len b) - length (h @ r)) 0"
  have bytes: "buffer_bytes b = h @ r @ z"
    by (simp add: buffer_bytes_def Let_def z_def h_def r_def)
  have h: "map from_le_bytes (as_chunks 8 h) = header_words b" "length h = 304"
    unfolding h_def by (simp_all only: words_of_bytes length_words_bytes length_header_words)
  have r: "map mem_value_of_bytes (as_chunks 16 r) = buf_reads b" "length r = 16 * length (buf_reads b)"
    unfolding r_def by (simp_all only: reads_of_bytes length_reads_bytes)
  have small: "304 + 16 * length (buf_reads b) < 18446744073709551616"
    using le_less_trans [OF assms [unfolded buffer_inv_def] unat_less_64] by simp
  then have n: "unat (num_mem_reads b) = length (buf_reads b)"
    by (simp add: num_mem_reads_def unat_of_nat)
  have take: "take 304 (h @ r @ z) = h" "drop 304 (h @ r @ z) = r @ z" "304 \<le> length (h @ r @ z)"
    using h(2) by simp_all
  have "16 * length (buf_reads b) < 2 ^ 64" "304 + length (buf_reads b) * 16 < 2 ^ 64"
      "304 + length (buf_reads b) * 16 \<le> length (h @ r @ z)" "take (length (buf_reads b) * 16) (r @ z) = r"
    using small h(2) r(2) by simp_all
  then show ?thesis
    unfolding copy_from_bytes_def bytes Let_def unat_sizes take h(1) header_words_nth n
    using r(1) by (simp add: chunk_of_buffer_def mult.commute)
qed

lemma decode_encode_bincode:
  assumes "16 * length reads < 2 ^ 64"
  shows "decode_bincode (encode_bincode regs pc clk0 clk1 reads) =
    Some \<lparr>start_registers = array32 (map regs [0..<32]), pc_start = pc, clk_start = clk0,
          clk_end = clk1, mem_reads = reads\<rparr>"
proof -
  let ?ws = "map regs [0..<32] @ [pc, clk0, clk1, of_nat (length reads)]"
  let ?h = "concat (map to_le_bytes ?ws)" and ?r = "concat (map mem_value_bytes reads)"
  have bytes: "encode_bincode regs pc clk0 clk1 reads = ?h @ ?r"
    by (simp add: encode_bincode_def)
  have len: "length ?h = 288" "length ?r = 16 * length reads"
    unfolding length_words_bytes length_reads_bytes by simp_all
  have ws: "?ws ! 32 = pc" "?ws ! 33 = clk0" "?ws ! 34 = clk1" "?ws ! 35 = of_nat (length reads)"
    "array32 ?ws = array32 (map regs [0..<32])"
    by (auto simp: nth_append array32_def fun_eq_iff)
  have n: "unat (of_nat (length reads) :: u64) = length reads"
    using assms by (simp add: unat_of_nat)
  define h where "h = ?h"
  define r where "r = ?r"
  have h: "map from_le_bytes (as_chunks 8 h) = ?ws" "length h = 288"
    unfolding h_def using len(1) by (simp_all only: words_of_bytes)
  have r: "map mem_value_of_bytes (as_chunks 16 r) = reads" "length r = 16 * length reads"
    unfolding r_def using len(2) by (simp_all only: reads_of_bytes)
  show ?thesis
    unfolding bytes h_def [symmetric] r_def [symmetric]
    using assms h r ws n by (simp only: decode_bincode_def) (simp add: Let_def mult.commute)
qed

subsection \<open>Properties\<close>

text \<open>Slices and buffers have at most \<open>isize::MAX\<close> bytes, so that the size computation does not wrap.\<close>

lemma trace_extend_inv:
  assumes b: "buffer_inv b" "unat (buf_len b) < 2 ^ 63" and vs: "16 * length vs < 2 ^ 63"
    and ext: "trace_extend b vs = Some b'"
  shows "buffer_inv b'" "b' = b\<lparr>buf_reads := buf_reads b @ vs\<rparr>"
proof -
  let ?n = "length (buf_reads b) + length vs"
  have small: "16 * length (buf_reads b) < 2 ^ 63" "304 \<le> unat (buf_len b)"
    using b by (simp_all add: buffer_inv_def)
  with vs have n: "16 * ?n < 2 ^ 64"
    by simp
  have "of_nat ?n * 16 = (of_nat (16 * ?n) :: u64)"
    by simp
  then have "unat (of_nat ?n * 16 :: u64) = 16 * ?n"
    using n by (simp only: unat_of_nat) simp
  moreover have "unat (buf_len b - 304) = unat (buf_len b) - 304"
    using small(2) by (subst unat_sub) (simp_all add: word_le_nat_alt)
  moreover have "num_mem_reads b + of_nat (length vs) = (of_nat ?n :: u64)"
    by (simp add: num_mem_reads_def)
  moreover have "(num_mem_reads b + of_nat (length vs)) * 16 \<le> buf_len b - 304"
      "b' = b\<lparr>buf_reads := buf_reads b @ vs\<rparr>"
    using ext by (auto simp: trace_extend_def Let_def split: Option.bind_splits)
  ultimately show "buffer_inv b'" "b' = b\<lparr>buf_reads := buf_reads b @ vs\<rparr>"
    using small by (simp_all add: buffer_inv_def word_le_nat_alt)
qed

text \<open>(C17) The bytes of a trace buffer are read back as the chunk that was written: appending memory
  reads keeps the buffer within its capacity, and decoding the whole buffer (header, reads and the
  unused rest) returns the registers, the program counter, the clocks and all the reads in order.\<close>

theorem trace_buffer_roundtrip:
  assumes "buffer_inv b" "unat (buf_len b) < 2 ^ 63" "16 * length vs < 2 ^ 63"
    and "trace_extend b vs = Some b'"
  shows "buffer_inv b' \<and> copy_from_bytes (buffer_bytes b') =
    Some \<lparr>start_registers = array32 (map (h_start_registers b) [0..<32]), pc_start = h_pc_start b,
          clk_start = h_clk_start b, clk_end = h_clk_end b, mem_reads = buf_reads b @ vs\<rparr>"
  using trace_extend_inv [OF assms] copy_from_buffer_bytes [of b']
  by (simp add: chunk_of_buffer_def)

theorem trace_buffer_roundtrip_witness:
  "\<exists>b b'. new_buffer 1000 = Some b \<and> trace_extend b [\<lparr>clk = 5, value = 6\<rparr>] = Some b' \<and>
     map_option mem_reads (copy_from_bytes (buffer_bytes b')) = Some [\<lparr>clk = 5, value = 6\<rparr>]"
proof -
  obtain b where b: "new_buffer 1000 = Some b" "buf_len b = 1000" "buf_reads b = []"
    by (simp add: new_buffer_def)
  moreover obtain b' where "trace_extend b [\<lparr>clk = 5, value = 6\<rparr>] = Some b'"
    by (simp add: trace_extend_def num_mem_reads_def b(2,3))
  ultimately show ?thesis
    using trace_buffer_roundtrip [of b "[\<lparr>clk = 5, value = 6\<rparr>]" b'] by (simp add: buffer_inv_def)
qed

text \<open>(C18) Chunks survive the bincode encoding: decoding the encoded bytes of a chunk returns it, and
  bytes with a reads section of the wrong length, or with anything after it, are rejected.\<close>

theorem bincode_roundtrip:
  assumes "16 * length reads < 2 ^ 64"
  shows "decode_bincode (encode_bincode regs pc clk0 clk1 reads @ extra) =
    (if extra = [] then
       Some \<lparr>start_registers = array32 (map regs [0..<32]), pc_start = pc, clk_start = clk0,
             clk_end = clk1, mem_reads = reads\<rparr>
     else None)"
proof -
  have "decode_bincode (encode_bincode regs pc clk0 clk1 reads @ extra) = None" if "extra \<noteq> []"
  proof -
    define h where "h = concat (map to_le_bytes (map regs [0..<32] @ [pc, clk0, clk1] @ [of_nat (length reads)]))"
    define r where "r = concat (map mem_value_bytes reads)"
    have "encode_bincode regs pc clk0 clk1 reads @ extra = h @ r @ extra"
      by (simp add: encode_bincode_def h_def r_def del: upt_rec_numeral)
    moreover have "length h = 288"
      unfolding h_def length_words_bytes by simp
    moreover have "map from_le_bytes (as_chunks 8 h) = map regs [0..<32] @ [pc, clk0, clk1] @ [of_nat (length reads)]"
      unfolding h_def by (rule words_of_bytes)
    moreover have "length r = 16 * length reads"
      by (simp add: r_def length_reads_bytes)
    moreover have "unat (of_nat (length reads) :: u64) = length reads"
      using assms by (simp add: unat_of_nat take_bit_nat_eq_self)
    ultimately show ?thesis
      using that by (simp add: decode_bincode_def Let_def nth_append del: upt_rec_numeral)
  qed
  with decode_encode_bincode [OF assms] show ?thesis
    by simp
qed

theorem bincode_roundtrip_witness:
  "map_option mem_reads (decode_bincode (encode_bincode (\<lambda>_. 0) 4 1 9 [\<lparr>clk = 1, value = 2\<rparr>])) =
     Some [\<lparr>clk = 1, value = 2\<rparr>]"
  using bincode_roundtrip [of "[\<lparr>clk = 1, value = 2\<rparr>]" "\<lambda>_. 0" 4 1 9 "[]"] by simp

end
