(* ===== verification/Minimal_Executor.thy ===== *)
theory Minimal_Executor
  imports Alu Mem_Access Cow_Memory Trace_Chunk
begin

text \<open>
  The portable minimal executor (\<open>minimal/arch/portable/mod.rs\<close>) without its system calls: the state,
  the operations it offers to the precompiles (the trait \<open>SyscallContext\<close> of
  \<open>core/jit/src/context.rs\<close>), and the execution of every instruction but \<open>ECALL\<close>.

  The state is a record with the fields of the struct, prefixed with \<open>m_\<close>; the marker type \<open>M\<close> of the
  source is the field \<open>m_mode\<close>. The fields that only the debugger and the profiler use are left out.
  A function that takes \<open>&mut self\<close> returns the new state, and \<open>None\<close> when it panics. One that also
  returns \<open>Result<_, Interrupt>\<close> returns the sum \<open>Interrupt + _\<close> beside the state, since the state
  stays in use after an interrupt.
\<close>

subsection \<open>The state\<close>

record UnconstrainedCtx =
  u_registers :: "nat \<Rightarrow> u64"
  u_pc :: u64
  u_clk :: u64

record MinimalExecutor =
  m_program :: Program
  m_input :: "u8 list list"
  m_registers :: "nat \<Rightarrow> u64"
  m_memory :: LimitedMemory
  m_page_prots :: MaybeCowPageProt
  m_traces :: "TraceChunkBuffer option"
  m_pc :: u64
  m_clk :: u64
  m_global_clk :: u64
  m_next_pc :: u64
  m_next_clk :: u64
  m_exit_code :: u32
  m_max_trace_size :: "u64 option"
  m_public_values_stream :: "u8 list"
  m_public_value_digest :: "nat \<Rightarrow> u32"
  m_hints :: "(u64 \<times> u8 list) list"
  m_maybe_unconstrained :: "UnconstrainedCtx option"
  m_decoded_instruction_cache :: "u32 \<Rightarrow> Instruction option"
  m_mode :: ExecutionMode

type_synonym 'a stepped = "('a \<times> MinimalExecutor) option"
type_synonym 'a checked = "((Interrupt + 'a) \<times> MinimalExecutor) option"

text \<open>The \<open>?\<close> operator on a \<open>Result<_, Interrupt>\<close>.\<close>

definition try_then :: "'a checked \<Rightarrow> ('a \<Rightarrow> MinimalExecutor \<Rightarrow> 'b checked) \<Rightarrow> 'b checked" where
  "try_then m f = do {
     (r, s) \<leftarrow> m;
     (case r of Inl i \<Rightarrow> Some (Inl i, s) | Inr x \<Rightarrow> f x s)
   }"

definition insert_image :: "(u64 \<times> u64) list \<Rightarrow> LimitedMemory \<Rightarrow> LimitedMemory option" where
  "insert_image img mem =
    foldl (\<lambda>m (addr, v). do { mem \<leftarrow> m; limited_insert mem addr \<lparr>clk = 0, value = v\<rparr> }) (Some mem) img"

definition new_with_limit ::
    "ExecutionMode \<Rightarrow> Program \<Rightarrow> u64 option \<Rightarrow> u64 option \<Rightarrow> MinimalExecutor option" where
  "new_with_limit mode program max_trace_size memory_limit = do {
     mem \<leftarrow> insert_image (memory_image program) (limited_new_owned memory_limit);
     let page_prots = OwnedProt
       (map_of (map (\<lambda>(i, prot). (i, \<lparr>pp_timestamp = 0, pp_value = prot\<rparr>)) (page_prot_image program)));
     Some \<lparr>m_program = program, m_input = [], m_registers = (\<lambda>_. 0), m_memory = mem,
       m_page_prots = page_prots, m_traces = None, m_pc = pc_start_abs program, m_clk = 1,
       m_global_clk = 0, m_next_pc = pc_start_abs program, m_next_clk = 1, m_exit_code = 0,
       m_max_trace_size = max_trace_size, m_public_values_stream = [],
       m_public_value_digest = (\<lambda>_. 0), m_hints = [], m_maybe_unconstrained = None,
       m_decoded_instruction_cache = Map.empty, m_mode = mode\<rparr>
   }"

definition with_input :: "u8 list \<Rightarrow> MinimalExecutor \<Rightarrow> MinimalExecutor" where
  "with_input input s = s\<lparr>m_input := m_input s @ [input]\<rparr>"

definition is_done :: "MinimalExecutor \<Rightarrow> bool" where
  "is_done s \<longleftrightarrow> m_pc s = HALT_PC"

text \<open>A client reads a word of the memory through a shared reference; when the memory has a limit, an address
  outside it nevertheless leaves an error in the executor.\<close>

definition get_memory_value :: "MinimalExecutor \<Rightarrow> u64 \<Rightarrow> MemValue stepped" where
  "get_memory_value s addr = do {
     (v, mem) \<leftarrow> limited_get (m_memory s) addr;
     Some (case v of Some v \<Rightarrow> v | None \<Rightarrow> default_MemValue, s\<lparr>m_memory := mem\<rparr>)
   }"

subsection \<open>Operations for the precompiles\<close>

definition ctx_rr :: "MinimalExecutor \<Rightarrow> Register \<Rightarrow> u64" where
  "ctx_rr s reg = m_registers s (reg_idx reg)"

definition ctx_rw :: "MinimalExecutor \<Rightarrow> Register \<Rightarrow> u64 \<Rightarrow> MinimalExecutor" where
  "ctx_rw s reg v = s\<lparr>m_registers := (m_registers s)(reg_idx reg := v)\<rparr>"

text \<open>\<open>if self.traces.is_some() { self.traces.extend(&[v]) }\<close>, with and without the condition that the
  executor is not in an unconstrained block.\<close>

definition trace_push :: "MinimalExecutor \<Rightarrow> MemValue \<Rightarrow> MinimalExecutor option" where
  "trace_push s v = (case m_traces s of
      None \<Rightarrow> Some s
    | Some b \<Rightarrow> do { b' \<leftarrow> trace_extend b [v]; Some (s\<lparr>m_traces := Some b'\<rparr>) })"

definition trace_push_constrained :: "MinimalExecutor \<Rightarrow> MemValue \<Rightarrow> MinimalExecutor option" where
  "trace_push_constrained s v = (if m_maybe_unconstrained s = None then trace_push s v else Some s)"

definition ctx_mr_without_prot :: "MinimalExecutor \<Rightarrow> u64 \<Rightarrow> u64 stepped" where
  "ctx_mr_without_prot s addr = do {
     (v, mem) \<leftarrow> limited_get_mut (m_memory s) addr
       (\<lambda>v. if m_traces s \<noteq> None then v\<lparr>clk := m_clk s\<rparr> else v);
     s1 \<leftarrow> trace_push (s\<lparr>m_memory := mem\<rparr>) v;
     Some (value v, s1)
   }"

definition ctx_mw_without_prot :: "MinimalExecutor \<Rightarrow> u64 \<Rightarrow> u64 \<Rightarrow> unit stepped" where
  "ctx_mw_without_prot s addr val = do {
     (v, mem) \<leftarrow> limited_get_mut (m_memory s) addr (\<lambda>v. v\<lparr>clk := m_clk s, value := val\<rparr>);
     s1 \<leftarrow> trace_push (s\<lparr>m_memory := mem\<rparr>) v;
     s2 \<leftarrow> trace_push s1 \<lparr>clk = m_clk s, value = val\<rparr>;
     Some ((), s2)
   }"

text \<open>The loops of the slice operations run over the addresses \<open>addr + i * 8\<close> for \<open>i\<close> in \<open>0..len\<close>. The values
  are read in a second pass, over the range \<open>(addr..addr + len * 8).step_by(8)\<close>, which is empty when its end
  wraps around.\<close>

definition slice_addrs :: "u64 \<Rightarrow> nat \<Rightarrow> u64 list" where
  "slice_addrs addr len = map (\<lambda>i. addr + of_nat i * 8) [0..<len]"

definition slice_range :: "u64 \<Rightarrow> nat \<Rightarrow> u64 list" where
  "slice_range addr len = (let last = addr + of_nat len * 8 in
     if addr < last then map (\<lambda>i. addr + of_nat i * 8) [0..<(unat (last - addr) + 7) div 8] else [])"

primrec read_values :: "LimitedMemory \<Rightarrow> u64 list \<Rightarrow> (u64 list \<times> LimitedMemory) option" where
  "read_values mem [] = Some ([], mem)"
| "read_values mem (a # as) = do {
     (ov, mem1) \<leftarrow> limited_get mem a;
     v \<leftarrow> ov;
     (vs, mem2) \<leftarrow> read_values mem1 as;
     Some (value v # vs, mem2)
   }"

primrec touch_slice :: "(MemValue \<Rightarrow> MemValue) \<Rightarrow> MinimalExecutor \<Rightarrow> u64 list \<Rightarrow> unit stepped" where
  "touch_slice f s [] = Some ((), s)"
| "touch_slice f s (a # as) = do {
     (v, mem) \<leftarrow> limited_get_mut (m_memory s) a f;
     s1 \<leftarrow> trace_push (s\<lparr>m_memory := mem\<rparr>) v;
     touch_slice f s1 as
   }"

definition ctx_mr_slice_without_prot :: "MinimalExecutor \<Rightarrow> u64 \<Rightarrow> nat \<Rightarrow> u64 list stepped" where
  "ctx_mr_slice_without_prot s addr len = do {
     (_, s1) \<leftarrow> touch_slice (\<lambda>v. if m_traces s \<noteq> None then v\<lparr>clk := m_clk s\<rparr> else v) s
       (slice_addrs addr len);
     (vs, mem) \<leftarrow> read_values (m_memory s1) (slice_range addr len);
     Some (vs, s1\<lparr>m_memory := mem\<rparr>)
   }"

definition ctx_mr_slice_unsafe :: "MinimalExecutor \<Rightarrow> u64 \<Rightarrow> nat \<Rightarrow> u64 list stepped" where
  "ctx_mr_slice_unsafe s addr len = do {
     (_, s1) \<leftarrow> touch_slice (\<lambda>v. v) s (slice_addrs addr len);
     (vs, mem) \<leftarrow> read_values (m_memory s1) (slice_range addr len);
     Some (vs, s1\<lparr>m_memory := mem\<rparr>)
   }"

primrec read_values_or_zero :: "LimitedMemory \<Rightarrow> u64 list \<Rightarrow> (u64 list \<times> LimitedMemory) option" where
  "read_values_or_zero mem [] = Some ([], mem)"
| "read_values_or_zero mem (a # as) = do {
     (ov, mem1) \<leftarrow> limited_get mem a;
     (vs, mem2) \<leftarrow> read_values_or_zero mem1 as;
     Some ((case ov of Some v \<Rightarrow> value v | None \<Rightarrow> 0) # vs, mem2)
   }"

definition ctx_mr_slice_no_trace :: "MinimalExecutor \<Rightarrow> u64 \<Rightarrow> nat \<Rightarrow> u64 list stepped" where
  "ctx_mr_slice_no_trace s addr len = do {
     (vs, mem) \<leftarrow> read_values_or_zero (m_memory s) (slice_range addr len);
     Some (vs, s\<lparr>m_memory := mem\<rparr>)
   }"

primrec write_words :: "MinimalExecutor \<Rightarrow> u64 \<Rightarrow> u64 list \<Rightarrow> unit stepped" where
  "write_words s addr [] = Some ((), s)"
| "write_words s addr (v # vs) = do {
     (_, s1) \<leftarrow> ctx_mw_without_prot s addr v;
     write_words s1 (addr + 8) vs
   }"

definition ctx_mw_slice_without_prot :: "MinimalExecutor \<Rightarrow> u64 \<Rightarrow> u64 list \<Rightarrow> unit stepped" where
  "ctx_mw_slice_without_prot s addr vals = write_words s addr vals"

text \<open>The permission bits that an access needs and a page lacks, as the code of the failure.\<close>

definition prot_failure :: "elf_abi \<Rightarrow> u8 \<Rightarrow> u8 \<Rightarrow> u64 option" where
  "prot_failure e prot_bitmap prot =
    (if prot_bitmap AND PROT_EXEC e \<noteq> 0 \<and> prot AND PROT_EXEC e = 0 then Some PROT_FAILURE_EXEC
     else if prot_bitmap AND PROT_READ e \<noteq> 0 \<and> prot AND PROT_READ e = 0 then Some PROT_FAILURE_READ
     else if prot_bitmap AND PROT_WRITE e \<noteq> 0 \<and> prot AND PROT_WRITE e = 0 then Some PROT_FAILURE_WRITE
     else None)"

primrec check_pages :: "elf_abi \<Rightarrow> u8 \<Rightarrow> MinimalExecutor \<Rightarrow> u64 list \<Rightarrow> unit checked" where
  "check_pages e prot_bitmap s [] = Some (Inr (), s)"
| "check_pages e prot_bitmap s (i # is) = do {
     let page_prot_value = (case prot_get (m_page_prots s) i of
         Some v \<Rightarrow> v | None \<Rightarrow> default_PageProtValue e);
     s1 \<leftarrow> trace_push_constrained s (mem_of_page_prot page_prot_value);
     let s2 = s1\<lparr>m_page_prots := snd (prot_insert (m_page_prots s1) i
       (page_prot_value\<lparr>pp_timestamp := m_clk s\<rparr>))\<rparr>;
     (case prot_failure e prot_bitmap (pp_value page_prot_value) of
       Some code \<Rightarrow> Some (Inl (Interrupt code), s2)
     | None \<Rightarrow> check_pages e prot_bitmap s2 is)
   }"

text \<open>\<open>i..=j\<close>.\<close>

definition page_range :: "u64 \<Rightarrow> u64 \<Rightarrow> u64 list" where
  "page_range i j = map of_nat [unat i..<Suc (unat j)]"

definition ctx_prot_slice_check :: "elf_abi \<Rightarrow> MinimalExecutor \<Rightarrow> u64 \<Rightarrow> nat \<Rightarrow> u8 \<Rightarrow> unit checked" where
  "ctx_prot_slice_check e s addr len prot_bitmap =
    (if \<not> PAGE_PROTECTION_ENABLED (m_mode s) then Some (Inr (), s)
     else
       let first_page_idx = drop_bit LOG_PAGE_SIZE addr;
           last_page_idx = drop_bit LOG_PAGE_SIZE (addr + (of_nat len - 1) * 8)
       in check_pages e prot_bitmap s (page_range first_page_idx last_page_idx))"

definition read_slice_check :: "elf_abi \<Rightarrow> MinimalExecutor \<Rightarrow> u64 \<Rightarrow> nat \<Rightarrow> unit checked" where
  "read_slice_check e s addr len = ctx_prot_slice_check e s addr len (PROT_READ e)"

definition write_slice_check :: "elf_abi \<Rightarrow> MinimalExecutor \<Rightarrow> u64 \<Rightarrow> nat \<Rightarrow> unit checked" where
  "write_slice_check e s addr len = ctx_prot_slice_check e s addr len (PROT_WRITE e)"

definition read_write_slice_check :: "elf_abi \<Rightarrow> MinimalExecutor \<Rightarrow> u64 \<Rightarrow> nat \<Rightarrow> unit checked" where
  "read_write_slice_check e s addr len = ctx_prot_slice_check e s addr len (PROT_READ e OR PROT_WRITE e)"

text \<open>\<open>entry(i).or_default()\<close>: the value and the permissions after it.\<close>

definition prot_or_default :: "elf_abi \<Rightarrow> MaybeCowPageProt \<Rightarrow> u64 \<Rightarrow> PageProtValue \<times> MaybeCowPageProt" where
  "prot_or_default e pp i = (case prot_entry pp i of
      (Some v, pp1) \<Rightarrow> (v, pp1)
    | (None, pp1) \<Rightarrow> (default_PageProtValue e, snd (prot_insert pp1 i (default_PageProtValue e))))"

definition ctx_page_prot_write :: "elf_abi \<Rightarrow> MinimalExecutor \<Rightarrow> u64 \<Rightarrow> u8 \<Rightarrow> unit stepped" where
  "ctx_page_prot_write e s addr val = do {
     assert_that (addr mod 2 ^ LOG_PAGE_SIZE = 0);
     assert_that (addr < 2 ^ MAX_LOG_ADDR);
     (lo, hi) \<leftarrow> untrusted_memory (m_program s);
     assert_that (addr \<ge> lo \<and> addr < hi);
     let i = drop_bit LOG_PAGE_SIZE addr;
     let (v, pp) = prot_or_default e (m_page_prots s) i;
     s1 \<leftarrow> trace_push_constrained (s\<lparr>m_page_prots := pp\<rparr>) (mem_of_page_prot v);
     Some ((), s1\<lparr>m_page_prots := snd (prot_insert (m_page_prots s1) i
       \<lparr>pp_timestamp = m_clk s, pp_value = val\<rparr>)\<rparr>)
   }"

definition enter_unconstrained :: "MinimalExecutor \<Rightarrow> MinimalExecutor option" where
  "enter_unconstrained s = do {
     assert_that (m_maybe_unconstrained s = None);
     Some (s\<lparr>m_maybe_unconstrained :=
                Some \<lparr>u_registers = m_registers s, u_pc = m_pc s, u_clk = m_clk s\<rparr>,
             m_memory := limited_copy_on_write (m_memory s),
             m_page_prots := prot_copy_on_write (m_page_prots s)\<rparr>)
   }"

definition exit_unconstrained :: "MinimalExecutor \<Rightarrow> MinimalExecutor option" where
  "exit_unconstrained s = do {
     unconstrained \<leftarrow> m_maybe_unconstrained s;
     mem \<leftarrow> limited_owned (m_memory s);
     Some (s\<lparr>m_maybe_unconstrained := None, m_registers := u_registers unconstrained,
             m_pc := u_pc unconstrained, m_clk := u_clk unconstrained,
             m_memory := mem, m_page_prots := prot_owned (m_page_prots s)\<rparr>)
   }"

definition trace_hint :: "MinimalExecutor \<Rightarrow> u64 \<Rightarrow> u8 list \<Rightarrow> MinimalExecutor" where
  "trace_hint s addr v = (if m_traces s \<noteq> None then s\<lparr>m_hints := m_hints s @ [(addr, v)]\<rparr> else s)"

definition trace_value :: "MinimalExecutor \<Rightarrow> u64 \<Rightarrow> MinimalExecutor option" where
  "trace_value s v = trace_push s \<lparr>clk = 0xFFFFFFFFFFFFFFFF, value = v\<rparr>"

definition mw_hint :: "MinimalExecutor \<Rightarrow> u64 \<Rightarrow> u64 \<Rightarrow> MinimalExecutor option" where
  "mw_hint s addr val = do {
     mem \<leftarrow> limited_insert (m_memory s) addr \<lparr>clk = 0, value = val\<rparr>;
     Some (s\<lparr>m_memory := mem\<rparr>)
   }"

definition bump_memory_clk :: "MinimalExecutor \<Rightarrow> MinimalExecutor" where
  "bump_memory_clk s = s\<lparr>m_clk := m_clk s + 1\<rparr>"

definition set_public_value_digest_word :: "MinimalExecutor \<Rightarrow> u64 \<Rightarrow> u32 \<Rightarrow> MinimalExecutor option" where
  "set_public_value_digest_word s word_idx digest_word = do {
     assert_that (word_idx < 8);
     Some (s\<lparr>m_public_value_digest := (m_public_value_digest s)(unat word_idx := digest_word)\<rparr>)
   }"

definition is_unconstrained :: "MinimalExecutor \<Rightarrow> bool" where
  "is_unconstrained s \<longleftrightarrow> m_maybe_unconstrained s \<noteq> None"

subsection \<open>Instructions\<close>

text \<open>\<open>self.registers[i as usize]\<close>, which panics out of range, and the assignment to it.\<close>

definition reg_get :: "MinimalExecutor \<Rightarrow> nat \<Rightarrow> u64 option" where
  "reg_get s i = (if i < 32 then Some (m_registers s i) else None)"

definition reg_set :: "MinimalExecutor \<Rightarrow> nat \<Rightarrow> u64 \<Rightarrow> MinimalExecutor option" where
  "reg_set s i v = (if i < 32 then Some (s\<lparr>m_registers := (m_registers s)(i := v)\<rparr>) else None)"

definition post_instruction_update :: "MinimalExecutor \<Rightarrow> MinimalExecutor" where
  "post_instruction_update s =
    s\<lparr>m_registers := (m_registers s)(0 := 0), m_pc := m_next_pc s, m_clk := m_next_clk s,
      m_global_clk := (if m_maybe_unconstrained s = None then m_global_clk s + 1 else m_global_clk s)\<rparr>"

definition check_trace_buffer_exceeded :: "MinimalExecutor \<Rightarrow> bool option" where
  "check_trace_buffer_exceeded s = (case m_traces s of
      None \<Rightarrow> Some False
    | Some trace \<Rightarrow> do { max \<leftarrow> m_max_trace_size s; Some (num_mem_reads trace \<ge> max) })"

definition handle_ecall_special_cases :: "MinimalExecutor \<Rightarrow> SyscallCode \<Rightarrow> MinimalExecutor" where
  "handle_ecall_special_cases s code =
    (if code = EXIT_UNCONSTRAINED then
       s\<lparr>m_next_pc := m_pc s + PC_INC, m_next_clk := m_clk s + (CLK_INC + 256)\<rparr>
     else if code = HALT then s\<lparr>m_next_pc := HALT_PC\<rparr>
     else s)"

definition minimal_execute_load :: "MinimalExecutor \<Rightarrow> Instruction \<Rightarrow> MinimalExecutor option" where
  "minimal_execute_load s instruction = do {
     (rd, rs1, imm_offset) \<leftarrow> i_type instruction;
     let base = ctx_rr s rs1;
     let addr = base + imm_offset;
     let aligned_addr = addr AND NOT 7;
     (mem_value, mem) \<leftarrow> limited_get_mut (m_memory s) aligned_addr (\<lambda>v. v\<lparr>clk := m_clk s + 1\<rparr>);
     s1 \<leftarrow> trace_push_constrained (s\<lparr>m_memory := mem\<rparr>) mem_value;
     v \<leftarrow> load_value (opcode instruction) addr (value mem_value);
     Some (ctx_rw s1 rd v)
   }"

definition mem_read_untracked :: "MinimalExecutor \<Rightarrow> u64 \<Rightarrow> u64 stepped" where
  "mem_read_untracked s addr = do {
     (ov, mem) \<leftarrow> limited_get (m_memory s) addr;
     Some (value (case ov of Some v \<Rightarrow> v | None \<Rightarrow> default_MemValue), s\<lparr>m_memory := mem\<rparr>)
   }"

definition minimal_execute_store :: "MinimalExecutor \<Rightarrow> Instruction \<Rightarrow> MinimalExecutor option" where
  "minimal_execute_store s instruction = do {
     (rs1, rs2, imm_offset) \<leftarrow> s_type instruction;
     let src = ctx_rr s rs1;
     let base = ctx_rr s rs2;
     let addr = base + imm_offset;
     let aligned_addr = addr AND NOT 7;
     (last_value, s1) \<leftarrow> mem_read_untracked s aligned_addr;
     v \<leftarrow> store_value (opcode instruction) src addr last_value;
     (mem_value, mem) \<leftarrow> limited_get_mut (m_memory s1) aligned_addr
       (\<lambda>w. w\<lparr>clk := m_clk s + 1, value := v\<rparr>);
     trace_push_constrained (s1\<lparr>m_memory := mem\<rparr>) mem_value
   }"

definition minimal_execute_alu :: "MinimalExecutor \<Rightarrow> Instruction \<Rightarrow> MinimalExecutor option" where
  "minimal_execute_alu s instruction = do {
     let rd = unat (op_a instruction);
     b \<leftarrow> (if imm_b instruction then Some (op_b instruction) else reg_get s (unat (op_b instruction)));
     c \<leftarrow> (if imm_c instruction then Some (op_c instruction) else reg_get s (unat (op_c instruction)));
     a \<leftarrow> minimal_alu (opcode instruction) b c;
     reg_set s rd a
   }"

text \<open>\<open>((value as i64) << shift) >> shift\<close> with \<open>shift = 64 - bits\<close>.\<close>

definition sign_extend_imm :: "u64 \<Rightarrow> nat \<Rightarrow> u64" where
  "sign_extend_imm v bits = signed_drop_bit (64 - bits) (push_bit (64 - bits) v)"

definition minimal_execute_jump :: "MinimalExecutor \<Rightarrow> Instruction \<Rightarrow> MinimalExecutor option" where
  "minimal_execute_jump s instruction =
    (if opcode instruction = JAL then do {
       (rd, imm_offset) \<leftarrow> j_type instruction;
       let pc = m_pc s;
       Some (ctx_rw (s\<lparr>m_next_pc := pc + sign_extend_imm imm_offset 21\<rparr>) rd (pc + 4))
     } else if opcode instruction = JALR then do {
       (rd, rs1, imm_offset) \<leftarrow> i_type instruction;
       let base = ctx_rr s rs1;
       let s1 = ctx_rw s rd (m_pc s + PC_INC);
       Some (s1\<lparr>m_next_pc := (base + sign_extend_imm imm_offset 12) AND NOT 1\<rparr>)
     } else None)"

definition minimal_execute_branch :: "MinimalExecutor \<Rightarrow> Instruction \<Rightarrow> MinimalExecutor option" where
  "minimal_execute_branch s instruction = do {
     (rs1, rs2, imm_offset) \<leftarrow> b_type instruction;
     let a = ctx_rr s rs1;
     let b = ctx_rr s rs2;
     branch \<leftarrow> (case opcode instruction of
         BEQ \<Rightarrow> Some (a = b)
       | BNE \<Rightarrow> Some (a \<noteq> b)
       | BLT \<Rightarrow> Some (a <s b)
       | BGE \<Rightarrow> Some (b \<le>s a)
       | BLTU \<Rightarrow> Some (a < b)
       | BGEU \<Rightarrow> Some (a \<ge> b)
       | _ \<Rightarrow> None);
     Some (if branch then s\<lparr>m_next_pc := m_pc s + imm_offset\<rparr> else s)
   }"

definition minimal_execute_utype :: "MinimalExecutor \<Rightarrow> Instruction \<Rightarrow> MinimalExecutor option" where
  "minimal_execute_utype s instruction = do {
     (rd, imm) \<leftarrow> u_type instruction;
     v \<leftarrow> (case opcode instruction of
         AUIPC \<Rightarrow> Some (m_pc s + imm)
       | LUI \<Rightarrow> Some imm
       | _ \<Rightarrow> None);
     Some (ctx_rw s rd v)
   }"

subsection \<open>Page permissions of loads, stores and fetches (user mode)\<close>

definition minimal_pr :: "elf_abi \<Rightarrow> MinimalExecutor \<Rightarrow> u64 \<Rightarrow> u64 \<Rightarrow> u8 stepped" where
  "minimal_pr e s addr clk_bump = do {
     let i = addr div 2 ^ LOG_PAGE_SIZE;
     let (v, pp) = prot_or_default e (m_page_prots s) i;
     s1 \<leftarrow> trace_push_constrained (s\<lparr>m_page_prots := pp\<rparr>) (mem_of_page_prot v);
     Some (pp_value v, s1\<lparr>m_page_prots := snd (prot_insert (m_page_prots s1) i
       (v\<lparr>pp_timestamp := m_clk s + clk_bump\<rparr>))\<rparr>)
   }"

definition minimal_prot_check :: "elf_abi \<Rightarrow> MinimalExecutor \<Rightarrow> u64 \<Rightarrow> u8 \<Rightarrow> u64 \<Rightarrow> unit checked" where
  "minimal_prot_check e s addr prot_bitmap clk_bump = do {
     (prot, s1) \<leftarrow> minimal_pr e s addr clk_bump;
     (case prot_failure e prot_bitmap prot of
       Some code \<Rightarrow> Some (Inl (Interrupt code), s1)
     | None \<Rightarrow> Some (Inr (), s1))
   }"

definition execute_load_user :: "elf_abi \<Rightarrow> MinimalExecutor \<Rightarrow> Instruction \<Rightarrow> unit checked" where
  "execute_load_user e s instruction = do {
     (_, rs1, imm_offset) \<leftarrow> i_type instruction;
     let base = ctx_rr s rs1;
     let addr = base + imm_offset;
     let aligned_addr = addr AND NOT 7;
     try_then (minimal_prot_check e s aligned_addr (PROT_READ e) 1) (\<lambda>_ s1. do {
       s2 \<leftarrow> minimal_execute_load s1 instruction;
       Some (Inr (), s2)
     })
   }"

definition execute_store_user :: "elf_abi \<Rightarrow> MinimalExecutor \<Rightarrow> Instruction \<Rightarrow> unit checked" where
  "execute_store_user e s instruction = do {
     (_, rs2, imm_offset) \<leftarrow> s_type instruction;
     let base = ctx_rr s rs2;
     let addr = base + imm_offset;
     let aligned_addr = addr AND NOT 7;
     try_then (minimal_prot_check e s aligned_addr (PROT_WRITE e) 1) (\<lambda>_ s1. do {
       s2 \<leftarrow> minimal_execute_store s1 instruction;
       Some (Inr (), s2)
     })
   }"

definition handle_interrupt :: "MinimalExecutor \<Rightarrow> Interrupt \<Rightarrow> MinimalExecutor option" where
  "handle_interrupt s interrupt = do {
     trap_context_address \<leftarrow> trap_context (m_program s);
     (npc, s1) \<leftarrow> ctx_mr_without_prot s trap_context_address;
     let s2 = s1\<lparr>m_next_pc := npc\<rparr>;
     (_, s3) \<leftarrow> ctx_mw_without_prot s2 (trap_context_address + 8) (trap_code interrupt);
     (_, s4) \<leftarrow> ctx_mw_without_prot s3 (trap_context_address + 16) (m_pc s3);
     Some s4
   }"

text \<open>Fetching. The decoder of instruction words is a parameter: it wraps a third-party disassembler.\<close>

definition minimal_fetch ::
    "elf_abi \<Rightarrow> (u32 \<Rightarrow> Instruction option) \<Rightarrow> MinimalExecutor \<Rightarrow> Instruction checked" where
  "minimal_fetch e process_instruction s = (case fetch (m_program s) (m_pc s) of
      Some instruction \<Rightarrow> Some (Inr instruction, s)
    | None \<Rightarrow>
        let aligned_pc = m_pc s AND NOT 7
        in try_then (minimal_prot_check e s aligned_pc (PROT_READ e OR PROT_EXEC e) 0) (\<lambda>_ s1. do {
             (mem_value, mem) \<leftarrow> limited_get_mut (m_memory s1) aligned_pc (\<lambda>v. v\<lparr>clk := m_clk s1\<rparr>);
             s2 \<leftarrow> trace_push_constrained (s1\<lparr>m_memory := mem\<rparr>) mem_value;
             let aligned_offset = m_pc s2 - aligned_pc;
             assert_that (is_multiple_of (m_pc s2) 4);
             let instruction_value = ucast (drop_bit (unat (aligned_offset * 8)) (value mem_value) AND 0xFFFFFFFF);
             (case m_decoded_instruction_cache s2 instruction_value of
               Some cached \<Rightarrow> Some (Inr cached, s2)
             | None \<Rightarrow> do {
                 decoded \<leftarrow> process_instruction instruction_value;
                 Some (Inr decoded, s2\<lparr>m_decoded_instruction_cache :=
                   (m_decoded_instruction_cache s2)(instruction_value \<mapsto> decoded)\<rparr>)
               })
           }))"

end
