(* ===== verification/Core_VM.thy ===== *)
theory Core_VM
  imports Minimal_Executor
begin

text \<open>
  The core virtual machine (\<open>vm.rs\<close>, \<open>vm/results.rs\<close>), which replays a trace chunk: it has registers
  but no memory, and takes the result of every memory access from the chunk's reads. The state is the
  record \<open>CoreVM\<close>, with the fields of the struct prefixed with \<open>c_\<close>; the options and the proof nonce,
  which no function here reads, are left out. Functions that return \<open>Result<_, ExecutionError>\<close> have
  an \<open>outcome\<close>; the others return \<open>None\<close> when they panic.

  The execution of \<open>ECALL\<close> and the system calls are in \<open>Core_Syscall\<close>. The helper \<open>sign_extend_imm\<close>
  has the same text in \<open>vm.rs\<close> and in the minimal executor and is shared.
\<close>

subsection \<open>The state and the results\<close>

record CoreVM =
  c_registers :: "nat \<Rightarrow> MemoryRecord"
  c_clk :: u64
  c_global_clk :: u64
  c_pc :: u64
  c_exit_code :: u32
  c_mem_reads :: "MemValue list"
  c_next_pc :: u64
  c_next_clk :: u64
  c_program :: Program
  c_retained_syscall_codes :: "SyscallCode list"
  c_clk_end :: u64
  c_public_value_digest :: "nat \<Rightarrow> u32"
  c_decoded_instruction_cache :: "u32 \<Rightarrow> Instruction option"
  c_mode :: ExecutionMode

datatype MaybeImmediate = RegisterOperand Register MemoryReadRecord | Immediate u64

record AluResult =
  alu_rd :: Register
  alu_rw_record :: MemoryWriteRecord
  alu_a :: u64
  alu_b :: u64
  alu_c :: u64
  alu_rs1 :: MaybeImmediate
  alu_rs2 :: MaybeImmediate

record JumpResult =
  jump_a :: u64
  jump_b :: u64
  jump_c :: u64
  jump_rd :: Register
  jump_rd_record :: MemoryWriteRecord
  jump_rs1 :: MaybeImmediate

record BranchResult =
  br_a :: u64
  br_rs1 :: Register
  br_a_record :: MemoryReadRecord
  br_b :: u64
  br_rs2 :: Register
  br_b_record :: MemoryReadRecord
  br_c :: u64

record UTypeResult =
  ut_a :: u64
  ut_b :: u64
  ut_c :: u64
  ut_rd :: Register
  ut_rw_record :: MemoryWriteRecord

text \<open>\<open>LoadResultSupervisor\<close> and \<open>LoadResult\<close>, which has the error besides; likewise for stores.\<close>

record LoadResultSupervisor =
  ld_a :: u64
  ld_b :: u64
  ld_c :: u64
  ld_addr :: u64
  ld_rs1 :: Register
  ld_mr_record :: MemoryReadRecord
  ld_rd :: Register
  ld_rr_record :: MemoryReadRecord
  ld_rw_record :: MemoryWriteRecord

record LoadResult = LoadResultSupervisor +
  ld_error :: "TrapError option"

record StoreResultSupervisor =
  st_a :: u64
  st_b :: u64
  st_c :: u64
  st_addr :: u64
  st_rs1 :: Register
  st_rs1_record :: MemoryReadRecord
  st_rs2 :: Register
  st_rs2_record :: MemoryReadRecord
  st_mw_record :: MemoryWriteRecord

record StoreResult = StoreResultSupervisor +
  st_error :: "TrapError option"

record FetchResult =
  fetch_pc :: u64
  fetch_instruction :: "Instruction option"
  fetch_mr_record :: "MemoryReadRecord option"
  fetch_error :: "TrapError option"

datatype CycleResult = Done bool | TraceEnd | ShardBoundary

subsection \<open>Construction and clocks\<close>

definition core_new ::
    "ExecutionMode \<Rightarrow> TraceChunk \<Rightarrow> Program \<Rightarrow> SyscallCode list \<Rightarrow> CoreVM option" where
  "core_new mode trace program retained = do {
     let start_clk = clk_start trace;
     let start_pc = pc_start trace;
     assert_that (clk_start trace = 1 \<longrightarrow> pc_start trace = pc_start_abs program);
     Some \<lparr>c_registers = (\<lambda>i. \<lparr>mr_timestamp = start_clk - 1, mr_value = start_registers trace i\<rparr>),
       c_clk = start_clk, c_global_clk = 0, c_pc = start_pc, c_exit_code = 0,
       c_mem_reads = mem_reads trace, c_next_pc = start_pc + PC_INC,
       c_next_clk = start_clk + CLK_INC, c_program = program, c_retained_syscall_codes = retained,
       c_clk_end = clk_end trace, c_public_value_digest = (\<lambda>_. 0),
       c_decoded_instruction_cache = Map.empty, c_mode = mode\<rparr>
   }"

definition timestamp :: "CoreVM \<Rightarrow> MemoryAccessPosition \<Rightarrow> u64" where
  "timestamp c position = c_clk c + position_num position"

definition is_trace_end :: "CoreVM \<Rightarrow> bool" where
  "is_trace_end c \<longleftrightarrow> c_clk_end c = c_clk c"

definition core_is_done :: "CoreVM \<Rightarrow> bool" where
  "core_is_done c \<longleftrightarrow> c_pc c = HALT_PC"

definition is_retained_syscall :: "CoreVM \<Rightarrow> SyscallCode \<Rightarrow> bool" where
  "is_retained_syscall c code \<longleftrightarrow> code \<in> set (c_retained_syscall_codes c)"

definition advance :: "CoreVM \<Rightarrow> CycleResult \<times> CoreVM" where
  "advance c = (
     let c1 = c\<lparr>c_clk := c_next_clk c, c_pc := c_next_pc c\<rparr>;
         c2 = c1\<lparr>c_next_clk := c_clk c1 + CLK_INC, c_next_pc := c_pc c1 + PC_INC,
                 c_global_clk := c_global_clk c1 + 1\<rparr>
     in (if c_pc c2 = HALT_PC then Done True
         else if is_trace_end c2 then TraceEnd
         else Done False, c2))"

definition needs_bump_clk_high :: "CoreVM \<Rightarrow> bool" where
  "needs_bump_clk_high c \<longleftrightarrow> drop_bit 24 (c_next_clk c) XOR drop_bit 24 (c_clk c) > 0"

definition needs_state_bump :: "CoreVM \<Rightarrow> Instruction \<Rightarrow> bool" where
  "needs_state_bump c instruction = (
     let increment = c_next_clk c + 8 - c_clk c;
         bump1 = (c_clk c mod 2 ^ 24 + increment \<ge> 2 ^ 24);
         bump2 = (\<not> is_with_correct_next_pc instruction \<and> c_next_pc c = c_pc c + 4 \<and>
                  drop_bit 16 (c_next_pc c) \<noteq> drop_bit 16 (c_pc c))
     in bump1 \<or> bump2)"

subsection \<open>Registers and the reads of the chunk\<close>

definition core_rr :: "CoreVM \<Rightarrow> Register \<Rightarrow> MemoryAccessPosition \<Rightarrow> MemoryReadRecord \<times> CoreVM" where
  "core_rr c register position = (
     let prev_record = c_registers c (reg_idx register);
         new_record = \<lparr>mr_timestamp = timestamp c position, mr_value = mr_value prev_record\<rparr>
     in (\<lparr>rd_value = mr_value new_record, rd_timestamp = mr_timestamp new_record,
          rd_prev_timestamp = mr_timestamp prev_record, rd_prev_page_prot_record = None\<rparr>,
         c\<lparr>c_registers := (c_registers c)(reg_idx register := new_record)\<rparr>))"

definition rr_peek :: "CoreVM \<Rightarrow> Register \<Rightarrow> MemoryAccessPosition \<Rightarrow> MemoryReadRecord" where
  "rr_peek c register position = fst (core_rr c register position)"

definition core_rw :: "CoreVM \<Rightarrow> Register \<Rightarrow> u64 \<Rightarrow> MemoryWriteRecord \<times> CoreVM" where
  "core_rw c register v = (
     let v = (if register = X0 then 0 else v);
         prev_record = c_registers c (reg_idx register);
         new_record = \<lparr>mr_timestamp = timestamp c A_position, mr_value = v\<rparr>
     in (\<lparr>wr_prev_timestamp = mr_timestamp prev_record, wr_prev_page_prot_record = None,
          wr_prev_value = mr_value prev_record, wr_timestamp = mr_timestamp new_record,
          wr_value = mr_value new_record\<rparr>,
         c\<lparr>c_registers := (c_registers c)(reg_idx register := new_record)\<rparr>))"

definition bump_register :: "CoreVM \<Rightarrow> nat \<Rightarrow> MemoryReadRecord \<times> CoreVM" where
  "bump_register c register = (
     let prev_record = c_registers c register;
         new_record = \<lparr>mr_timestamp = c_clk c - 1, mr_value = mr_value prev_record\<rparr>
     in (\<lparr>rd_value = mr_value new_record, rd_timestamp = mr_timestamp new_record,
          rd_prev_timestamp = mr_timestamp prev_record, rd_prev_page_prot_record = None\<rparr>,
         c\<lparr>c_registers := (c_registers c)(register := new_record)\<rparr>))"

primrec bump_registers :: "CoreVM \<Rightarrow> nat list \<Rightarrow> MemoryReadRecord list \<times> CoreVM" where
  "bump_registers c [] = ([], c)"
| "bump_registers c (i # is) = (
     let (r, c1) = bump_register c i; (rs, c2) = bump_registers c1 is in (r # rs, c2))"

definition register_refresh :: "CoreVM \<Rightarrow> MemoryReadRecord list \<times> CoreVM" where
  "register_refresh c = bump_registers c [0..<32]"

text \<open>\<open>self.mem_reads.next()\<close>, where the code panics when the reads are exhausted.\<close>

definition next_read :: "CoreVM \<Rightarrow> (MemValue \<times> CoreVM) option" where
  "next_read c = (case c_mem_reads c of
      [] \<Rightarrow> None
    | v # vs \<Rightarrow> Some (v, c\<lparr>c_mem_reads := vs\<rparr>))"

subsection \<open>Instructions, in both modes\<close>

definition core_execute_alu :: "CoreVM \<Rightarrow> Instruction \<Rightarrow> (AluResult \<times> CoreVM) option" where
  "core_execute_alu c instruction = do {
     (rd, b, cc, rs1, rs2, c1) \<leftarrow> (
       if \<not> imm_c instruction then do {
         (rd, rs1, rs2) \<leftarrow> r_type instruction;
         let (cr, c1) = core_rr c rs2 C_position;
         let (br, c2) = core_rr c1 rs1 B_position;
         Some (rd, rd_value br, rd_value cr, RegisterOperand rs1 br, RegisterOperand rs2 cr, c2)
       } else if \<not> imm_b instruction \<and> imm_c instruction then do {
         (rd, rs1, imm) \<leftarrow> i_type instruction;
         let (br, c1) = core_rr c rs1 B_position;
         Some (rd, rd_value br, imm, RegisterOperand rs1 br, Immediate imm, c1)
       } else do {
         rd \<leftarrow> from_u8 (op_a instruction);
         Some (rd, op_b instruction, op_c instruction, Immediate (op_b instruction),
               Immediate (op_c instruction), c)
       });
     a \<leftarrow> core_alu (opcode instruction) b cc;
     let (rw_record, c2) = core_rw c1 rd a;
     Some (\<lparr>alu_rd = rd, alu_rw_record = rw_record, alu_a = a, alu_b = b, alu_c = cc,
            alu_rs1 = rs1, alu_rs2 = rs2\<rparr>, c2)
   }"

definition core_execute_jump :: "CoreVM \<Rightarrow> Instruction \<Rightarrow> (JumpResult \<times> CoreVM) option" where
  "core_execute_jump c instruction =
    (if opcode instruction = JAL then do {
       (rd, imm) \<leftarrow> j_type instruction;
       let imm_se = sign_extend_imm imm 21;
       let a = c_pc c + 4;
       let (rd_record, c1) = core_rw c rd a;
       let next_pc = c_pc c1 + imm_se;
       Some (\<lparr>jump_a = a, jump_b = imm_se, jump_c = 0, jump_rd = rd, jump_rd_record = rd_record,
              jump_rs1 = Immediate imm_se\<rparr>, c1\<lparr>c_next_pc := next_pc\<rparr>)
     } else if opcode instruction = JALR then do {
       (rd, rs1, imm) \<leftarrow> i_type instruction;
       let imm_se = sign_extend_imm imm 12;
       let (b_record, c1) = core_rr c rs1 B_position;
       let a = c_pc c1 + 4;
       let next_pc = (rd_value b_record + imm_se) AND NOT 1;
       let (rd_record, c2) = core_rw c1 rd a;
       Some (\<lparr>jump_a = a, jump_b = rd_value b_record, jump_c = imm, jump_rd = rd,
              jump_rd_record = rd_record, jump_rs1 = RegisterOperand rs1 b_record\<rparr>,
             c2\<lparr>c_next_pc := next_pc\<rparr>)
     } else None)"

definition core_execute_branch :: "CoreVM \<Rightarrow> Instruction \<Rightarrow> (BranchResult \<times> CoreVM) option" where
  "core_execute_branch c instruction = do {
     (rs1, rs2, imm) \<leftarrow> b_type instruction;
     let (b_record, c1) = core_rr c rs2 B_position;
     let (a_record, c2) = core_rr c1 rs1 A_position;
     let a = rd_value a_record;
     let b = rd_value b_record;
     branch \<leftarrow> (case opcode instruction of
         BEQ \<Rightarrow> Some (a = b)
       | BNE \<Rightarrow> Some (a \<noteq> b)
       | BLT \<Rightarrow> Some (a <s b)
       | BGE \<Rightarrow> Some (b \<le>s a)
       | BLTU \<Rightarrow> Some (a < b)
       | BGEU \<Rightarrow> Some (a \<ge> b)
       | _ \<Rightarrow> None);
     let c3 = (if branch then c2\<lparr>c_next_pc := c_pc c2 + imm\<rparr> else c2);
     Some (\<lparr>br_a = a, br_rs1 = rs1, br_a_record = a_record, br_b = b, br_rs2 = rs2,
            br_b_record = b_record, br_c = imm\<rparr>, c3)
   }"

definition core_execute_utype :: "CoreVM \<Rightarrow> Instruction \<Rightarrow> (UTypeResult \<times> CoreVM) option" where
  "core_execute_utype c instruction = do {
     (rd, imm) \<leftarrow> u_type instruction;
     let a = (if opcode instruction = AUIPC then c_pc c + imm else imm);
     let (a_record, c1) = core_rw c rd a;
     Some (\<lparr>ut_a = a, ut_b = imm, ut_c = imm, ut_rd = rd, ut_rw_record = a_record\<rparr>, c1)
   }"

definition read_code :: "CoreVM \<Rightarrow> SyscallCode option" where
  "read_code c = from_u32 (ucast (mr_value (c_registers c (reg_idx X5))))"

subsection \<open>Loads and stores in supervisor mode\<close>

definition core_fetch_supervisor :: "CoreVM \<Rightarrow> Instruction option" where
  "core_fetch_supervisor c = fetch (c_program c) (c_pc c)"

definition core_mr :: "CoreVM \<Rightarrow> (MemoryReadRecord \<times> CoreVM) option" where
  "core_mr c = do {
     (v, c1) \<leftarrow> next_read c;
     Some (\<lparr>rd_value = value v, rd_timestamp = timestamp c1 Memory_position,
            rd_prev_timestamp = clk v, rd_prev_page_prot_record = None\<rparr>, c1)
   }"

definition core_mw :: "CoreVM \<Rightarrow> MemoryReadRecord \<Rightarrow> u64 \<Rightarrow> MemoryWriteRecord" where
  "core_mw c read_record v =
    \<lparr>wr_prev_timestamp = rd_prev_timestamp read_record, wr_prev_page_prot_record = None,
     wr_prev_value = rd_value read_record, wr_timestamp = timestamp c Memory_position, wr_value = v\<rparr>"

definition core_execute_load_supervisor ::
    "CoreVM \<Rightarrow> Instruction \<Rightarrow> (ExecutionError, LoadResultSupervisor \<times> CoreVM) outcome" where
  "core_execute_load_supervisor c instruction =
    and_then (unwrap (i_type instruction)) (\<lambda>(rd, rs1, imm).
    let (rr_record, c1) = core_rr c rs1 B_position;
        b = rd_value rr_record;
        addr = b + imm
    in and_then (unwrap (core_mr c1)) (\<lambda>(mr_record, c2).
    let word = rd_value mr_record
    in and_then (compute_load_value (opcode instruction) addr word) (\<lambda>a.
    let (rw_record, c3) = core_rw c2 rd a
    in Ok (\<lparr>ld_a = a, ld_b = b, ld_c = imm, ld_addr = addr, ld_rs1 = rs1,
            ld_mr_record = mr_record, ld_rd = rd, ld_rr_record = rr_record,
            ld_rw_record = rw_record\<rparr>, c3))))"

definition core_execute_store_supervisor ::
    "CoreVM \<Rightarrow> Instruction \<Rightarrow> (ExecutionError, StoreResultSupervisor \<times> CoreVM) outcome" where
  "core_execute_store_supervisor c instruction =
    and_then (unwrap (s_type instruction)) (\<lambda>(rs1, rs2, imm).
    let (rs2_record, c1) = core_rr c rs2 B_position;
        (rs1_record, c2) = core_rr c1 rs1 A_position;
        b = rd_value rs2_record;
        a = rd_value rs1_record;
        addr = b + imm
    in and_then (unwrap (core_mr c2)) (\<lambda>(mr_record, c3).
    let word = rd_value mr_record
    in and_then (compute_store_value (opcode instruction) a addr word) (\<lambda>memory_store_value.
    let mw_record = core_mw c3 mr_record memory_store_value
    in Ok (\<lparr>st_a = a, st_b = b, st_c = imm, st_addr = addr, st_rs1 = rs1,
            st_rs1_record = rs1_record, st_rs2 = rs2, st_rs2_record = rs2_record,
            st_mw_record = mw_record\<rparr>, c3))))"

subsection \<open>Default methods of the system-call runtime\<close>

text \<open>The methods of the trait \<open>SyscallRuntime\<close> (\<open>vm/syscall.rs\<close>) that access memory, registers and page
  permissions, with the bodies the trait gives them, as the core VM uses them. Here \<open>take\<close> is the
  iterator's: it stops without an error when the reads are exhausted.\<close>

definition core_page_prot_write ::
    "CoreVM \<Rightarrow> u64 \<Rightarrow> u8 \<Rightarrow> (PageProtRecord \<times> CoreVM) option" where
  "core_page_prot_write c i prot = do {
     let addr = push_bit LOG_PAGE_SIZE i;
     (lo, hi) \<leftarrow> untrusted_memory (c_program c);
     assert_that (addr \<ge> lo \<and> addr < hi);
     (v, c1) \<leftarrow> next_read c;
     prev_value \<leftarrow> page_prot_of_mem v;
     Some (\<lparr>external_flag = False, pr_timestamp = pp_timestamp prev_value, page_idx = i,
            page_prot = pp_value prev_value\<rparr>, c1)
   }"

definition core_page_prot_check ::
    "elf_abi \<Rightarrow> CoreVM \<Rightarrow> u64 \<Rightarrow> u8 \<Rightarrow> ((PageProtRecord option \<times> TrapError option) \<times> CoreVM) option" where
  "core_page_prot_check e c i bitmap =
    (if PAGE_PROTECTION_ENABLED (c_mode c) then do {
       (v, c1) \<leftarrow> next_read c;
       prot_value \<leftarrow> page_prot_of_mem v;
       let record = \<lparr>external_flag = False, pr_timestamp = pp_timestamp prot_value, page_idx = i,
                     page_prot = pp_value prot_value\<rparr>;
       Some ((Some record,
         if bitmap AND PROT_EXEC e \<noteq> 0 \<and> pp_value prot_value AND PROT_EXEC e = 0
         then Some (PagePermissionViolation PROT_FAILURE_EXEC)
         else if bitmap AND PROT_READ e \<noteq> 0 \<and> pp_value prot_value AND PROT_READ e = 0
         then Some (PagePermissionViolation PROT_FAILURE_READ)
         else if bitmap AND PROT_WRITE e \<noteq> 0 \<and> pp_value prot_value AND PROT_WRITE e = 0
         then Some (PagePermissionViolation PROT_FAILURE_WRITE)
         else None), c1)
     } else Some ((None, None), c))"

primrec core_page_prot_checks ::
    "elf_abi \<Rightarrow> u8 \<Rightarrow> CoreVM \<Rightarrow> u64 list \<Rightarrow> ((PageProtRecord list \<times> TrapError option) \<times> CoreVM) option" where
  "core_page_prot_checks e bitmap c [] = Some (([], None), c)"
| "core_page_prot_checks e bitmap c (i # is) = do {
     ((result, error), c1) \<leftarrow> core_page_prot_check e c i bitmap;
     record \<leftarrow> result;
     if error \<noteq> None then Some (([record], error), c1)
     else do {
       ((records, error), c2) \<leftarrow> core_page_prot_checks e bitmap c1 is;
       Some ((record # records, error), c2)
     }
   }"

definition core_page_prot_range_check ::
    "elf_abi \<Rightarrow> CoreVM \<Rightarrow> u64 \<Rightarrow> u64 \<Rightarrow> u8 \<Rightarrow> ((PageProtRecord list \<times> TrapError option) \<times> CoreVM) option" where
  "core_page_prot_range_check e c start_page_idx end_page_idx bitmap =
    (if \<not> PAGE_PROTECTION_ENABLED (c_mode c) then Some (([], None), c)
     else core_page_prot_checks e bitmap c (page_range start_page_idx end_page_idx))"

definition core_mr_without_prot :: "CoreVM \<Rightarrow> u64 \<Rightarrow> (MemoryReadRecord \<times> CoreVM) option" where
  "core_mr_without_prot c addr = do {
     (v, c1) \<leftarrow> next_read c;
     Some (\<lparr>rd_value = value v, rd_timestamp = c_clk c1, rd_prev_timestamp = clk v,
            rd_prev_page_prot_record = None\<rparr>, c1)
   }"

definition core_mw_without_prot :: "CoreVM \<Rightarrow> u64 \<Rightarrow> (MemoryWriteRecord \<times> CoreVM) option" where
  "core_mw_without_prot c addr = do {
     (old, c1) \<leftarrow> next_read c;
     (new, c2) \<leftarrow> next_read c1;
     Some (\<lparr>wr_prev_timestamp = clk old, wr_prev_page_prot_record = None, wr_prev_value = value old,
            wr_timestamp = c_clk c2, wr_value = value new\<rparr>, c2)
   }"

text \<open>\<open>mem_reads().take(len)\<close>.\<close>

definition take_reads :: "CoreVM \<Rightarrow> nat \<Rightarrow> MemValue list \<times> CoreVM" where
  "take_reads c len = (take len (c_mem_reads c), c\<lparr>c_mem_reads := drop len (c_mem_reads c)\<rparr>)"

definition core_mr_slice_without_prot :: "CoreVM \<Rightarrow> u64 \<Rightarrow> nat \<Rightarrow> MemoryReadRecord list \<times> CoreVM" where
  "core_mr_slice_without_prot c addr len = (
     let current_clk = c_clk c;
         (vs, c1) = take_reads c len
     in (map (\<lambda>v. \<lparr>rd_value = value v, rd_timestamp = current_clk, rd_prev_timestamp = clk v,
                   rd_prev_page_prot_record = None\<rparr>) vs, c1))"

text \<open>The first and the last element of each of \<open>chunks(2)\<close>.\<close>

fun chunks2 :: "'a list \<Rightarrow> ('a \<times> 'a) list" where
  "chunks2 [] = []"
| "chunks2 [x] = [(x, x)]"
| "chunks2 (x # y # xs) = (x, y) # chunks2 xs"

definition core_mw_slice_without_prot :: "CoreVM \<Rightarrow> u64 \<Rightarrow> nat \<Rightarrow> MemoryWriteRecord list \<times> CoreVM" where
  "core_mw_slice_without_prot c addr len = (
     let (raw_records, c1) = take_reads c (len * 2)
     in (map (\<lambda>(old, new). \<lparr>wr_prev_timestamp = clk old, wr_prev_page_prot_record = None,
                  wr_prev_value = value old, wr_timestamp = clk new, wr_value = value new\<rparr>)
           (chunks2 raw_records), c1))"

definition core_rt_rr :: "CoreVM \<Rightarrow> nat \<Rightarrow> (MemoryReadRecord \<times> CoreVM) option" where
  "core_rt_rr c register = do {
     r \<leftarrow> from_u8 (of_nat register);
     Some (core_rr c r UntrustedInstruction)
   }"

definition core_rt_rw :: "CoreVM \<Rightarrow> nat \<Rightarrow> u64 \<Rightarrow> (MemoryWriteRecord \<times> CoreVM) option" where
  "core_rt_rw c register v = do {
     r \<leftarrow> from_u8 (of_nat register);
     Some (core_rw c r v)
   }"

subsection \<open>Traps\<close>

record TrapResult =
  trap_context_address :: u64
  code_record :: MemoryWriteRecord
  pc_record :: MemoryWriteRecord
  handler_record :: MemoryReadRecord

definition core_handle_error :: "CoreVM \<Rightarrow> TrapError \<Rightarrow> (ExecutionError, TrapResult \<times> CoreVM) outcome" where
  "core_handle_error c e = (case e of PagePermissionViolation code \<Rightarrow>
     (case trap_context (c_program c) of
       None \<Rightarrow> Err (UnhandledTrap e)
     | Some ctx \<Rightarrow> unwrap (do {
         (handler, c1) \<leftarrow> core_mr_without_prot c ctx;
         let c2 = c1\<lparr>c_next_pc := rd_value handler\<rparr>;
         (code_rec, c3) \<leftarrow> core_mw_without_prot c2 (ctx + 8);
         assert_that (wr_value code_rec = code);
         (pc_rec, c4) \<leftarrow> core_mw_without_prot c3 (ctx + 16);
         Some (\<lparr>trap_context_address = ctx, code_record = code_rec, pc_record = pc_rec,
                handler_record = handler\<rparr>, c4)
       })))"

subsection \<open>Fetches, loads and stores in user mode\<close>

definition core_mr_instr :: "elf_abi \<Rightarrow> CoreVM \<Rightarrow> u64 \<Rightarrow> u8 \<Rightarrow> MemoryAccessPosition \<Rightarrow>
    ((MemoryReadRecord \<times> TrapError option) \<times> CoreVM) option" where
  "core_mr_instr e c addr bitmap position = do {
     ((prot_record, error), c1) \<leftarrow> core_page_prot_check e c (drop_bit LOG_PAGE_SIZE addr) bitmap;
     if error \<noteq> None then
       Some ((\<lparr>rd_value = 0, rd_timestamp = timestamp c1 position, rd_prev_timestamp = 0,
               rd_prev_page_prot_record = prot_record\<rparr>, error), c1)
     else do {
       (v, c2) \<leftarrow> next_read c1;
       Some ((\<lparr>rd_value = value v, rd_timestamp = timestamp c2 position, rd_prev_timestamp = clk v,
               rd_prev_page_prot_record = prot_record\<rparr>, None), c2)
     }
   }"

definition core_mw_instr :: "elf_abi \<Rightarrow> CoreVM \<Rightarrow> u64 \<Rightarrow> MemoryAccessPosition \<Rightarrow>
    ((MemoryWriteRecord \<times> TrapError option) \<times> CoreVM) option" where
  "core_mw_instr e c addr position = do {
     ((prot_record, error), c1) \<leftarrow> core_page_prot_check e c (drop_bit LOG_PAGE_SIZE addr) (PROT_WRITE e);
     if error \<noteq> None then
       Some ((\<lparr>wr_prev_timestamp = 0, wr_prev_page_prot_record = prot_record, wr_prev_value = 0,
               wr_timestamp = timestamp c1 position, wr_value = 0\<rparr>, error), c1)
     else do {
       (old, c2) \<leftarrow> next_read c1;
       Some ((\<lparr>wr_prev_timestamp = clk old, wr_prev_page_prot_record = prot_record,
               wr_prev_value = value old, wr_timestamp = timestamp c2 position, wr_value = 0\<rparr>, None), c2)
     }
   }"

definition core_fetch_user :: "elf_abi \<Rightarrow> (u32 \<Rightarrow> Instruction option) \<Rightarrow> CoreVM \<Rightarrow>
    (ExecutionError, FetchResult \<times> CoreVM) outcome" where
  "core_fetch_user e process_instruction c = (case fetch (c_program c) (c_pc c) of
      Some instruction \<Rightarrow>
        Ok (\<lparr>fetch_pc = c_pc c, fetch_instruction = Some instruction, fetch_mr_record = None,
             fetch_error = None\<rparr>, c)
    | None \<Rightarrow>
        let aligned_pc = c_pc c AND NOT 7
        in and_then (unwrap (core_mr_instr e c aligned_pc (PROT_READ e OR PROT_EXEC e) UntrustedInstruction))
             (\<lambda>((mr_record, error), c1).
             if error \<noteq> None then
               Ok (\<lparr>fetch_pc = c_pc c1, fetch_instruction = None, fetch_mr_record = Some mr_record,
                    fetch_error = error\<rparr>, c1)
             else
               let word = rd_value mr_record
               in if \<not> is_multiple_of (c_pc c1) 4
                  then Err (InvalidMemoryAccessUntrustedProgram (c_pc c1))
                  else
                    let aligned_offset = c_pc c1 - aligned_pc;
                        instruction_value = ucast (drop_bit (unat (aligned_offset * 8)) word AND 0xFFFFFFFF)
                    in unwrap (do {
                         (instruction, c2) \<leftarrow> (case c_decoded_instruction_cache c1 instruction_value of
                             Some cached \<Rightarrow> Some (cached, c1)
                           | None \<Rightarrow> do {
                               instruction \<leftarrow> process_instruction instruction_value;
                               Some (instruction, c1\<lparr>c_decoded_instruction_cache :=
                                 (c_decoded_instruction_cache c1)(instruction_value \<mapsto> instruction)\<rparr>)
                             });
                         Some (\<lparr>fetch_pc = c_pc c2, fetch_instruction = Some instruction,
                                fetch_mr_record = Some mr_record, fetch_error = None\<rparr>, c2)
                       })))"

definition core_execute_load_user ::
    "elf_abi \<Rightarrow> CoreVM \<Rightarrow> Instruction \<Rightarrow> (ExecutionError, LoadResult \<times> CoreVM) outcome" where
  "core_execute_load_user e c instruction =
    and_then (unwrap (i_type instruction)) (\<lambda>(rd, rs1, imm).
    let (rr_record, c1) = core_rr c rs1 B_position;
        b = rd_value rr_record;
        addr = b + imm
    in and_then (unwrap (core_mr_instr e c1 addr (PROT_READ e) Memory_position)) (\<lambda>((mr_record, error), c2).
    let word = rd_value mr_record
    in and_then (compute_load_value (opcode instruction) addr word) (\<lambda>v.
    let a = (if error \<noteq> None then mr_value (c_registers c2 (reg_idx rd)) else v);
        (rw_record, c3) = core_rw c2 rd a
    in Ok (\<lparr>ld_a = a, ld_b = b, ld_c = imm, ld_addr = addr, ld_rs1 = rs1,
            ld_mr_record = mr_record, ld_rd = rd, ld_rr_record = rr_record,
            ld_rw_record = rw_record, ld_error = error\<rparr>, c3))))"

definition core_execute_store_user ::
    "elf_abi \<Rightarrow> CoreVM \<Rightarrow> Instruction \<Rightarrow> (ExecutionError, StoreResult \<times> CoreVM) outcome" where
  "core_execute_store_user e c instruction =
    and_then (unwrap (s_type instruction)) (\<lambda>(rs1, rs2, imm).
    let (rs2_record, c1) = core_rr c rs2 B_position;
        (rs1_record, c2) = core_rr c1 rs1 A_position;
        b = rd_value rs2_record;
        a = rd_value rs1_record;
        addr = b + imm
    in and_then (unwrap (core_mw_instr e c2 addr Memory_position)) (\<lambda>((mw_record, error), c3).
    let word = wr_prev_value mw_record
    in and_then (compute_store_value (opcode instruction) a addr word) (\<lambda>memory_store_value.
    Ok (\<lparr>st_a = a, st_b = b, st_c = imm, st_addr = addr, st_rs1 = rs1,
         st_rs1_record = rs1_record, st_rs2 = rs2, st_rs2_record = rs2_record,
         st_mw_record = mw_record\<lparr>wr_value := memory_store_value\<rparr>, st_error = error\<rparr>, c3))))"

end
