(* ===== verification/Precompile_Arith.thy ===== *)
theory Precompile_Arith
  imports Trace_Chunk
begin

text \<open>
  The arithmetic of the precompiles of the minimal executor (\<open>minimal/precompiles/\<close>), as functions on
  the words they read: 256-bit multiplication modulo a number, multiply-add with carry, the field
  and quadratic-extension operations of the BN254 and BLS12-381 base fields, the affine-point
  encoding, and the two halves of SHA-256. Values of \<open>num::BigUint\<close> are natural numbers.

  The lemmas state what the words that are written back denote.
\<close>

subsection \<open>Numbers and digits\<close>

text \<open>\<open>BigUint::from_bytes_le\<close>, \<open>BigUint::from_slice\<close> and their 64-bit analogue.\<close>

definition biguint :: "'a :: len word list \<Rightarrow> nat" where
  "biguint ds = foldr (\<lambda>d n. unat d + 2 ^ LENGTH('a) * n) ds 0"

fun to_u64_digits :: "nat \<Rightarrow> u64 list" where
  "to_u64_digits n = (if n = 0 then [] else of_nat (n mod 2 ^ 64) # to_u64_digits (n div 2 ^ 64))"

declare to_u64_digits.simps [simp del]

fun byte_digits :: "nat \<Rightarrow> u8 list" where
  "byte_digits n = (if n = 0 then [] else of_nat (n mod 256) # byte_digits (n div 256))"

declare byte_digits.simps [simp del]

text \<open>\<open>to_bytes_le\<close> gives one byte for zero.\<close>

definition to_bytes_le :: "nat \<Rightarrow> u8 list" where
  "to_bytes_le n = (if n = 0 then [0] else byte_digits n)"

definition vec_resize :: "nat \<Rightarrow> 'a \<Rightarrow> 'a list \<Rightarrow> 'a list" where
  "vec_resize n x xs = take n xs @ replicate (n - length xs) x"

definition words_to_bytes_le :: "u64 list \<Rightarrow> u8 list" where
  "words_to_bytes_le words = concat (map to_le_bytes words)"

definition bytes_to_words_le :: "u8 list \<Rightarrow> u64 list" where
  "bytes_to_words_le bytes = map from_le_bytes (as_chunks 8 bytes)"

definition u64_to_u32 :: "u64 list \<Rightarrow> u32 list" where
  "u64_to_u32 limbs = concat (map (\<lambda>n. [ucast n, ucast (drop_bit 32 n)]) limbs)"

subsection \<open>256-bit integers\<close>

definition uint256_mul_result :: "u64 list \<Rightarrow> u64 list \<Rightarrow> u64 list" where
  "uint256_mul_result x_words y_and_modulus_words = (
     let x = biguint (words_to_bytes_le x_words);
         y_and_modulus = words_to_bytes_le y_and_modulus_words;
         y = biguint (take 32 y_and_modulus);
         modulus = biguint (drop 32 y_and_modulus);
         result = (if modulus = 0 then (x * y) mod 2 ^ 256 else (x * y) mod modulus)
     in bytes_to_words_le (vec_resize 32 0 (to_bytes_le result)))"

definition uint256_ops_result :: "Uint256Operation \<Rightarrow> u64 list \<Rightarrow> u64 list \<Rightarrow> u64 list \<Rightarrow> u64 list" where
  "uint256_ops_result op a b c = (
     let a = biguint (u64_to_u32 a); b = biguint (u64_to_u32 b); c = biguint (u64_to_u32 c);
         intermediate_result = (case op of U256_Add \<Rightarrow> a + b + c | U256_Mul \<Rightarrow> a * b + c)
     in vec_resize 8 0 (to_u64_digits intermediate_result))"

subsection \<open>Base fields and their quadratic extensions\<close>

datatype base_field = Bn254BaseField | Bls12381BaseField

definition Bn254_MODULUS :: "u8 list" where
  "Bn254_MODULUS =
    [71, 253, 124, 216, 22, 140, 32, 60, 141, 202, 113, 104, 145, 106, 129, 151, 93, 88, 129,
     129, 182, 69, 80, 184, 41, 160, 49, 225, 114, 78, 100, 48]"

definition Bls12381_MODULUS :: "u8 list" where
  "Bls12381_MODULUS =
    [171, 170, 255, 255, 255, 255, 254, 185, 255, 255, 83, 177, 254, 255, 171, 30, 36, 246, 176,
     246, 160, 210, 48, 103, 191, 18, 133, 243, 132, 75, 119, 100, 215, 172, 75, 67, 182, 167,
     27, 75, 154, 230, 127, 57, 234, 17, 1, 26]"

text \<open>The constant of the trait \<open>FieldParameters\<close>, for the two fields.\<close>

primrec MODULUS :: "base_field \<Rightarrow> u8 list" where
  "MODULUS Bn254BaseField = Bn254_MODULUS"
| "MODULUS Bls12381BaseField = Bls12381_MODULUS"

definition Bn254_Limbs :: nat where
  "Bn254_Limbs = 32"

definition Bls12381_Limbs :: nat where
  "Bls12381_Limbs = 48"

declare Bn254_MODULUS_def [simp] Bls12381_MODULUS_def [simp] Bn254_Limbs_def [simp] Bls12381_Limbs_def [simp]

text \<open>\<open>WordsFieldElement\<close> and \<open>WordsCurvePoint\<close> are the number of limbs over 8 and over 4.\<close>

primrec Limbs :: "base_field \<Rightarrow> nat" where
  "Limbs Bn254BaseField = Bn254_Limbs"
| "Limbs Bls12381BaseField = Bls12381_Limbs"

definition WordsFieldElement :: "base_field \<Rightarrow> nat" where
  "WordsFieldElement P = Limbs P div 8"

definition WordsCurvePoint :: "base_field \<Rightarrow> nat" where
  "WordsCurvePoint P = Limbs P div 4"

definition fp_op_result :: "base_field \<Rightarrow> FieldOperation \<Rightarrow> u64 list \<Rightarrow> u64 list \<Rightarrow> u64 list option" where
  "fp_op_result P op x y = do {
     let modulus = biguint (MODULUS P);
     let a = biguint (u64_to_u32 x) mod modulus;
     let b = biguint (u64_to_u32 y) mod modulus;
     result \<leftarrow> (case op of
         Op_Add \<Rightarrow> Some ((a + b) mod modulus)
       | Op_Sub \<Rightarrow> do { assert_that (b \<le> a + modulus); Some ((a + modulus - b) mod modulus) }
       | Op_Mul \<Rightarrow> Some ((a * b) mod modulus)
       | Op_Div \<Rightarrow> None);
     Some (vec_resize (WordsFieldElement P) 0 (to_u64_digits result))
   }"

text \<open>\<open>x_32.split_at(x_32.len() / 2)\<close>, as numbers; subtraction of \<open>BigUint\<close>s panics on underflow.\<close>

definition halves :: "u64 list \<Rightarrow> nat \<times> nat" where
  "halves ws = (let x_32 = u64_to_u32 ws; h = length x_32 div 2
                in (biguint (take h x_32), biguint (drop h x_32)))"

definition biguint_sub :: "nat \<Rightarrow> nat \<Rightarrow> nat option" where
  "biguint_sub a b = (if b \<le> a then Some (a - b) else None)"

definition fp2_words :: "nat \<Rightarrow> nat \<Rightarrow> nat \<Rightarrow> u64 list" where
  "fp2_words num_words c0 c1 =
    vec_resize num_words 0 (vec_resize (num_words div 2) 0 (to_u64_digits c0) @ to_u64_digits c1)"

definition fp2_addsub_result ::
    "base_field \<Rightarrow> FieldOperation \<Rightarrow> u64 list \<Rightarrow> u64 list \<Rightarrow> u64 list option" where
  "fp2_addsub_result P fp_op x y = do {
     let (ac0, ac1) = halves x;
     let (bc0, bc1) = halves y;
     let modulus = biguint (MODULUS P);
     (c0, c1) \<leftarrow> (case fp_op of
         Op_Add \<Rightarrow> Some ((ac0 + bc0) mod modulus, (ac1 + bc1) mod modulus)
       | Op_Sub \<Rightarrow> do {
           d0 \<leftarrow> biguint_sub (ac0 + modulus) bc0;
           d1 \<leftarrow> biguint_sub (ac1 + modulus) bc1;
           Some (d0 mod modulus, d1 mod modulus)
         }
       | _ \<Rightarrow> None);
     Some (fp2_words (WordsCurvePoint P) c0 c1)
   }"

definition fp2_mul_result :: "base_field \<Rightarrow> u64 list \<Rightarrow> u64 list \<Rightarrow> u64 list option" where
  "fp2_mul_result P x y = do {
     let (ac0, ac1) = halves x;
     let (bc0, bc1) = halves y;
     let modulus = biguint (MODULUS P);
     d0 \<leftarrow> (if (ac0 * bc0) mod modulus < (ac1 * bc1) mod modulus
       then biguint_sub (modulus + (ac0 * bc0) mod modulus) ((ac1 * bc1) mod modulus)
       else biguint_sub ((ac0 * bc0) mod modulus) ((ac1 * bc1) mod modulus));
     let c0 = d0 mod modulus;
     let c1 = ((ac0 * bc1) mod modulus + (ac1 * bc0) mod modulus) mod modulus;
     Some (fp2_words (WordsCurvePoint P) c0 c1)
   }"

subsection \<open>Affine points\<close>

type_synonym affine_point = "nat \<times> nat"

definition from_words_le :: "u64 list \<Rightarrow> affine_point" where
  "from_words_le words =
    (biguint (words_to_bytes_le (take (length words div 2) words)),
     biguint (words_to_bytes_le (drop (length words div 2) words)))"

definition to_words_le :: "nat \<Rightarrow> affine_point \<Rightarrow> u64 list" where
  "to_words_le num_words p = (
     let num_bytes = num_words * 8;
         x_bytes = vec_resize (num_bytes div 2) 0 (to_bytes_le (fst p));
         y_bytes = vec_resize (num_bytes div 2) 0 (to_bytes_le (snd p))
     in bytes_to_words_le x_bytes @ bytes_to_words_le y_bytes)"

subsection \<open>SHA-256\<close>

definition SHA_COMPRESS_K :: "u32 list" where
  "SHA_COMPRESS_K = concat
   [[0x428a2f98, 0x71374491, 0xb5c0fbcf, 0xe9b5dba5, 0x3956c25b, 0x59f111f1, 0x923f82a4, 0xab1c5ed5],
    [0xd807aa98, 0x12835b01, 0x243185be, 0x550c7dc3, 0x72be5d74, 0x80deb1fe, 0x9bdc06a7, 0xc19bf174],
    [0xe49b69c1, 0xefbe4786, 0x0fc19dc6, 0x240ca1cc, 0x2de92c6f, 0x4a7484aa, 0x5cb0a9dc, 0x76f988da],
    [0x983e5152, 0xa831c66d, 0xb00327c8, 0xbf597fc7, 0xc6e00bf3, 0xd5a79147, 0x06ca6351, 0x14292967],
    [0x27b70a85, 0x2e1b2138, 0x4d2c6dfc, 0x53380d13, 0x650a7354, 0x766a0abb, 0x81c2c92e, 0x92722c85],
    [0xa2bfe8a1, 0xa81a664b, 0xc24b8b70, 0xc76c51a3, 0xd192e819, 0xd6990624, 0xf40e3585, 0x106aa070],
    [0x19a4c116, 0x1e376c08, 0x2748774c, 0x34b0bcb5, 0x391c0cb3, 0x4ed8aa4a, 0x5b9cca4f, 0x682e6ff3],
    [0x748f82ee, 0x78a5636f, 0x84c87814, 0x8cc70208, 0x90befffa, 0xa4506ceb, 0xbef9a3f7, 0xc67178f2]]"

text \<open>The word computed from \<open>w[i-15]\<close>, \<open>w[i-2]\<close>, \<open>w[i-16]\<close> and \<open>w[i-7]\<close>.\<close>

definition sha_extend_word :: "u64 \<Rightarrow> u64 \<Rightarrow> u64 \<Rightarrow> u64 \<Rightarrow> u32" where
  "sha_extend_word w15 w2 w16 w7 = (
     let x = ucast w15 :: u32;
         s0 = word_rotr 7 x XOR word_rotr 18 x XOR drop_bit 3 x;
         y = ucast w2 :: u32;
         s1 = word_rotr 17 y XOR word_rotr 19 y XOR drop_bit 10 y
     in s1 + ucast w16 + s0 + ucast w7)"

record sha_vars =
  sha_a :: u32
  sha_b :: u32
  sha_c :: u32
  sha_d :: u32
  sha_e :: u32
  sha_f :: u32
  sha_g :: u32
  sha_h :: u32

definition sha_compress_round :: "u32 \<Rightarrow> u32 \<Rightarrow> sha_vars \<Rightarrow> sha_vars" where
  "sha_compress_round k w_i v = (
     let e = sha_e v; a = sha_a v;
         s1 = word_rotr 6 e XOR word_rotr 11 e XOR word_rotr 25 e;
         ch = (e AND sha_f v) XOR (NOT e AND sha_g v);
         temp1 = sha_h v + s1 + ch + k + w_i;
         s0 = word_rotr 2 a XOR word_rotr 13 a XOR word_rotr 22 a;
         maj = (a AND sha_b v) XOR (a AND sha_c v) XOR (sha_b v AND sha_c v);
         temp2 = s0 + maj
     in \<lparr>sha_a = temp1 + temp2, sha_b = sha_a v, sha_c = sha_b v, sha_d = sha_c v,
         sha_e = sha_d v + temp1, sha_f = sha_e v, sha_g = sha_f v, sha_h = sha_g v\<rparr>)"

definition sha_vars_of :: "u32 list \<Rightarrow> sha_vars" where
  "sha_vars_of hx =
    \<lparr>sha_a = hx ! 0, sha_b = hx ! 1, sha_c = hx ! 2, sha_d = hx ! 3,
     sha_e = hx ! 4, sha_f = hx ! 5, sha_g = hx ! 6, sha_h = hx ! 7\<rparr>"

definition sha_finalize :: "u32 list \<Rightarrow> sha_vars \<Rightarrow> u64 list" where
  "sha_finalize hx v =
    map ucast [sha_a v + hx ! 0, sha_b v + hx ! 1, sha_c v + hx ! 2, sha_d v + hx ! 3,
               sha_e v + hx ! 4, sha_f v + hx ! 5, sha_g v + hx ! 6, sha_h v + hx ! 7]"


subsection \<open>What the digits denote\<close>

lemma biguint_simps [simp]:
  "biguint ([] :: 'a :: len word list) = 0"
  "biguint (d # ds) = unat d + 2 ^ LENGTH('a) * biguint (ds :: 'a :: len word list)"
  by (simp_all add: biguint_def)

lemma biguint_append:
  "biguint (xs @ ys) = biguint xs + 2 ^ (LENGTH('a) * length xs) * biguint (ys :: 'a :: len word list)"
  by (induction xs) (simp_all add: algebra_simps power_add)

lemma biguint_less: "biguint (xs :: 'a :: len word list) < 2 ^ (LENGTH('a) * length xs)"
proof (induction xs)
  case (Cons x xs)
  let ?B = "2 ^ LENGTH('a) :: nat"
  from Cons have "?B * Suc (biguint xs) \<le> ?B * 2 ^ (LENGTH('a) * length xs)"
    by (intro mult_le_mono2) simp
  moreover have "unat x < ?B"
    by (rule unsigned_less)
  ultimately show ?case
    by (simp add: power_add del: unsigned_less)
qed simp

lemma biguint_zeros [simp]: "biguint (replicate n (0 :: 'a :: len word)) = 0"
  by (induction n) simp_all

lemma biguint_take: "biguint (take n xs) = biguint xs mod 2 ^ (LENGTH('a) * n)"
  if "n \<le> length xs" for xs :: "'a :: len word list"
proof -
  have "biguint xs = biguint (take n xs) + 2 ^ (LENGTH('a) * n) * biguint (drop n xs)"
    using biguint_append [of "take n xs" "drop n xs"] that by (simp add: min_absorb2)
  moreover have "biguint (take n xs) < 2 ^ (LENGTH('a) * n)"
    using biguint_less [of "take n xs"] that by (simp add: min_absorb2)
  ultimately show ?thesis
    by simp
qed

lemma biguint_drop: "biguint (drop n xs) = biguint xs div 2 ^ (LENGTH('a) * n)"
  if "n \<le> length xs" for xs :: "'a :: len word list"
proof -
  have "biguint xs = biguint (take n xs) + 2 ^ (LENGTH('a) * n) * biguint (drop n xs)"
    using biguint_append [of "take n xs" "drop n xs"] that by (simp add: min_absorb2)
  moreover have "biguint (take n xs) < 2 ^ (LENGTH('a) * n)"
    using biguint_less [of "take n xs"] that by (simp add: min_absorb2)
  ultimately show ?thesis
    by simp
qed

lemma length_vec_resize [simp]: "length (vec_resize n x xs) = n"
  by (simp add: vec_resize_def)

lemma biguint_vec_resize:
  "biguint (vec_resize n 0 xs) = biguint xs mod 2 ^ (LENGTH('a) * n)" for xs :: "'a :: len word list"
proof (cases "n \<le> length xs")
  case True
  then show ?thesis by (simp add: vec_resize_def biguint_take)
next
  case False
  then have "(2 :: nat) ^ (LENGTH('a) * length xs) \<le> 2 ^ (LENGTH('a) * n)"
    by (intro power_increasing) simp_all
  then have "biguint xs < 2 ^ (LENGTH('a) * n)"
    by (rule order.strict_trans2 [OF biguint_less])
  with False show ?thesis
    by (simp add: vec_resize_def biguint_append)
qed

lemma biguint_to_u64_digits [simp]: "biguint (to_u64_digits n) = n"
proof (induction n rule: to_u64_digits.induct)
  case (1 n)
  show ?case
  proof (cases "n = 0")
    case True
    then show ?thesis by (simp add: to_u64_digits.simps)
  next
    case False
    have "unat (of_nat (n mod 2 ^ 64) :: u64) = n mod 2 ^ 64"
      by (simp only: unat_of_nat) simp
    with 1 [OF False] False show ?thesis
      by (subst to_u64_digits.simps) simp
  qed
qed

lemma biguint_byte_digits [simp]: "biguint (byte_digits n) = n"
proof (induction n rule: byte_digits.induct)
  case (1 n)
  show ?case
  proof (cases "n = 0")
    case True
    then show ?thesis by (simp add: byte_digits.simps)
  next
    case False
    have "unat (of_nat (n mod 256) :: u8) = n mod 256"
      by (simp only: unat_of_nat) simp
    with 1 [OF False] False show ?thesis
      by (subst byte_digits.simps) simp
  qed
qed

lemma biguint_to_bytes_le [simp]: "biguint (to_bytes_le n) = n"
  by (simp add: to_bytes_le_def)

lemma biguint_low_bytes:
  "biguint (map (\<lambda>i. ucast (drop_bit (8 * i) w) :: u8) [0..<n]) = unat w mod 2 ^ (8 * n)" for w :: u64
proof (induction n)
  case (Suc n)
  have "unat (ucast (drop_bit (8 * n) w) :: u8) = unat w div 2 ^ (8 * n) mod 2 ^ 8"
    by (simp add: unsigned_ucast_eq take_bit_eq_mod unat_drop_bit)
  moreover have "unat w mod 2 ^ (8 * Suc n) =
      unat w mod 2 ^ (8 * n) + 2 ^ (8 * n) * (unat w div 2 ^ (8 * n) mod 2 ^ 8)"
    unfolding mult_Suc_right power_add using mod_mult2_eq [of "unat w" "2 ^ (8 * n)" "2 ^ 8"]
    by (simp only: mult.commute add.commute)
  moreover have "biguint (map (\<lambda>i. ucast (drop_bit (8 * i) w) :: u8) [0..<Suc n]) =
      biguint (map (\<lambda>i. ucast (drop_bit (8 * i) w) :: u8) [0..<n]) +
      2 ^ (8 * n) * unat (ucast (drop_bit (8 * n) w) :: u8)"
    by (simp add: biguint_append)
  ultimately show ?case
    using Suc by (simp only:)
qed simp

lemma biguint_to_le_bytes [simp]: "biguint (to_le_bytes w) = unat w"
  using biguint_low_bytes [of w 8] unat_less_64 [of w] by (simp add: to_le_bytes_def)

lemma biguint_words_to_bytes_le [simp]: "biguint (words_to_bytes_le ws) = biguint ws"
  by (induction ws) (simp_all add: words_to_bytes_le_def biguint_append)

lemma biguint_u64_to_u32 [simp]: "biguint (u64_to_u32 ws) = biguint ws"
proof (induction ws)
  case (Cons w ws)
  have "unat w div 2 ^ 32 < 2 ^ 32"
    using unsigned_less [of w, where 'a = nat] by (intro less_mult_imp_div_less) simp
  then have "unat (ucast w :: u32) + 2 ^ 32 * unat (ucast (drop_bit 32 w) :: u32) = unat w"
    by (simp add: unsigned_ucast_eq take_bit_eq_mod unat_drop_bit)
  moreover have "a + B * (b + B * n) = (a + B * b) + B * B * n" for a b B n :: nat
    by (simp add: distrib_left)
  moreover have "biguint (u64_to_u32 (w # ws)) = unat (ucast w :: u32) + 2 ^ 32 *
      (unat (ucast (drop_bit 32 w) :: u32) + 2 ^ 32 * biguint (u64_to_u32 ws))"
    by (simp add: u64_to_u32_def)
  ultimately have "biguint (u64_to_u32 (w # ws)) = unat w + 2 ^ 32 * 2 ^ 32 * biguint (u64_to_u32 ws)"
    by (simp only:)
  with Cons show ?case
    by simp
qed (simp add: u64_to_u32_def)

lemma length_words_to_bytes_le [simp]: "length (words_to_bytes_le ws) = 8 * length ws"
  by (simp add: words_to_bytes_le_def length_words_bytes)

lemma length_u64_to_u32 [simp]: "length (u64_to_u32 ws) = 2 * length ws"
  by (induction ws) (simp_all add: u64_to_u32_def)

lemma words_to_bytes_to_words [simp]: "bytes_to_words_le (words_to_bytes_le ws) = ws"
  by (simp add: bytes_to_words_le_def words_to_bytes_le_def words_of_bytes)

lemma bytes_to_words_to_bytes: "words_to_bytes_le (bytes_to_words_le bs) = bs" if "8 dvd length bs"
  using that
proof (induction "length bs" arbitrary: bs rule: less_induct)
  case less
  show ?case
  proof (cases "bs = []")
    case True
    then show ?thesis by (simp add: bytes_to_words_le_def words_to_bytes_le_def as_chunks.simps)
  next
    case False
    with less.prems have len: "8 \<le> length bs" "8 dvd length (drop 8 bs)"
      by (auto simp: dvd_imp_le intro!: dvd_diff_nat)
    have "bytes_to_words_le bs = from_le_bytes (take 8 bs) # bytes_to_words_le (drop 8 bs)"
      using len(1) by (simp add: bytes_to_words_le_def as_chunks.simps [of 8 bs])
    then have "words_to_bytes_le (bytes_to_words_le bs) = take 8 bs @ drop 8 bs"
      using less.hyps [OF _ len(2)] len(1) False
      by (simp add: words_to_bytes_le_def to_from_le_bytes)
    then show ?thesis by simp
  qed
qed

lemma biguint_bytes_to_words_le: "biguint (bytes_to_words_le bs) = biguint bs" if "8 dvd length bs"
  using biguint_words_to_bytes_le [of "bytes_to_words_le bs"] bytes_to_words_to_bytes [OF that] by simp

lemma length_bytes_to_words_le: "length (bytes_to_words_le bs) = length bs div 8" if "8 dvd length bs"
  using length_words_to_bytes_le [of "bytes_to_words_le bs"] bytes_to_words_to_bytes [OF that] by simp

lemma biguint_inject:
  "biguint xs = biguint ys \<longleftrightarrow> xs = ys" if "length xs = length ys" for xs ys :: "'a :: len word list"
  using that
proof (induction xs ys rule: list_induct2)
  case (Cons x xs y ys)
  have "unat x = unat y \<and> biguint xs = biguint ys"
    if "unat x + 2 ^ LENGTH('a) * biguint xs = unat y + 2 ^ LENGTH('a) * biguint ys"
  proof -
    from arg_cong [OF that, of "\<lambda>n. n mod 2 ^ LENGTH('a)"] have "unat x = unat y"
      by simp
    with that show ?thesis by simp
  qed
  with Cons show ?case by (auto intro: unsigned_word_eqI)
qed simp

subsection \<open>What the precompiles compute\<close>

lemma length_results [simp]:
  "length (uint256_mul_result x ym) = 4" "length (uint256_ops_result op a b c) = 8"
  "length (fp2_words n c0 c1) = n" "length (sha_finalize hx v) = 8"
  by (simp_all add: uint256_mul_result_def uint256_ops_result_def fp2_words_def Let_def
      length_bytes_to_words_le sha_finalize_def)

lemma length_to_words_le: "length (to_words_le n p) = n" if "even n"
proof -
  from that obtain k where "n = 2 * k" ..
  then show ?thesis
    by (simp add: to_words_le_def Let_def length_bytes_to_words_le)
qed

lemma length_fp_results:
  "fp_op_result P op x y = Some r \<Longrightarrow> length r = WordsFieldElement P"
  "fp2_addsub_result P op x y = Some r \<Longrightarrow> length r = WordsCurvePoint P"
  "fp2_mul_result P x y = Some r \<Longrightarrow> length r = WordsCurvePoint P"
  by (auto simp: fp_op_result_def fp2_addsub_result_def fp2_mul_result_def Let_def
      split: Option.bind_splits prod.splits)

lemma biguint_below: "biguint xs < 2 ^ n" if "LENGTH('a) * length xs = n" for xs :: "'a :: len word list"
  using biguint_less [of xs] that by simp


lemma take_words_to_bytes: "biguint (take (8 * n) (words_to_bytes_le ws)) = biguint (take n ws)"
  if "n \<le> length ws"
  using that by (simp add: biguint_take mult.assoc)

lemma drop_words_to_bytes: "biguint (drop (8 * n) (words_to_bytes_le ws)) = biguint (drop n ws)"
  if "n \<le> length ws"
  using that by (simp add: biguint_drop mult.assoc)

lemma mod_or_less: "m < B \<Longrightarrow> 0 < B \<Longrightarrow> (if m = 0 then z mod B else z mod m) < B" for m B z :: nat
  by (cases "m = 0") (simp_all add: order_less_trans [OF mod_less_divisor])

lemma vec_resize_fits: "biguint (vec_resize n 0 xs) = biguint xs"
  if "biguint xs < 2 ^ b" "LENGTH('a) * n = b" for xs :: "'a :: len word list"
  using that(1) unfolding that(2) [symmetric] by (simp add: biguint_vec_resize)

lemma uint256_mul_value:
  assumes "length x = 4" "length ym = 8"
  shows "biguint (uint256_mul_result x ym) =
    (if biguint (drop 4 ym) = 0 then biguint x * biguint (take 4 ym) mod 2 ^ 256
     else biguint x * biguint (take 4 ym) mod biguint (drop 4 ym))"
proof -
  let ?m = "biguint (drop 4 ym)"
  let ?r = "if ?m = 0 then biguint x * biguint (take 4 ym) mod 2 ^ 256
    else biguint x * biguint (take 4 ym) mod ?m"
  have "?r < 2 ^ 256"
    by (rule mod_or_less, rule biguint_below) (simp_all add: assms)
  then have "biguint (vec_resize 32 0 (to_bytes_le ?r)) = ?r"
    by (subst vec_resize_fits [of _ 256]) (simp_all only: biguint_to_bytes_le, simp)
  moreover have "uint256_mul_result x ym = bytes_to_words_le (vec_resize 32 0 (to_bytes_le ?r))"
    using take_words_to_bytes [of 4 ym] drop_words_to_bytes [of 4 ym] assms
    by (simp add: uint256_mul_result_def Let_def)
  moreover have "biguint (bytes_to_words_le (vec_resize 32 0 bs)) = biguint (vec_resize 32 0 bs)" for bs
    by (rule biguint_bytes_to_words_le) simp
  ultimately show ?thesis
    by (simp only:)
qed

lemma uint256_ops_value:
  assumes "length a = 4" "length b = 4" "length c = 4"
  shows "biguint (uint256_ops_result op a b c) =
    (case op of U256_Add \<Rightarrow> biguint a + biguint b + biguint c | U256_Mul \<Rightarrow> biguint a * biguint b + biguint c)"
    (is "_ = ?r")
proof -
  have bounds: "biguint a \<le> 2 ^ 256 - 1" "biguint b \<le> 2 ^ 256 - 1" "biguint c \<le> 2 ^ 256 - 1"
    using biguint_below [of a 256] biguint_below [of b 256] biguint_below [of c 256] assms by simp_all
  have "biguint a * biguint b \<le> (2 ^ 256 - 1) * (2 ^ 256 - 1)"
    using bounds by (intro mult_le_mono)
  then have "?r < 2 ^ 512"
    using bounds by (cases op) simp_all
  then show ?thesis
    by (simp add: uint256_ops_result_def Let_def biguint_vec_resize)
qed


abbreviation modulus :: "base_field \<Rightarrow> nat" where
  "modulus P \<equiv> biguint (MODULUS P)"

lemma modulus_bounds: "1 < modulus P" "modulus P < 2 ^ (64 * WordsFieldElement P)"
proof -
  show "1 < modulus P"
    by (cases P) simp_all
  show "modulus P < 2 ^ (64 * WordsFieldElement P)"
    using biguint_less [of "MODULUS P"] by (cases P) (simp_all add: WordsFieldElement_def)
qed

lemma field_resize: "biguint (vec_resize (WordsFieldElement P) 0 (to_u64_digits (n mod modulus P))) = n mod modulus P"
proof -
  have "n mod modulus P < modulus P"
    using modulus_bounds(1) [of P] by simp
  then have "n mod modulus P < 2 ^ (64 * WordsFieldElement P)"
    using modulus_bounds(2) by (rule order_less_trans)
  then show ?thesis
    by (subst vec_resize_fits) (simp_all only: biguint_to_u64_digits, simp)
qed

lemma sub_mod:
  "(u mod p + p - v mod p) mod p = (u - v) mod p" "(u + p - v) mod p = (u - v) mod p" for u v p :: int
proof -
  have "u mod p + p - v mod p = (u mod p - v mod p) + p" "u + p - v = (u - v) + p"
    by simp_all
  then show "(u mod p + p - v mod p) mod p = (u - v) mod p" "(u + p - v) mod p = (u - v) mod p"
    by (simp_all only: mod_add_self2 mod_diff_eq)
qed

lemma fp_op_value:
  "fp_op_result P Op_Add x y = Some r \<Longrightarrow> biguint r = (biguint x + biguint y) mod modulus P"
  "fp_op_result P Op_Mul x y = Some r \<Longrightarrow> biguint r = (biguint x * biguint y) mod modulus P"
  "fp_op_result P Op_Sub x y = Some r \<Longrightarrow>
     int (biguint r) = (int (biguint x) - int (biguint y)) mod int (modulus P)"
proof -
  assume "fp_op_result P Op_Add x y = Some r"
  then show "biguint r = (biguint x + biguint y) mod modulus P"
    by (auto simp: fp_op_result_def Let_def field_resize mod_simps)
next
  assume "fp_op_result P Op_Mul x y = Some r"
  then show "biguint r = (biguint x * biguint y) mod modulus P"
    by (auto simp: fp_op_result_def Let_def field_resize mod_simps)
next
  let ?p = "modulus P" and ?a = "biguint x" and ?b = "biguint y"
  assume "fp_op_result P Op_Sub x y = Some r"
  then have "?b mod ?p \<le> ?a mod ?p + ?p" "biguint r = (?a mod ?p + ?p - ?b mod ?p) mod ?p"
    by (auto simp: fp_op_result_def Let_def field_resize bind_eq_Some_conv)
  then have "int (biguint r) = (int (?a mod ?p) + int ?p - int (?b mod ?p)) mod int ?p"
    by (simp add: zmod_int)
  also have "\<dots> = (int ?a - int ?b) mod int ?p"
    by (simp only: zmod_int sub_mod mod_diff_eq)
  finally show "int (biguint r) = (int ?a - int ?b) mod int ?p" .
qed

lemma fp_op_total: "op \<noteq> Op_Div \<Longrightarrow> \<exists>r. fp_op_result P op x y = Some r"
proof -
  have "biguint y mod modulus P \<le> biguint x mod modulus P + modulus P"
    using modulus_bounds(1) [of P] by (intro trans_le_add2 less_imp_le mod_less_divisor) simp
  then show "op \<noteq> Op_Div \<Longrightarrow> \<exists>r. fp_op_result P op x y = Some r"
    by (cases op) (simp_all add: fp_op_result_def Let_def)
qed


lemma halves_value:
  "length ws = 2 * n \<Longrightarrow> halves ws = (biguint (take n ws), biguint (drop n ws))"
proof -
  assume len: "length ws = 2 * n"
  have "u64_to_u32 ws = u64_to_u32 (take n ws) @ u64_to_u32 (drop n ws)"
    by (simp add: u64_to_u32_def flip: concat_append map_append)
  with len have "take (2 * n) (u64_to_u32 ws) = u64_to_u32 (take n ws)"
    "drop (2 * n) (u64_to_u32 ws) = u64_to_u32 (drop n ws)"
    by simp_all
  with len show ?thesis
    by (simp add: halves_def Let_def)
qed

lemma words_curve_point: "WordsCurvePoint P = 2 * WordsFieldElement P"
  by (cases P) (simp_all add: WordsCurvePoint_def WordsFieldElement_def)

lemma vec_resize_append: "length xs = k \<Longrightarrow> vec_resize (k + n) x (xs @ ys) = xs @ vec_resize n x ys"
  by (auto simp: vec_resize_def)

lemma halves_fp2_words:
  "halves (fp2_words (WordsCurvePoint P) (m mod modulus P) (n mod modulus P)) = (m mod modulus P, n mod modulus P)"
proof -
  let ?w = "WordsFieldElement P"
  have eq: "fp2_words (WordsCurvePoint P) (m mod modulus P) (n mod modulus P) =
      vec_resize ?w 0 (to_u64_digits (m mod modulus P)) @ vec_resize ?w 0 (to_u64_digits (n mod modulus P))"
    using vec_resize_append [of "vec_resize ?w 0 (to_u64_digits (m mod modulus P))" ?w ?w]
    by (simp add: fp2_words_def words_curve_point mult_2)
  show ?thesis
    unfolding eq by (subst halves_value [of _ ?w]) (simp_all add: field_resize)
qed

lemma fp2_mul_value:
  assumes "halves x = (a0, a1)" "halves y = (b0, b1)"
  shows "\<exists>r. fp2_mul_result P x y = Some r \<and>
    (case halves r of (c0, c1) \<Rightarrow>
      int c0 = (int a0 * int b0 - int a1 * int b1) mod int (modulus P) \<and>
      int c1 = (int a0 * int b1 + int a1 * int b0) mod int (modulus P))"
proof -
  let ?p = "modulus P"
  let ?u = "(a0 * b0) mod ?p" and ?v = "(a1 * b1) mod ?p"
  define d where "d = (if ?u < ?v then ?p + ?u - ?v else ?u - ?v)"
  have v: "?v < ?p"
    using modulus_bounds(1) [of P] by (intro mod_less_divisor) simp
  have "int d = (if ?u < ?v then int ?u + int ?p - int ?v else int ?u - int ?v)"
    using v by (simp add: d_def of_nat_diff)
  then have "int d mod int ?p = (int ?u - int ?v) mod int ?p"
    by (simp only: if_distrib [of "\<lambda>d. d mod int ?p"] sub_mod(2) if_cancel)
  also have "\<dots> = (int a0 * int b0 - int a1 * int b1) mod int ?p"
    by (simp add: zmod_int mod_simps)
  finally have d: "int (d mod ?p) = (int a0 * int b0 - int a1 * int b1) mod int ?p"
    by (simp add: zmod_int)
  have "fp2_mul_result P x y = Some (fp2_words (WordsCurvePoint P) (d mod ?p)
      (((a0 * b1) mod ?p + (a1 * b0) mod ?p) mod ?p))"
    using v by (auto simp: fp2_mul_result_def assms Let_def d_def biguint_sub_def)
  with d show ?thesis
    by (auto simp: halves_fp2_words zmod_int mod_simps)
qed

lemma fp2_addsub_value:
  assumes "halves x = (a0, a1)" "halves y = (b0, b1)"
  shows "\<exists>r. fp2_addsub_result P Op_Add x y = Some r \<and>
      halves r = ((a0 + b0) mod modulus P, (a1 + b1) mod modulus P)"
    "fp2_addsub_result P Op_Sub x y = None \<longleftrightarrow> a0 + modulus P < b0 \<or> a1 + modulus P < b1"
    "fp2_addsub_result P Op_Sub x y = Some r \<Longrightarrow> (case halves r of (c0, c1) \<Rightarrow>
      int c0 = (int a0 - int b0) mod int (modulus P) \<and> int c1 = (int a1 - int b1) mod int (modulus P))"
proof -
  have sub: "int ((a + modulus P - b) mod modulus P) = (int a - int b) mod int (modulus P)"
    if "b \<le> a + modulus P" for a b
  proof -
    have "int ((a + modulus P - b) mod modulus P) = (int a + int (modulus P) - int b) mod int (modulus P)"
      using that by (simp add: zmod_int of_nat_diff)
    also have "\<dots> = (int a - int b) mod int (modulus P)"
      by (rule sub_mod)
    finally show ?thesis .
  qed
  show "\<exists>r. fp2_addsub_result P Op_Add x y = Some r \<and>
      halves r = ((a0 + b0) mod modulus P, (a1 + b1) mod modulus P)"
    by (simp add: fp2_addsub_result_def assms Let_def halves_fp2_words)
  show "fp2_addsub_result P Op_Sub x y = None \<longleftrightarrow> a0 + modulus P < b0 \<or> a1 + modulus P < b1"
    by (auto simp: fp2_addsub_result_def assms Let_def biguint_sub_def)
  show "fp2_addsub_result P Op_Sub x y = Some r \<Longrightarrow> (case halves r of (c0, c1) \<Rightarrow>
      int c0 = (int a0 - int b0) mod int (modulus P) \<and> int c1 = (int a1 - int b1) mod int (modulus P))"
    by (auto simp: fp2_addsub_result_def assms Let_def biguint_sub_def halves_fp2_words sub split: if_splits)
qed

lemma affine_roundtrip:
  assumes "even n" "fst p < 2 ^ (32 * n)" "snd p < 2 ^ (32 * n)"
  shows "from_words_le (to_words_le n p) = p"
proof -
  from assms(1) obtain k where n: "n = 2 * k" ..
  have len: "length (bytes_to_words_le (vec_resize (8 * k) 0 bs)) = k" for bs
    by (simp add: length_bytes_to_words_le)
  have fits: "biguint (bytes_to_words_le (vec_resize (8 * k) 0 (to_bytes_le m))) = m"
    if "m < 2 ^ (64 * k)" for m
    using that by (simp add: biguint_bytes_to_words_le vec_resize_fits [of _ "64 * k"])
  show ?thesis
    using assms by (cases p) (simp add: from_words_le_def to_words_le_def Let_def n len fits)
qed

lemma affine_roundtrip':
  assumes "length ws = 2 * k"
  shows "to_words_le (2 * k) (from_words_le ws) = ws"
proof -
  have *: "bytes_to_words_le (vec_resize (8 * k) 0 (to_bytes_le (biguint vs))) = vs"
    if "length vs = k" for vs :: "u64 list"
  proof -
    have "biguint (bytes_to_words_le (vec_resize (8 * k) 0 (to_bytes_le (biguint vs)))) = biguint vs"
      using biguint_below [of vs "64 * k"] that
      by (simp add: biguint_bytes_to_words_le vec_resize_fits [of _ "64 * k"])
    then show ?thesis
      by (subst (asm) biguint_inject) (simp_all add: that length_bytes_to_words_le)
  qed
  show ?thesis
    using assms by (simp add: from_words_le_def to_words_le_def Let_def *)
qed


subsection \<open>Properties\<close>

text \<open>(C19) The precompile \<open>UINT256_MUL\<close> computes the product of two 256-bit numbers modulo the given
  modulus, or modulo \<open>2^256\<close> when the modulus is zero, as exactly four words.\<close>

theorem uint256_mul_correct:
  assumes "length x = 4" "length y = 4" "length m = 4"
  shows "length (uint256_mul_result x (y @ m)) = 4 \<and>
    biguint (uint256_mul_result x (y @ m)) =
      (if biguint m = 0 then biguint x * biguint y mod 2 ^ 256 else biguint x * biguint y mod biguint m)"
  using uint256_mul_value [of x "y @ m"] assms by (simp only: length_results length_append) simp

theorem uint256_mul_correct_witness:
  "length (uint256_mul_result [3, 0, 0, 1] ([5, 0, 0, 0] @ [7, 0, 0, 0])) = 4 \<and>
   biguint (uint256_mul_result [3, 0, 0, 1] ([5, 0, 0, 0] @ [7, 0, 0, 0])) = (3 + 2 ^ 192) * 5 mod 7"
  using uint256_mul_correct [of "[3, 0, 0, 1]" "[5, 0, 0, 0]" "[7, 0, 0, 0]"] by simp

text \<open>(C20) The precompiles \<open>UINT256_ADD_CARRY\<close> and \<open>UINT256_MUL_CARRY\<close> are exact: the low four words,
  written to \<open>d\<close>, and the high four words, written to \<open>e\<close>, together are \<open>a + b + c\<close> and \<open>a * b + c\<close>,
  without loss.\<close>

theorem uint256_ops_exact:
  assumes "length a = 4" "length b = 4" "length c = 4"
  shows "biguint (take 4 (uint256_ops_result op a b c)) +
      2 ^ 256 * biguint (take 4 (drop 4 (uint256_ops_result op a b c))) =
    (case op of U256_Add \<Rightarrow> biguint a + biguint b + biguint c | U256_Mul \<Rightarrow> biguint a * biguint b + biguint c)"
proof -
  let ?r = "uint256_ops_result op a b c"
  have "take 4 (drop 4 ?r) = drop 4 ?r"
    by simp
  moreover have "biguint (take 4 ?r @ drop 4 ?r) = biguint (take 4 ?r) + 2 ^ (64 * 4) * biguint (drop 4 ?r)"
    by (subst biguint_append) simp
  ultimately show ?thesis
    using uint256_ops_value [OF assms, of op] by simp
qed

theorem uint256_ops_exact_witness:
  "biguint (take 4 (uint256_ops_result U256_Mul [0, 0, 0, 1] [0, 0, 0, 2] [9, 0, 0, 0])) +
     2 ^ 256 * biguint (take 4 (drop 4 (uint256_ops_result U256_Mul [0, 0, 0, 1] [0, 0, 0, 2] [9, 0, 0, 0]))) =
   2 ^ 385 + 9"
  using uint256_ops_exact [of "[0, 0, 0, 1]" "[0, 0, 0, 2]" "[9, 0, 0, 0]" U256_Mul] by simp

text \<open>(C21) The field precompiles compute in the prime field: the words written are the reduced sum,
  difference and product of the operands modulo the prime, whatever the operands, and the division,
  which no system call reaches, panics.\<close>

theorem fp_op_correct:
  "(\<exists>r. fp_op_result P Op_Add x y = Some r \<and> length r = WordsFieldElement P \<and>
     int (biguint r) = (int (biguint x) + int (biguint y)) mod int (modulus P)) \<and>
   (\<exists>r. fp_op_result P Op_Sub x y = Some r \<and> length r = WordsFieldElement P \<and>
     int (biguint r) = (int (biguint x) - int (biguint y)) mod int (modulus P)) \<and>
   (\<exists>r. fp_op_result P Op_Mul x y = Some r \<and> length r = WordsFieldElement P \<and>
     int (biguint r) = (int (biguint x) * int (biguint y)) mod int (modulus P)) \<and>
   fp_op_result P Op_Div x y = None"
proof -
  obtain r1 r2 r3 where r: "fp_op_result P Op_Add x y = Some r1" "fp_op_result P Op_Sub x y = Some r2"
    "fp_op_result P Op_Mul x y = Some r3"
    using fp_op_total [of Op_Add P x y] fp_op_total [of Op_Sub P x y] fp_op_total [of Op_Mul P x y] by auto
  moreover have "fp_op_result P Op_Div x y = None"
    by (simp add: fp_op_result_def Let_def)
  ultimately show ?thesis
    by (simp add: length_fp_results(1) [OF r(1)] length_fp_results(1) [OF r(2)] length_fp_results(1) [OF r(3)]
        fp_op_value(1) [OF r(1)] fp_op_value(3) [OF r(2)] fp_op_value(2) [OF r(3)] zmod_int)
qed

abbreviation re :: "base_field \<Rightarrow> u64 list \<Rightarrow> int" where
  "re P ws \<equiv> int (biguint (take (WordsFieldElement P) ws))"

abbreviation im :: "base_field \<Rightarrow> u64 list \<Rightarrow> int" where
  "im P ws \<equiv> int (biguint (drop (WordsFieldElement P) ws))"

text \<open>(C22) The precompiles of the quadratic extension compute in \<open>F_p[u] / (u^2 + 1)\<close>. An element is the
  pair of its real part (the first half of the words) and its imaginary part. The product and the sum
  always succeed; the difference panics exactly when a part of the subtrahend exceeds the part of the
  minuend plus the prime.\<close>

theorem fp2_correct:
  assumes "length x = WordsCurvePoint P" "length y = WordsCurvePoint P"
  shows "(\<exists>r. fp2_mul_result P x y = Some r \<and> length r = WordsCurvePoint P \<and>
      re P r = (re P x * re P y - im P x * im P y) mod int (modulus P) \<and>
      im P r = (re P x * im P y + im P x * re P y) mod int (modulus P)) \<and>
    (\<exists>r. fp2_addsub_result P Op_Add x y = Some r \<and> length r = WordsCurvePoint P \<and>
      re P r = (re P x + re P y) mod int (modulus P) \<and> im P r = (im P x + im P y) mod int (modulus P)) \<and>
    (case fp2_addsub_result P Op_Sub x y of
      Some r \<Rightarrow> re P y \<le> re P x + int (modulus P) \<and> im P y \<le> im P x + int (modulus P) \<and>
        length r = WordsCurvePoint P \<and>
        re P r = (re P x - re P y) mod int (modulus P) \<and> im P r = (im P x - im P y) mod int (modulus P)
    | None \<Rightarrow> re P x + int (modulus P) < re P y \<or> im P x + int (modulus P) < im P y)"
proof -
  let ?n = "WordsFieldElement P"
  have halves: "halves ws = (biguint (take ?n ws), biguint (drop ?n ws))" if "length ws = WordsCurvePoint P" for ws
    using that by (intro halves_value) (simp add: words_curve_point)
  note parts = halves [OF assms(1)] halves [OF assms(2)]
  obtain r where r: "fp2_mul_result P x y = Some r \<and>
      (case halves r of (c0, c1) \<Rightarrow> int c0 = (re P x * re P y - im P x * im P y) mod int (modulus P) \<and>
        int c1 = (re P x * im P y + im P x * re P y) mod int (modulus P))"
    using fp2_mul_value [OF parts] ..
  obtain t where t: "fp2_addsub_result P Op_Add x y = Some t \<and>
      halves t = ((biguint (take ?n x) + biguint (take ?n y)) mod modulus P,
                  (biguint (drop ?n x) + biguint (drop ?n y)) mod modulus P)"
    using fp2_addsub_value(1) [OF parts] ..
  from r have len_r: "length r = WordsCurvePoint P"
    by (blast intro: length_fp_results(3))
  from t have len_t: "length t = WordsCurvePoint P"
    by (blast intro: length_fp_results(2))
  show ?thesis
  proof (intro conjI)
    show "\<exists>r. fp2_mul_result P x y = Some r \<and> length r = WordsCurvePoint P \<and>
        re P r = (re P x * re P y - im P x * im P y) mod int (modulus P) \<and>
        im P r = (re P x * im P y + im P x * re P y) mod int (modulus P)"
      using r len_r halves [OF len_r] by simp
    show "\<exists>r. fp2_addsub_result P Op_Add x y = Some r \<and> length r = WordsCurvePoint P \<and>
        re P r = (re P x + re P y) mod int (modulus P) \<and> im P r = (im P x + im P y) mod int (modulus P)"
      using t len_t halves [OF len_t] by (simp add: zmod_int)
    show "case fp2_addsub_result P Op_Sub x y of
        Some r \<Rightarrow> re P y \<le> re P x + int (modulus P) \<and> im P y \<le> im P x + int (modulus P) \<and>
          length r = WordsCurvePoint P \<and>
          re P r = (re P x - re P y) mod int (modulus P) \<and> im P r = (im P x - im P y) mod int (modulus P)
      | None \<Rightarrow> re P x + int (modulus P) < re P y \<or> im P x + int (modulus P) < im P y"
    proof (cases "fp2_addsub_result P Op_Sub x y")
      case None
      then show ?thesis
        using fp2_addsub_value(2) [OF parts, of P] by (simp flip: of_nat_add)
    next
      case (Some d)
      then show ?thesis
        using fp2_addsub_value(2) [OF parts, of P] fp2_addsub_value(3) [OF parts Some]
          length_fp_results(2) [OF Some] halves [of d]
        by (simp flip: of_nat_add)
    qed
  qed
qed

theorem fp2_correct_witness:
  "\<exists>r. fp2_mul_result Bn254BaseField [1, 0, 0, 0, 1, 0, 0, 0] [1, 0, 0, 0, 1, 0, 0, 0] = Some r \<and>
     re Bn254BaseField r = 0 \<and> im Bn254BaseField r = 2"
proof -
  have len: "length [1, 0, 0, 0, 1, 0, 0, 0 :: u64] = WordsCurvePoint Bn254BaseField"
    by (simp add: WordsCurvePoint_def)
  show ?thesis
    using fp2_correct [OF len len, THEN conjunct1] by (auto simp: WordsFieldElement_def)
qed

text \<open>(C23) The encoding of affine points as words is a bijection: decoding after encoding gives back
  a point whose coordinates fit, and encoding after decoding gives back the words.\<close>

theorem affine_point_roundtrip:
  assumes "even n"
  shows "(x < 2 ^ (32 * n) \<and> y < 2 ^ (32 * n) \<longrightarrow> from_words_le (to_words_le n (x, y)) = (x, y)) \<and>
    (length ws = n \<longrightarrow> to_words_le n (from_words_le ws) = ws)"
  using affine_roundtrip [OF assms, of "(x, y)"] affine_roundtrip' [of ws "n div 2"] assms by auto

theorem affine_point_roundtrip_witness:
  "from_words_le (to_words_le 8 (2, 3)) = (2, 3) \<and>
   to_words_le 8 (from_words_le [1, 2, 3, 4, 5, 6, 7, 8]) = [1, 2, 3, 4, 5, 6, 7, 8]"
  using affine_point_roundtrip [of 8 2 3 "[1, 2, 3, 4, 5, 6, 7, 8]"] by simp

end
