(* ===== verification/Minimal_Ecall.thy ===== *)
theory Minimal_Ecall
  imports Minimal_Executor Precompile_Arith
begin

text \<open>
  The system calls of the minimal executor (\<open>minimal/ecall.rs\<close>, \<open>minimal/hint.rs\<close>,
  \<open>minimal/write.rs\<close>, \<open>minimal/precompiles/\<close>), the execution of one instruction in both modes, and
  the loop that produces a trace chunk.

  What the precompiles compute outside the executor is a parameter, the record \<open>externs\<close>: the Keccak
  and Poseidon2 permutations, the group operations of the curves, the decompression of Ed25519
  points, the hooks behind \<open>WRITE\<close>, the decoder of instruction words, and the debugging calls. An
  array type of the source is a function on its indices, so that its length is fixed.
\<close>

subsection \<open>Parameters\<close>

datatype curve = Secp256k1 | Secp256r1 | Bn254 | Bls12381 | Ed25519

primrec curve_words :: "curve \<Rightarrow> nat" where
  "curve_words Secp256k1 = 8"
| "curve_words Secp256r1 = 8"
| "curve_words Bn254 = 8"
| "curve_words Bls12381 = 12"
| "curve_words Ed25519 = 8"

record externs =
  abi :: elf_abi
  process_instruction :: "u32 \<Rightarrow> Instruction option"
  keccakf :: "(nat \<Rightarrow> u64) \<Rightarrow> nat \<Rightarrow> u64"
  poseidon2_permute :: "(nat \<Rightarrow> u32) \<Rightarrow> nat \<Rightarrow> u32"
  affine_add :: "curve \<Rightarrow> affine_point \<Rightarrow> affine_point \<Rightarrow> affine_point option"
  affine_double :: "curve \<Rightarrow> affine_point \<Rightarrow> affine_point option"
  ed25519_decompress :: "u8 list \<Rightarrow> nat option"
  hook :: "u32 \<Rightarrow> u8 list \<Rightarrow> u8 list list option"
  profiler_symbols_ok :: "u8 list \<Rightarrow> bool"
  profiler_addresses_ok :: "u8 list \<Rightarrow> bool"
  dump_elf :: "MinimalExecutor \<Rightarrow> LimitedMemory option"

type_synonym ecall_result = "u64 option checked"

subsection \<open>Curves\<close>

definition minimal_ec_add :: "externs \<Rightarrow> curve \<Rightarrow> MinimalExecutor \<Rightarrow> u64 \<Rightarrow> u64 \<Rightarrow> ecall_result" where
  "minimal_ec_add E C s p_ptr q_ptr = do {
     assert_that (is_multiple_of p_ptr 8);
     assert_that (is_multiple_of q_ptr 8);
     let num_words = curve_words C;
     let clk = m_clk s;
     try_then (read_slice_check (abi E) s q_ptr num_words) (\<lambda>_ s1.
       let s2 = bump_memory_clk s1
       in try_then (read_write_slice_check (abi E) s2 p_ptr num_words) (\<lambda>_ s3. do {
         let s4 = s3\<lparr>m_clk := clk\<rparr>;
         (p, s5) \<leftarrow> ctx_mr_slice_unsafe s4 p_ptr num_words;
         (q, s6) \<leftarrow> ctx_mr_slice_without_prot s5 q_ptr num_words;
         result_affine \<leftarrow> affine_add E C (from_words_le p) (from_words_le q);
         let result_words = to_words_le num_words result_affine;
         let s7 = bump_memory_clk s6;
         (_, s8) \<leftarrow> ctx_mw_slice_without_prot s7 p_ptr result_words;
         Some (Inr None, s8)
       }))
   }"

definition minimal_ec_double :: "externs \<Rightarrow> curve \<Rightarrow> MinimalExecutor \<Rightarrow> u64 \<Rightarrow> u64 \<Rightarrow> ecall_result" where
  "minimal_ec_double E C s p_ptr arg2 = do {
     assert_that (is_multiple_of p_ptr 8);
     let num_words = curve_words C;
     try_then (read_write_slice_check (abi E) s p_ptr num_words) (\<lambda>_ s1. do {
       (p, s2) \<leftarrow> ctx_mr_slice_unsafe s1 p_ptr num_words;
       result_affine \<leftarrow> affine_double E C (from_words_le p);
       let result_words = to_words_le num_words result_affine;
       (_, s3) \<leftarrow> ctx_mw_slice_without_prot s2 p_ptr result_words;
       Some (Inr None, s3)
     })
   }"

definition minimal_edwards_decompress :: "externs \<Rightarrow> MinimalExecutor \<Rightarrow> u64 \<Rightarrow> u64 \<Rightarrow> ecall_result" where
  "minimal_edwards_decompress E s slice_ptr sign = do {
     assert_that (is_multiple_of slice_ptr 8);
     assert_that (sign \<le> 1);
     let clk = m_clk s;
     try_then (read_slice_check (abi E) s (slice_ptr + 32) 4) (\<lambda>_ s1.
       let s2 = bump_memory_clk s1
       in try_then (write_slice_check (abi E) s2 slice_ptr 4) (\<lambda>_ s3. do {
         let s4 = s3\<lparr>m_clk := clk\<rparr>;
         (y, s5) \<leftarrow> ctx_mr_slice_without_prot s4 (slice_ptr + 32) 4;
         let y_bytes = words_to_bytes_le y;
         assert_that (length y_bytes = 32);
         let s6 = bump_memory_clk s5;
         let compressed_edwards_y =
           y_bytes[31 := (y_bytes ! 31 AND 0x7F) OR push_bit 7 (ucast sign)];
         x \<leftarrow> ed25519_decompress E compressed_edwards_y;
         let decompressed_x_bytes = vec_resize 32 0 (to_bytes_le x);
         (_, s7) \<leftarrow> ctx_mw_slice_without_prot s6 slice_ptr (bytes_to_words_le decompressed_x_bytes);
         Some (Inr None, s7)
       }))
   }"

subsection \<open>Hash functions\<close>

definition minimal_keccak_permute :: "externs \<Rightarrow> MinimalExecutor \<Rightarrow> u64 \<Rightarrow> u64 \<Rightarrow> ecall_result" where
  "minimal_keccak_permute E s state_ptr arg2 = do {
     assert_that (arg2 = 0);
     let clk = m_clk s;
     try_then (read_slice_check (abi E) s state_ptr 25) (\<lambda>_ s1.
       let s2 = bump_memory_clk s1
       in try_then (write_slice_check (abi E) s2 state_ptr 25) (\<lambda>_ s3. do {
         let s4 = s3\<lparr>m_clk := clk\<rparr>;
         (state, s5) \<leftarrow> ctx_mr_slice_without_prot s4 state_ptr 25;
         assert_that (length state = 25);
         let new_state = map (keccakf E (\<lambda>i. state ! i)) [0..<25];
         let s6 = bump_memory_clk s5;
         (_, s7) \<leftarrow> ctx_mw_slice_without_prot s6 state_ptr new_state;
         Some (Inr None, s7)
       }))
   }"

text \<open>The source views the words as an array of sixteen \<open>u32\<close>. With fewer than eight words, which only a range of
  addresses that wraps around gives, that is undefined behaviour; the permutation is then applied to unspecified
  values.\<close>

definition minimal_poseidon2 :: "externs \<Rightarrow> MinimalExecutor \<Rightarrow> u64 \<Rightarrow> u64 \<Rightarrow> ecall_result" where
  "minimal_poseidon2 E s ptr arg2 = do {
     assert_that (is_multiple_of ptr 8);
     try_then (read_write_slice_check (abi E) s ptr 8) (\<lambda>_ s1. do {
       (input, s2) \<leftarrow> ctx_mr_slice_unsafe s1 ptr 8;
       let input_arr = u64_to_u32 input;
       let output_hash = poseidon2_permute E (\<lambda>i. input_arr ! i);
       let u64_result = map (\<lambda>i. push_bit 32 (ucast (output_hash (2 * i + 1))) OR ucast (output_hash (2 * i))) [0..<8];
       (_, s3) \<leftarrow> ctx_mw_slice_without_prot s2 ptr u64_result;
       Some (Inr None, s3)
     })
   }"

primrec sha_extend_loop :: "MinimalExecutor \<Rightarrow> u64 \<Rightarrow> nat list \<Rightarrow> unit stepped" where
  "sha_extend_loop s w_ptr [] = Some ((), s)"
| "sha_extend_loop s w_ptr (i # is) = do {
     (w_i_minus_15, s1) \<leftarrow> ctx_mr_without_prot s (w_ptr + of_nat (i - 15) * 8);
     (w_i_minus_2, s2) \<leftarrow> ctx_mr_without_prot s1 (w_ptr + of_nat (i - 2) * 8);
     (w_i_minus_16, s3) \<leftarrow> ctx_mr_without_prot s2 (w_ptr + of_nat (i - 16) * 8);
     (w_i_minus_7, s4) \<leftarrow> ctx_mr_without_prot s3 (w_ptr + of_nat (i - 7) * 8);
     let w_i = sha_extend_word w_i_minus_15 w_i_minus_2 w_i_minus_16 w_i_minus_7;
     (_, s5) \<leftarrow> ctx_mw_without_prot s4 (w_ptr + of_nat i * 8) (ucast w_i);
     sha_extend_loop (bump_memory_clk s5) w_ptr is
   }"

definition minimal_sha256_extend :: "externs \<Rightarrow> MinimalExecutor \<Rightarrow> u64 \<Rightarrow> u64 \<Rightarrow> ecall_result" where
  "minimal_sha256_extend E s w_ptr arg2 = do {
     assert_that (arg2 = 0);
     try_then (ctx_prot_slice_check (abi E) s w_ptr 16 (PROT_READ (abi E))) (\<lambda>_ s1.
       let s2 = bump_memory_clk s1
       in try_then (ctx_prot_slice_check (abi E) s2 (w_ptr + 16 * 8) 48
                     (PROT_READ (abi E) OR PROT_WRITE (abi E))) (\<lambda>_ s3. do {
         (_, s4) \<leftarrow> sha_extend_loop s3 w_ptr [16..<64];
         Some (Inr None, s4)
       }))
   }"

primrec sha_compress_loop ::
    "MinimalExecutor \<Rightarrow> u64 \<Rightarrow> sha_vars \<Rightarrow> nat list \<Rightarrow> sha_vars stepped" where
  "sha_compress_loop s w_ptr v [] = Some (v, s)"
| "sha_compress_loop s w_ptr v (i # is) = do {
     (w, s1) \<leftarrow> ctx_mr_without_prot s (w_ptr + of_nat i * 8);
     sha_compress_loop s1 w_ptr (sha_compress_round (SHA_COMPRESS_K ! i) (ucast w) v) is
   }"

definition minimal_sha256_compress :: "externs \<Rightarrow> MinimalExecutor \<Rightarrow> u64 \<Rightarrow> u64 \<Rightarrow> ecall_result" where
  "minimal_sha256_compress E s w_ptr h_ptr = do {
     let clk = m_clk s;
     try_then (read_slice_check (abi E) s h_ptr 8) (\<lambda>_ s1.
       try_then (read_slice_check (abi E) (bump_memory_clk s1) w_ptr 64) (\<lambda>_ s2.
       try_then (write_slice_check (abi E) (bump_memory_clk s2) h_ptr 8) (\<lambda>_ s3. do {
         let s4 = s3\<lparr>m_clk := clk\<rparr>;
         (hs, s5) \<leftarrow> ctx_mr_slice_without_prot s4 h_ptr 8;
         let hx = map ucast hs;
         let s6 = bump_memory_clk s5;
         assert_that (8 \<le> length hx);
         (v, s7) \<leftarrow> sha_compress_loop s6 w_ptr (sha_vars_of hx) [0..<64];
         let s8 = bump_memory_clk s7;
         (_, s9) \<leftarrow> ctx_mw_slice_without_prot s8 h_ptr (sha_finalize hx v);
         Some (Inr None, s9)
       })))
   }"

subsection \<open>Fields and 256-bit integers\<close>

text \<open>The three field precompiles read \<open>x\<close> and \<open>y\<close>, and write the result over \<open>x\<close>; they differ in the
  number of words and in the computation.\<close>

definition minimal_fp_op ::
    "externs \<Rightarrow> base_field \<Rightarrow> MinimalExecutor \<Rightarrow> u64 \<Rightarrow> u64 \<Rightarrow> FieldOperation \<Rightarrow> ecall_result" where
  "minimal_fp_op E P s x_ptr y_ptr op = do {
     assert_that (is_multiple_of x_ptr 8);
     assert_that (is_multiple_of y_ptr 8);
     let num_words = WordsFieldElement P;
     let clk = m_clk s;
     try_then (read_slice_check (abi E) s y_ptr num_words) (\<lambda>_ s1.
       let s2 = bump_memory_clk s1
       in try_then (read_write_slice_check (abi E) s2 x_ptr num_words) (\<lambda>_ s3. do {
         let s4 = s3\<lparr>m_clk := clk\<rparr>;
         (x, s5) \<leftarrow> ctx_mr_slice_unsafe s4 x_ptr num_words;
         (y, s6) \<leftarrow> ctx_mr_slice_without_prot s5 y_ptr num_words;
         result \<leftarrow> fp_op_result P op x y;
         let s7 = bump_memory_clk s6;
         (_, s8) \<leftarrow> ctx_mw_slice_without_prot s7 x_ptr result;
         Some (Inr None, s8)
       }))
   }"

definition minimal_fp2_addsub ::
    "externs \<Rightarrow> base_field \<Rightarrow> MinimalExecutor \<Rightarrow> u64 \<Rightarrow> u64 \<Rightarrow> FieldOperation \<Rightarrow> ecall_result" where
  "minimal_fp2_addsub E P s x_ptr y_ptr fp_op = do {
     assert_that (is_multiple_of x_ptr 8);
     assert_that (is_multiple_of y_ptr 8);
     let num_words = WordsCurvePoint P;
     let clk = m_clk s;
     try_then (read_slice_check (abi E) s y_ptr num_words) (\<lambda>_ s1.
       let s2 = bump_memory_clk s1
       in try_then (read_write_slice_check (abi E) s2 x_ptr num_words) (\<lambda>_ s3. do {
         let s4 = s3\<lparr>m_clk := clk\<rparr>;
         (x, s5) \<leftarrow> ctx_mr_slice_unsafe s4 x_ptr num_words;
         (y, s6) \<leftarrow> ctx_mr_slice_without_prot s5 y_ptr num_words;
         result \<leftarrow> fp2_addsub_result P fp_op x y;
         let s7 = bump_memory_clk s6;
         (_, s8) \<leftarrow> ctx_mw_slice_without_prot s7 x_ptr result;
         Some (Inr None, s8)
       }))
   }"

definition minimal_fp2_mul ::
    "externs \<Rightarrow> base_field \<Rightarrow> MinimalExecutor \<Rightarrow> u64 \<Rightarrow> u64 \<Rightarrow> ecall_result" where
  "minimal_fp2_mul E P s x_ptr y_ptr = do {
     assert_that (is_multiple_of x_ptr 8);
     assert_that (is_multiple_of y_ptr 8);
     let num_words = WordsCurvePoint P;
     let clk = m_clk s;
     try_then (read_slice_check (abi E) s y_ptr num_words) (\<lambda>_ s1.
       let s2 = bump_memory_clk s1
       in try_then (read_write_slice_check (abi E) s2 x_ptr num_words) (\<lambda>_ s3. do {
         let s4 = s3\<lparr>m_clk := clk\<rparr>;
         (x, s5) \<leftarrow> ctx_mr_slice_unsafe s4 x_ptr num_words;
         (y, s6) \<leftarrow> ctx_mr_slice_without_prot s5 y_ptr num_words;
         result \<leftarrow> fp2_mul_result P x y;
         let s7 = bump_memory_clk s6;
         (_, s8) \<leftarrow> ctx_mw_slice_without_prot s7 x_ptr result;
         Some (Inr None, s8)
       }))
   }"

definition minimal_uint256_mul :: "externs \<Rightarrow> MinimalExecutor \<Rightarrow> u64 \<Rightarrow> u64 \<Rightarrow> ecall_result" where
  "minimal_uint256_mul E s x_ptr y_ptr = do {
     assert_that (is_multiple_of x_ptr 8);
     assert_that (is_multiple_of y_ptr 8);
     let clk = m_clk s;
     try_then (read_slice_check (abi E) s y_ptr 8) (\<lambda>_ s1.
       let s2 = bump_memory_clk s1
       in try_then (read_write_slice_check (abi E) s2 x_ptr 4) (\<lambda>_ s3. do {
         let s4 = s3\<lparr>m_clk := clk\<rparr>;
         (x, s5) \<leftarrow> ctx_mr_slice_unsafe s4 x_ptr 4;
         (y_and_modulus, s6) \<leftarrow> ctx_mr_slice_without_prot s5 y_ptr 8;
         assert_that (32 \<le> length (words_to_bytes_le y_and_modulus));
         let result = uint256_mul_result x y_and_modulus;
         let s7 = bump_memory_clk s6;
         (_, s8) \<leftarrow> ctx_mw_slice_without_prot s7 x_ptr result;
         Some (Inr None, s8)
       }))
   }"

definition minimal_uint256_ops :: "externs \<Rightarrow> MinimalExecutor \<Rightarrow> u64 \<Rightarrow> u64 \<Rightarrow> ecall_result" where
  "minimal_uint256_ops E s a_ptr b_ptr = do {
     syscall_code \<leftarrow> from_u32 (ucast (ctx_rr s X5));
     op \<leftarrow> uint256_op_map syscall_code;
     let c_ptr = ctx_rr s X12;
     let d_ptr = ctx_rr s X13;
     let e_ptr = ctx_rr s X14;
     let clk = m_clk s;
     try_then (read_slice_check (abi E) s a_ptr 4) (\<lambda>_ s1.
       try_then (read_slice_check (abi E) (bump_memory_clk s1) b_ptr 4) (\<lambda>_ s2.
       try_then (read_slice_check (abi E) (bump_memory_clk s2) c_ptr 4) (\<lambda>_ s3.
       try_then (write_slice_check (abi E) (bump_memory_clk s3) d_ptr 4) (\<lambda>_ s4.
       try_then (write_slice_check (abi E) (bump_memory_clk s4) e_ptr 4) (\<lambda>_ s5. do {
         (a, s6) \<leftarrow> ctx_mr_slice_without_prot (s5\<lparr>m_clk := clk\<rparr>) a_ptr 4;
         (b, s7) \<leftarrow> ctx_mr_slice_without_prot (bump_memory_clk s6) b_ptr 4;
         (c, s8) \<leftarrow> ctx_mr_slice_without_prot (bump_memory_clk s7) c_ptr 4;
         let u64_result = uint256_ops_result op a b c;
         (_, s9) \<leftarrow> ctx_mw_slice_without_prot (bump_memory_clk s8) d_ptr (take 4 u64_result);
         (_, s10) \<leftarrow> ctx_mw_slice_without_prot (bump_memory_clk s9) e_ptr (take 4 (drop 4 u64_result));
         Some (Inr None, s10)
       })))))
   }"

subsection \<open>Page permissions and signals\<close>

definition minimal_mprotect :: "externs \<Rightarrow> MinimalExecutor \<Rightarrow> u64 \<Rightarrow> u64 \<Rightarrow> ecall_result" where
  "minimal_mprotect E s addr prot = do {
     assert_that (prot < 256);
     let prot = (ucast prot :: u8);
     assert_that (is_multiple_of addr (2 ^ LOG_PAGE_SIZE));
     assert_that (addr < 2 ^ MAX_LOG_ADDR);
     assert_that (prot \<in> set (PERMITTED_PROTS (abi E)));
     assert_that (\<not> is_unconstrained s);
     (_, s1) \<leftarrow> ctx_page_prot_write (abi E) s addr prot;
     Some (Inr None, s1)
   }"

text \<open>The default \<open>page_prot_flush\<close> of the trait does nothing.\<close>

definition minimal_mprotect_flush :: "MinimalExecutor \<Rightarrow> u64 \<Rightarrow> u64 \<Rightarrow> ecall_result" where
  "minimal_mprotect_flush s arg1 arg2 = Some (Inr None, s)"

definition minimal_sig_return :: "MinimalExecutor \<Rightarrow> u64 \<Rightarrow> u64 \<Rightarrow> ecall_result" where
  "minimal_sig_return s addr arg2 = do {
     (regs, s1) \<leftarrow> ctx_mr_slice_without_prot s (addr + 8) 31;
     let s2 = bump_memory_clk s1;
     assert_that (length regs = 31);
     let s3 = foldl (\<lambda>s (reg, v). ctx_rw s reg v) s2 (zip (drop 1 all_registers) regs);
     Some (Inr (Some (regs ! 4)), s3)
   }"

subsection \<open>Input and output\<close>

primrec write_hint_words :: "MinimalExecutor \<Rightarrow> u64 \<Rightarrow> u64 list \<Rightarrow> MinimalExecutor option" where
  "write_hint_words s ptr [] = Some s"
| "write_hint_words s ptr (w # ws) = do { s1 \<leftarrow> mw_hint s ptr w; write_hint_words s1 (ptr + 8) ws }"

definition hint_read :: "MinimalExecutor \<Rightarrow> u64 \<Rightarrow> u64 \<Rightarrow> ecall_result" where
  "hint_read s ptr len = (case m_input s of
      [] \<Rightarrow> None
    | vec # rest \<Rightarrow> do {
        let s1 = trace_hint (s\<lparr>m_input := rest\<rparr>) ptr vec;
        assert_that (of_nat (length vec) = len);
        assert_that (ptr mod 8 = 0);
        let chunks = as_chunks 8 vec;
        let remainder = drop (8 * length chunks) vec;
        s2 \<leftarrow> write_hint_words s1 ptr (map from_le_bytes chunks);
        let final_word = from_le_bytes (vec_resize 8 0 remainder);
        s3 \<leftarrow> mw_hint s2 (ptr + of_nat (length chunks) * 8) final_word;
        Some (Inr None, s3)
      })"

definition hint_len :: "MinimalExecutor \<Rightarrow> u64 \<Rightarrow> u64 \<Rightarrow> ecall_result" where
  "hint_len s arg1 arg2 = do {
     let v = (case m_input s of [] \<Rightarrow> 0xFFFFFFFFFFFFFFFF | data # _ \<Rightarrow> of_nat (length data));
     s1 \<leftarrow> trace_value s v;
     Some (Inr (Some v), s1)
   }"

abbreviation (input) FD_PUBLIC_VALUES :: u32 where "FD_PUBLIC_VALUES \<equiv> 13"
abbreviation (input) FD_HINT :: u32 where "FD_HINT \<equiv> 14"

text \<open>Output to the descriptors 1 and 2 goes to the host's console, which is not part of the state.
  The hooks have the descriptors 15 to 21.\<close>

definition minimal_write :: "externs \<Rightarrow> MinimalExecutor \<Rightarrow> u64 \<Rightarrow> u64 \<Rightarrow> ecall_result" where
  "minimal_write E s fd buf_ptr = do {
     let nbytes = ctx_rr s X12;
     let start = buf_ptr AND NOT 7;
     let head = buf_ptr AND 7;
     let nwords = (unat (head + nbytes) + 7) div 8;
     (slice, s1) \<leftarrow> ctx_mr_slice_no_trace s start nwords;
     let bytes = take (unat nbytes) (drop (unat head) (words_to_bytes_le slice));
     if fd = 1 \<or> fd = 2 then Some (Inr None, s1)
     else if ucast fd = FD_PUBLIC_VALUES then
       Some (Inr None, s1\<lparr>m_public_values_stream := m_public_values_stream s1 @ bytes\<rparr>)
     else if ucast fd = FD_HINT then Some (Inr None, s1\<lparr>m_input := bytes # m_input s1\<rparr>)
     else if 15 \<le> (ucast fd :: u32) \<and> (ucast fd :: u32) \<le> 21 then do {
       hook_return \<leftarrow> hook E (ucast fd) bytes;
       Some (Inr None, s1\<lparr>m_input := hook_return @ m_input s1\<rparr>)
     } else Some (Inr None, s1)
   }"

subsection \<open>Debugging\<close>

text \<open>The profiler calls parse a string of the guest's memory and panic when it is malformed; the
  profiler itself is not part of the state.\<close>

definition profiler_data :: "MinimalExecutor \<Rightarrow> u64 \<Rightarrow> u64 \<Rightarrow> u8 list stepped" where
  "profiler_data s addr len = do {
     let aligned_start = addr AND NOT 7;
     let align_offset = addr - aligned_start;
     let aligned_len = (unat (len + align_offset) + 7) div 8;
     (slice, s1) \<leftarrow> ctx_mr_slice_no_trace s aligned_start aligned_len;
     let data = words_to_bytes_le slice;
     assert_that (align_offset \<le> align_offset + len \<and> unat (align_offset + len) \<le> length data);
     Some (take (unat len) (drop (unat align_offset) data), s1)
   }"

definition insert_profile_symbols :: "externs \<Rightarrow> MinimalExecutor \<Rightarrow> u64 \<Rightarrow> u64 \<Rightarrow> ecall_result" where
  "insert_profile_symbols E s addr len = do {
     (data, s1) \<leftarrow> profiler_data s addr len;
     assert_that (profiler_symbols_ok E data);
     Some (Inr None, s1)
   }"

definition delete_profile_symbols :: "externs \<Rightarrow> MinimalExecutor \<Rightarrow> u64 \<Rightarrow> u64 \<Rightarrow> ecall_result" where
  "delete_profile_symbols E s addr len = do {
     (data, s1) \<leftarrow> profiler_data s addr len;
     assert_that (profiler_addresses_ok E data);
     Some (Inr None, s1)
   }"

subsection \<open>Dispatch\<close>

definition ecall_dispatch :: "externs \<Rightarrow> MinimalExecutor \<Rightarrow> SyscallCode \<Rightarrow> u64 \<Rightarrow> u64 \<Rightarrow> ecall_result" where
  "ecall_dispatch E s code arg1 arg2 = (case code of
      SHA_EXTEND \<Rightarrow> minimal_sha256_extend E s arg1 arg2
    | SHA_COMPRESS \<Rightarrow> minimal_sha256_compress E s arg1 arg2
    | KECCAK_PERMUTE \<Rightarrow> minimal_keccak_permute E s arg1 arg2
    | SECP256K1_ADD \<Rightarrow> minimal_ec_add E Secp256k1 s arg1 arg2
    | SECP256K1_DOUBLE \<Rightarrow> minimal_ec_double E Secp256k1 s arg1 arg2
    | SECP256K1_DECOMPRESS \<Rightarrow> None
    | SECP256R1_ADD \<Rightarrow> minimal_ec_add E Secp256r1 s arg1 arg2
    | SECP256R1_DOUBLE \<Rightarrow> minimal_ec_double E Secp256r1 s arg1 arg2
    | SECP256R1_DECOMPRESS \<Rightarrow> None
    | BLS12381_ADD \<Rightarrow> minimal_ec_add E Bls12381 s arg1 arg2
    | BLS12381_DOUBLE \<Rightarrow> minimal_ec_double E Bls12381 s arg1 arg2
    | BLS12381_DECOMPRESS \<Rightarrow> None
    | BN254_ADD \<Rightarrow> minimal_ec_add E Bn254 s arg1 arg2
    | BN254_DOUBLE \<Rightarrow> minimal_ec_double E Bn254 s arg1 arg2
    | ED_ADD \<Rightarrow> minimal_ec_add E Ed25519 s arg1 arg2
    | ED_DECOMPRESS \<Rightarrow> minimal_edwards_decompress E s arg1 arg2
    | BLS12381_FP_ADD \<Rightarrow> do { op \<leftarrow> fp_op_map code; minimal_fp_op E Bls12381BaseField s arg1 arg2 op }
    | BLS12381_FP_SUB \<Rightarrow> do { op \<leftarrow> fp_op_map code; minimal_fp_op E Bls12381BaseField s arg1 arg2 op }
    | BLS12381_FP_MUL \<Rightarrow> do { op \<leftarrow> fp_op_map code; minimal_fp_op E Bls12381BaseField s arg1 arg2 op }
    | BLS12381_FP2_ADD \<Rightarrow> do { op \<leftarrow> fp_op_map code; minimal_fp2_addsub E Bls12381BaseField s arg1 arg2 op }
    | BLS12381_FP2_SUB \<Rightarrow> do { op \<leftarrow> fp_op_map code; minimal_fp2_addsub E Bls12381BaseField s arg1 arg2 op }
    | BLS12381_FP2_MUL \<Rightarrow> minimal_fp2_mul E Bls12381BaseField s arg1 arg2
    | BN254_FP_ADD \<Rightarrow> do { op \<leftarrow> fp_op_map code; minimal_fp_op E Bn254BaseField s arg1 arg2 op }
    | BN254_FP_SUB \<Rightarrow> do { op \<leftarrow> fp_op_map code; minimal_fp_op E Bn254BaseField s arg1 arg2 op }
    | BN254_FP_MUL \<Rightarrow> do { op \<leftarrow> fp_op_map code; minimal_fp_op E Bn254BaseField s arg1 arg2 op }
    | BN254_FP2_ADD \<Rightarrow> do { op \<leftarrow> fp_op_map code; minimal_fp2_addsub E Bn254BaseField s arg1 arg2 op }
    | BN254_FP2_SUB \<Rightarrow> do { op \<leftarrow> fp_op_map code; minimal_fp2_addsub E Bn254BaseField s arg1 arg2 op }
    | BN254_FP2_MUL \<Rightarrow> minimal_fp2_mul E Bn254BaseField s arg1 arg2
    | UINT256_MUL \<Rightarrow> minimal_uint256_mul E s arg1 arg2
    | U256XU2048_MUL \<Rightarrow> None
    | ENTER_UNCONSTRAINED \<Rightarrow> do { s1 \<leftarrow> enter_unconstrained s; Some (Inr (Some 1), s1) }
    | EXIT_UNCONSTRAINED \<Rightarrow> do { s1 \<leftarrow> exit_unconstrained s; Some (Inr (Some 0), s1) }
    | HINT_LEN \<Rightarrow> hint_len s arg1 arg2
    | HINT_READ \<Rightarrow> hint_read s arg1 arg2
    | WRITE \<Rightarrow> minimal_write E s arg1 arg2
    | UINT256_MUL_CARRY \<Rightarrow> minimal_uint256_ops E s arg1 arg2
    | UINT256_ADD_CARRY \<Rightarrow> minimal_uint256_ops E s arg1 arg2
    | POSEIDON2 \<Rightarrow> minimal_poseidon2 E s arg1 arg2
    | HALT \<Rightarrow> Some (Inr None, s\<lparr>m_exit_code := ucast arg1\<rparr>)
    | MPROTECT \<Rightarrow> minimal_mprotect E s arg1 arg2
    | HINT_MPROTECT_FLUSH \<Rightarrow> minimal_mprotect_flush s arg1 arg2
    | SIG_RETURN \<Rightarrow> minimal_sig_return s arg1 arg2
    | DUMP_ELF \<Rightarrow> do { mem \<leftarrow> dump_elf E s; Some (Inr None, s\<lparr>m_memory := mem\<rparr>) }
    | INSERT_PROFILER_SYMBOLS \<Rightarrow> insert_profile_symbols E s arg1 arg2
    | DELETE_PROFILER_SYMBOLS \<Rightarrow> delete_profile_symbols E s arg1 arg2
    | COMMIT \<Rightarrow> do {
        assert_that (unat arg2 < 2 ^ 32);
        s1 \<leftarrow> set_public_value_digest_word s arg1 (ucast arg2);
        Some (Inr None, s1)
      }
    | VERIFY_SP1_PROOF \<Rightarrow> Some (Inr None, s)
    | COMMIT_DEFERRED_PROOFS \<Rightarrow> Some (Inr None, s))"

definition ecall_handler :: "externs \<Rightarrow> MinimalExecutor \<Rightarrow> SyscallCode \<Rightarrow> u64 checked" where
  "ecall_handler E s code = do {
     let arg1 = ctx_rr s X10;
     let arg2 = ctx_rr s X11;
     assert_that (\<not> (is_unconstrained s \<and> (code \<noteq> WRITE \<and> code \<noteq> EXIT_UNCONSTRAINED)));
     try_then (ecall_dispatch E s code arg1 arg2) (\<lambda>opt s1.
       Some (Inr (case opt of Some v \<Rightarrow> v | None \<Rightarrow> ucast (syscall_num code)), s1))
   }"

subsection \<open>One instruction\<close>

text \<open>\<open>execute_ecall\<close> of supervisor mode; an interrupt is a panic.\<close>

definition minimal_execute_ecall :: "externs \<Rightarrow> MinimalExecutor \<Rightarrow> Instruction \<Rightarrow> MinimalExecutor option" where
  "minimal_execute_ecall E s instruction = do {
     assert_that (is_ecall_instruction instruction);
     code \<leftarrow> from_u32 (ucast (ctx_rr s X5));
     let s1 = (if code \<noteq> EXIT_UNCONSTRAINED then s\<lparr>m_next_clk := m_next_clk s + 256\<rparr> else s);
     (r, s2) \<leftarrow> ecall_handler E s1 code;
     (case r of
       Inl i \<Rightarrow> None
     | Inr v \<Rightarrow> Some (handle_ecall_special_cases (ctx_rw s2 X5 v) code))
   }"

definition execute_ecall_user :: "externs \<Rightarrow> MinimalExecutor \<Rightarrow> Instruction \<Rightarrow> unit checked" where
  "execute_ecall_user E s instruction = do {
     assert_that (is_ecall_instruction instruction);
     code \<leftarrow> from_u32 (ucast (ctx_rr s X5));
     s1 \<leftarrow> (if code = SIG_RETURN then do {
              (v, s1) \<leftarrow> ctx_mr_without_prot s (ctx_rr s X10);
              Some (s1\<lparr>m_next_pc := v\<rparr>)
            } else Some s);
     let s2 = (if code \<noteq> EXIT_UNCONSTRAINED then s1\<lparr>m_next_clk := m_next_clk s1 + 256\<rparr> else s1);
     try_then (ecall_handler E s2 code) (\<lambda>v s3.
       Some (Inr (), handle_ecall_special_cases (ctx_rw s3 X5 v) code))
   }"

definition stop_after_instruction :: "MinimalExecutor \<Rightarrow> bool stepped" where
  "stop_after_instruction s = (
     let s1 = post_instruction_update s
     in do {
       exceeded \<leftarrow> check_trace_buffer_exceeded s1;
       Some (is_done s1 \<or> exceeded, s1)
     })"

text \<open>\<open>execute_instruction\<close>, which returns whether the chunk is complete.\<close>

definition execute_instruction_supervisor :: "externs \<Rightarrow> MinimalExecutor \<Rightarrow> bool stepped" where
  "execute_instruction_supervisor E s = do {
     instruction \<leftarrow> fetch (m_program s) (m_pc s);
     let s0 = s\<lparr>m_next_pc := m_pc s + PC_INC, m_next_clk := m_clk s + CLK_INC\<rparr>;
     s1 \<leftarrow> (if is_alu_instruction instruction then minimal_execute_alu s0 instruction
       else if is_memory_load_instruction instruction then minimal_execute_load s0 instruction
       else if is_memory_store_instruction instruction then minimal_execute_store s0 instruction
       else if is_branch_instruction instruction then minimal_execute_branch s0 instruction
       else if is_jump_instruction instruction then minimal_execute_jump s0 instruction
       else if is_utype_instruction instruction then minimal_execute_utype s0 instruction
       else if is_ecall_instruction instruction then minimal_execute_ecall E s0 instruction
       else None);
     stop_after_instruction s1
   }"

definition to_checked :: "MinimalExecutor option \<Rightarrow> unit checked" where
  "to_checked r = do { s \<leftarrow> r; Some (Inr (), s) }"

definition execute_instruction_user :: "externs \<Rightarrow> MinimalExecutor \<Rightarrow> bool stepped" where
  "execute_instruction_user E s = do {
     let s0 = s\<lparr>m_next_pc := m_pc s + PC_INC, m_next_clk := m_clk s + CLK_INC\<rparr>;
     let original_clk = m_clk s0;
     (r, s1) \<leftarrow> try_then (minimal_fetch (abi E) (process_instruction E) s0) (\<lambda>instruction s1.
       if is_alu_instruction instruction then to_checked (minimal_execute_alu s1 instruction)
       else if is_memory_load_instruction instruction then execute_load_user (abi E) s1 instruction
       else if is_memory_store_instruction instruction then execute_store_user (abi E) s1 instruction
       else if is_branch_instruction instruction then to_checked (minimal_execute_branch s1 instruction)
       else if is_jump_instruction instruction then to_checked (minimal_execute_jump s1 instruction)
       else if is_utype_instruction instruction then to_checked (minimal_execute_utype s1 instruction)
       else if is_ecall_instruction instruction then execute_ecall_user E s1 instruction
       else None);
     s2 \<leftarrow> (case r of
         Inr _ \<Rightarrow> Some s1
       | Inl interrupt \<Rightarrow> do {
           let new_clk = m_clk s1;
           s3 \<leftarrow> handle_interrupt (s1\<lparr>m_clk := original_clk\<rparr>) interrupt;
           Some (s3\<lparr>m_clk := new_clk\<rparr>)
         });
     stop_after_instruction s2
   }"

definition execute_instruction :: "externs \<Rightarrow> MinimalExecutor \<Rightarrow> bool stepped" where
  "execute_instruction E s = (case m_mode s of
      SupervisorMode \<Rightarrow> execute_instruction_supervisor E s
    | UserMode \<Rightarrow> execute_instruction_user E s)"

subsection \<open>One chunk\<close>

text \<open>The loop over instructions may not end; \<open>fuel\<close> bounds the number of iterations, and the outer
  \<open>None\<close> means that it has run out. The source mutates \<open>self\<close>: a caller that gets an error still has the
  executor, so \<open>Err\<close> comes with its state too. An error leaves the trace of the unfinished chunk in it.\<close>

fun chunk_loop :: "externs \<Rightarrow> nat \<Rightarrow> MinimalExecutor \<Rightarrow>
    (ExecutionError \<times> MinimalExecutor, MinimalExecutor) outcome option" where
  "chunk_loop E 0 s = None"
| "chunk_loop E (Suc fuel) s = (case execute_instruction E s of
      None \<Rightarrow> Some Panic
    | Some (stop, s1) \<Rightarrow>
        if stop then Some (Ok s1)
        else (case last_error (m_memory s1) of
            Some err \<Rightarrow> Some (Err (err, s1))
          | None \<Rightarrow> chunk_loop E fuel s1))"

definition start_chunk :: "MinimalExecutor \<Rightarrow> MinimalExecutor option" where
  "start_chunk s = (
     let capacity = trace_capacity (m_max_trace_size s)
     in if capacity > 0 then do {
          b \<leftarrow> new_buffer capacity;
          Some (s\<lparr>m_traces := Some (b\<lparr>h_start_registers := m_registers s, h_pc_start := m_pc s,
                                        h_clk_start := m_clk s\<rparr>)\<rparr>)
        } else Some (case m_traces s of
            None \<Rightarrow> s
          | Some b \<Rightarrow> s\<lparr>m_traces := Some (b\<lparr>h_start_registers := m_registers s, h_pc_start := m_pc s,
                                               h_clk_start := m_clk s\<rparr>)\<rparr>))"

definition finish_chunk :: "MinimalExecutor \<Rightarrow> TraceChunkBuffer option \<times> MinimalExecutor" where
  "finish_chunk s =
    (map_option (\<lambda>b. b\<lparr>h_clk_end := m_clk s, h_global_clk_end := m_global_clk s\<rparr>) (m_traces s),
     s\<lparr>m_traces := None\<rparr>)"

definition try_execute_chunk :: "externs \<Rightarrow> nat \<Rightarrow> MinimalExecutor \<Rightarrow>
    (ExecutionError \<times> MinimalExecutor, TraceChunkBuffer option \<times> MinimalExecutor) outcome option" where
  "try_execute_chunk E fuel s = (case last_error (m_memory s) of
      Some err \<Rightarrow> Some (Err (err, s))
    | None \<Rightarrow>
        if is_done s then Some (Ok (None, s))
        else (case start_chunk s of
            None \<Rightarrow> Some Panic
          | Some s1 \<Rightarrow> map_option (\<lambda>r. and_then r (\<lambda>s2. Ok (finish_chunk s2))) (chunk_loop E fuel s1)))"

end
