(* ===== verification/Core_Syscall.thy ===== *)
theory Core_Syscall
  imports Core_VM Minimal_Ecall
begin

text \<open>
  The system calls of the core VM (\<open>vm/syscall.rs\<close>, \<open>vm/syscall/\<close>) and \<open>CoreVM::execute_ecall\<close>. They are
  generic in the machine that runs them, through the trait \<open>SyscallRuntime\<close>. Here the trait is a
  record of its methods, which every handler takes as its first argument; the methods that no machine
  overrides are definitions over it. The handlers are those for machines with \<open>TRACING = false\<close>, which
  emit no events: the access records that only the events use are dropped.

  A handler returns \<open>None\<close> when it panics, and otherwise the error of a trap (\<open>Inl\<close>) or the value for
  register \<open>X5\<close>, if it has one (\<open>Inr\<close>), beside the machine's state.
\<close>

subsection \<open>The runtime\<close>

record 'r SyscallRuntime =
  rt_core :: "'r \<Rightarrow> CoreVM"
  rt_set_core :: "CoreVM \<Rightarrow> 'r \<Rightarrow> 'r"
  rt_rr :: "'r \<Rightarrow> nat \<Rightarrow> (MemoryReadRecord \<times> 'r) option"
  rt_rw :: "'r \<Rightarrow> nat \<Rightarrow> u64 \<Rightarrow> (MemoryWriteRecord \<times> 'r) option"
  rt_page_prot_write :: "'r \<Rightarrow> u64 \<Rightarrow> u8 \<Rightarrow> (PageProtRecord \<times> 'r) option"
  rt_page_prot_range_check ::
    "'r \<Rightarrow> u64 \<Rightarrow> u64 \<Rightarrow> u8 \<Rightarrow> ((PageProtRecord list \<times> TrapError option) \<times> 'r) option"
  rt_mr_without_prot :: "'r \<Rightarrow> u64 \<Rightarrow> (MemoryReadRecord \<times> 'r) option"
  rt_mw_without_prot :: "'r \<Rightarrow> u64 \<Rightarrow> (MemoryWriteRecord \<times> 'r) option"
  rt_mr_slice_without_prot :: "'r \<Rightarrow> u64 \<Rightarrow> nat \<Rightarrow> MemoryReadRecord list \<times> 'r"
  rt_mw_slice_without_prot :: "'r \<Rightarrow> u64 \<Rightarrow> nat \<Rightarrow> MemoryWriteRecord list \<times> 'r"

type_synonym 'r handled = "((TrapError + u64 option) \<times> 'r) option"
type_synonym 'r trapped = "(TrapError option \<times> 'r) option"

text \<open>The core VM is a runtime: it keeps the default of every method.\<close>

definition core_runtime :: "elf_abi \<Rightarrow> CoreVM SyscallRuntime" where
  "core_runtime e =
    \<lparr>rt_core = (\<lambda>c. c), rt_set_core = (\<lambda>c _. c), rt_rr = core_rt_rr, rt_rw = core_rt_rw,
     rt_page_prot_write = core_page_prot_write,
     rt_page_prot_range_check = core_page_prot_range_check e,
     rt_mr_without_prot = core_mr_without_prot, rt_mw_without_prot = core_mw_without_prot,
     rt_mr_slice_without_prot = core_mr_slice_without_prot,
     rt_mw_slice_without_prot = core_mw_slice_without_prot\<rparr>"

definition reset_clk :: "'r SyscallRuntime \<Rightarrow> 'r \<Rightarrow> u64 \<Rightarrow> 'r" where
  "reset_clk R r new_clk = rt_set_core R ((rt_core R r)\<lparr>c_clk := new_clk\<rparr>) r"

definition increment_clk :: "'r SyscallRuntime \<Rightarrow> 'r \<Rightarrow> 'r" where
  "increment_clk R r = reset_clk R r (c_clk (rt_core R r) + 1)"

definition rt_mr_slice_unsafe :: "'r SyscallRuntime \<Rightarrow> 'r \<Rightarrow> nat \<Rightarrow> u64 list \<times> 'r" where
  "rt_mr_slice_unsafe R r len = (
     let (vs, c) = take_reads (rt_core R r) len in (map value vs, rt_set_core R c r))"

definition rt_prot_slice_check :: "'r SyscallRuntime \<Rightarrow> 'r \<Rightarrow> u64 \<Rightarrow> nat \<Rightarrow> u8 \<Rightarrow>
    ((PageProtRecord list \<times> TrapError option) \<times> 'r) option" where
  "rt_prot_slice_check R r addr len bitmap = (
     let first_page_idx = drop_bit LOG_PAGE_SIZE addr;
         last_page_idx = drop_bit LOG_PAGE_SIZE (addr + of_nat (len - 1) * 8)
     in rt_page_prot_range_check R r first_page_idx last_page_idx bitmap)"

definition rt_read_slice_check :: "elf_abi \<Rightarrow> 'r SyscallRuntime \<Rightarrow> 'r \<Rightarrow> u64 \<Rightarrow> nat \<Rightarrow>
    ((PageProtRecord list \<times> TrapError option) \<times> 'r) option" where
  "rt_read_slice_check e R r addr len = rt_prot_slice_check R r addr len (PROT_READ e)"

definition rt_write_slice_check :: "elf_abi \<Rightarrow> 'r SyscallRuntime \<Rightarrow> 'r \<Rightarrow> u64 \<Rightarrow> nat \<Rightarrow>
    ((PageProtRecord list \<times> TrapError option) \<times> 'r) option" where
  "rt_write_slice_check e R r addr len = rt_prot_slice_check R r addr len (PROT_WRITE e)"

definition rt_read_write_slice_check :: "elf_abi \<Rightarrow> 'r SyscallRuntime \<Rightarrow> 'r \<Rightarrow> u64 \<Rightarrow> nat \<Rightarrow>
    ((PageProtRecord list \<times> TrapError option) \<times> 'r) option" where
  "rt_read_write_slice_check e R r addr len =
    rt_prot_slice_check R r addr len (PROT_READ e OR PROT_WRITE e)"

text \<open>A check in a \<open>trap_*\<close> function: on an error the function returns it, otherwise it goes on; and the
  end of a handler, which turns the trap into the result.\<close>

definition check_then ::
    "(('recs \<times> TrapError option) \<times> 'r) option \<Rightarrow> ('r \<Rightarrow> 'r trapped) \<Rightarrow> 'r trapped" where
  "check_then m k = do {
     ((_, error), r) \<leftarrow> m;
     if error \<noteq> None then Some (error, r) else k r
   }"

definition no_trap :: "'r \<Rightarrow> 'r trapped" where
  "no_trap r = Some (None, r)"

definition trap_result :: "TrapError option \<Rightarrow> 'r \<Rightarrow> 'r handled" where
  "trap_result is_trap r = Some (case is_trap of Some err \<Rightarrow> Inl err | None \<Rightarrow> Inr None, r)"

subsection \<open>Program control\<close>

definition hint_len_syscall :: "'r SyscallRuntime \<Rightarrow> 'r \<Rightarrow> u64 option \<times> 'r" where
  "hint_len_syscall R r = (case next_read (rt_core R r) of
      None \<Rightarrow> (None, r)
    | Some (v, c) \<Rightarrow> (Some (value v), rt_set_core R c r))"

definition halt_syscall :: "'r SyscallRuntime \<Rightarrow> 'r \<Rightarrow> u64 \<Rightarrow> u64 option \<times> 'r" where
  "halt_syscall R r exit_code =
    (None, rt_set_core R ((rt_core R r)\<lparr>c_next_pc := HALT_PC, c_exit_code := ucast exit_code\<rparr>) r)"

definition commit_syscall :: "'r SyscallRuntime \<Rightarrow> 'r \<Rightarrow> u64 \<Rightarrow> u64 \<Rightarrow> (u64 option \<times> 'r) option" where
  "commit_syscall R r word_idx public_values_digest_word = do {
     assert_that (unat public_values_digest_word < 2 ^ 32);
     let digest_word = (ucast public_values_digest_word :: u32);
     assert_that (word_idx < 8);
     let c = rt_core R r;
     Some (None, rt_set_core R (c\<lparr>c_public_value_digest :=
       (c_public_value_digest c)(unat word_idx := digest_word)\<rparr>) r)
   }"

definition commit_deferred_proofs_syscall :: "'r \<Rightarrow> u64 option \<times> 'r" where
  "commit_deferred_proofs_syscall r = (None, r)"

definition vm_mprotect :: "elf_abi \<Rightarrow> 'r SyscallRuntime \<Rightarrow> 'r \<Rightarrow> u64 \<Rightarrow> u64 \<Rightarrow> (u64 option \<times> 'r) option" where
  "vm_mprotect e R r addr prot = do {
     assert_that (prot < 256);
     let prot = (ucast prot :: u8);
     assert_that (is_multiple_of addr (2 ^ LOG_PAGE_SIZE));
     assert_that (addr < 2 ^ MAX_LOG_ADDR);
     assert_that (prot \<in> set (PERMITTED_PROTS e));
     let i = addr div 2 ^ LOG_PAGE_SIZE;
     (_, r1) \<leftarrow> rt_page_prot_write R r i prot;
     Some (None, r1)
   }"

primrec write_registers :: "'r SyscallRuntime \<Rightarrow> 'r \<Rightarrow> nat \<Rightarrow> MemoryReadRecord list \<Rightarrow> 'r option" where
  "write_registers R r i [] = Some r"
| "write_registers R r i (record # records) = do {
     (_, r1) \<leftarrow> rt_rw R r (i + 1) (rd_value record);
     write_registers R r1 (i + 1) records
   }"

definition vm_sig_return :: "'r SyscallRuntime \<Rightarrow> 'r \<Rightarrow> u64 \<Rightarrow> u64 \<Rightarrow> (u64 option \<times> 'r) option" where
  "vm_sig_return R r arg1 arg2 = do {
     let ptr = arg1;
     assert_that (arg1 mod 8 = 0);
     assert_that (arg2 = 0);
     let (memory_read_records, r1) = rt_mr_slice_without_prot R r (ptr + 8) 31;
     let r2 = increment_clk R r1;
     r3 \<leftarrow> write_registers R r2 0 memory_read_records;
     x5_record \<leftarrow> vec_get memory_read_records 4;
     Some (Some (rd_value x5_record), r3)
   }"

subsection \<open>Curves\<close>

definition trap_weierstrass_add :: "elf_abi \<Rightarrow> 'r SyscallRuntime \<Rightarrow> curve \<Rightarrow> 'r \<Rightarrow> u64 \<Rightarrow> u64 \<Rightarrow> 'r trapped" where
  "trap_weierstrass_add e R C r p_ptr q_ptr = (
     let num_words = curve_words C
     in check_then (rt_read_slice_check e R r q_ptr num_words) (\<lambda>r1.
        check_then (rt_read_write_slice_check e R (increment_clk R r1) p_ptr num_words) no_trap))"

definition weierstrass_add :: "elf_abi \<Rightarrow> 'r SyscallRuntime \<Rightarrow> curve \<Rightarrow> 'r \<Rightarrow> u64 \<Rightarrow> u64 \<Rightarrow> 'r handled" where
  "weierstrass_add e R C r p_ptr q_ptr = do {
     assert_that (is_multiple_of p_ptr 8);
     assert_that (is_multiple_of q_ptr 8);
     let clk = c_clk (rt_core R r);
     let num_words = curve_words C;
     (is_trap, r1) \<leftarrow> trap_weierstrass_add e R C r p_ptr q_ptr;
     let r2 = reset_clk R r1 clk;
     if is_trap = None then do {
       let (p, r3) = rt_mr_slice_unsafe R r2 num_words;
       let (q_memory_records, r4) = rt_mr_slice_without_prot R r3 q_ptr num_words;
       let (write_record, r5) = rt_mw_slice_without_prot R (increment_clk R r4) p_ptr num_words;
       trap_result is_trap r5
     } else trap_result is_trap r2
   }"

definition weierstrass_double :: "elf_abi \<Rightarrow> 'r SyscallRuntime \<Rightarrow> curve \<Rightarrow> 'r \<Rightarrow> u64 \<Rightarrow> u64 \<Rightarrow> 'r handled" where
  "weierstrass_double e R C r p_ptr arg2 = do {
     assert_that (is_multiple_of p_ptr 8);
     let clk = c_clk (rt_core R r);
     let num_words = curve_words C;
     ((_, is_trap), r1) \<leftarrow> rt_read_write_slice_check e R r p_ptr num_words;
     if is_trap = None then do {
       let (p, r2) = rt_mr_slice_unsafe R r1 num_words;
       let (p_memory_records, r3) = rt_mw_slice_without_prot R r2 p_ptr num_words;
       trap_result is_trap (reset_clk R r3 clk)
     } else trap_result is_trap (reset_clk R r1 clk)
   }"

definition trap_edwards_add :: "elf_abi \<Rightarrow> 'r SyscallRuntime \<Rightarrow> 'r \<Rightarrow> u64 \<Rightarrow> u64 \<Rightarrow> 'r trapped" where
  "trap_edwards_add e R r p_ptr q_ptr = (
     let num_words = curve_words Ed25519
     in check_then (rt_read_slice_check e R r q_ptr num_words) (\<lambda>r1.
        check_then (rt_read_write_slice_check e R (increment_clk R r1) p_ptr num_words) no_trap))"

definition edwards_add :: "elf_abi \<Rightarrow> 'r SyscallRuntime \<Rightarrow> 'r \<Rightarrow> u64 \<Rightarrow> u64 \<Rightarrow> 'r handled" where
  "edwards_add e R r p_ptr q_ptr = do {
     assert_that (is_multiple_of p_ptr 8);
     assert_that (is_multiple_of q_ptr 8);
     let clk = c_clk (rt_core R r);
     let num_words = curve_words Ed25519;
     (is_trap, r1) \<leftarrow> trap_edwards_add e R r p_ptr q_ptr;
     let r2 = reset_clk R r1 clk;
     if is_trap = None then do {
       let (p, r3) = rt_mr_slice_unsafe R r2 num_words;
       let (q_memory_records, r4) = rt_mr_slice_without_prot R r3 q_ptr num_words;
       let (write_record, r5) = rt_mw_slice_without_prot R (increment_clk R r4) p_ptr num_words;
       trap_result is_trap r5
     } else trap_result is_trap r2
   }"

definition trap_edwards_decompress :: "elf_abi \<Rightarrow> 'r SyscallRuntime \<Rightarrow> 'r \<Rightarrow> u64 \<Rightarrow> 'r trapped" where
  "trap_edwards_decompress e R r slice_ptr =
    check_then (rt_read_slice_check e R r (slice_ptr + 32) 4) (\<lambda>r1.
    check_then (rt_write_slice_check e R (increment_clk R r1) slice_ptr 4) no_trap)"

definition edwards_decompress :: "elf_abi \<Rightarrow> 'r SyscallRuntime \<Rightarrow> 'r \<Rightarrow> u64 \<Rightarrow> u64 \<Rightarrow> 'r handled" where
  "edwards_decompress e R r slice_ptr sign_bit = do {
     assert_that (is_multiple_of slice_ptr 8);
     assert_that (sign_bit \<le> 1);
     let clk = c_clk (rt_core R r);
     (is_trap, r1) \<leftarrow> trap_edwards_decompress e R r slice_ptr;
     let r2 = reset_clk R r1 clk;
     if is_trap = None then do {
       let (y_memory_records, r3) = rt_mr_slice_without_prot R r2 (slice_ptr + 32) 4;
       let (x_memory_records, r4) = rt_mw_slice_without_prot R (increment_clk R r3) slice_ptr 4;
       trap_result is_trap r4
     } else trap_result is_trap r2
   }"

subsection \<open>Hash functions\<close>

definition trap_keccak256_permute :: "elf_abi \<Rightarrow> 'r SyscallRuntime \<Rightarrow> 'r \<Rightarrow> u64 \<Rightarrow> 'r trapped" where
  "trap_keccak256_permute e R r state_ptr =
    check_then (rt_read_slice_check e R r state_ptr 25) (\<lambda>r1.
    check_then (rt_write_slice_check e R (increment_clk R r1) state_ptr 25) no_trap)"

definition keccak256_permute :: "elf_abi \<Rightarrow> 'r SyscallRuntime \<Rightarrow> 'r \<Rightarrow> u64 \<Rightarrow> u64 \<Rightarrow> 'r handled" where
  "keccak256_permute e R r state_ptr arg2 = do {
     assert_that (arg2 = 0);
     let start_clk = c_clk (rt_core R r);
     (is_trap, r1) \<leftarrow> trap_keccak256_permute e R r state_ptr;
     let r2 = reset_clk R r1 start_clk;
     if is_trap = None then do {
       let (state_read_records, r3) = rt_mr_slice_without_prot R r2 state_ptr 25;
       let (state_write_records, r4) = rt_mw_slice_without_prot R (increment_clk R r3) state_ptr 25;
       trap_result is_trap r4
     } else trap_result is_trap r2
   }"

definition vm_poseidon2 :: "elf_abi \<Rightarrow> 'r SyscallRuntime \<Rightarrow> 'r \<Rightarrow> u64 \<Rightarrow> u64 \<Rightarrow> 'r handled" where
  "vm_poseidon2 e R r ptr arg2 = do {
     assert_that (arg2 = 0);
     assert_that (is_multiple_of ptr 8);
     ((_, is_trap), r1) \<leftarrow> rt_read_write_slice_check e R r ptr 8;
     if is_trap = None then do {
       let (_, r2) = rt_mr_slice_unsafe R r1 8;
       let (output_memory_records, r3) = rt_mw_slice_without_prot R r2 ptr 8;
       trap_result is_trap r3
     } else trap_result is_trap r1
   }"

definition trap_sha256_extend :: "elf_abi \<Rightarrow> 'r SyscallRuntime \<Rightarrow> 'r \<Rightarrow> u64 \<Rightarrow> 'r trapped" where
  "trap_sha256_extend e R r w_ptr =
    check_then (rt_page_prot_range_check R r (drop_bit LOG_PAGE_SIZE w_ptr)
      (drop_bit LOG_PAGE_SIZE (w_ptr + 15 * 8)) (PROT_READ e)) (\<lambda>r1.
    check_then (rt_page_prot_range_check R (increment_clk R r1) (drop_bit LOG_PAGE_SIZE (w_ptr + 16 * 8))
      (drop_bit LOG_PAGE_SIZE (w_ptr + 63 * 8)) (PROT_READ e OR PROT_WRITE e)) no_trap)"

primrec vm_sha_extend_loop :: "'r SyscallRuntime \<Rightarrow> 'r \<Rightarrow> u64 \<Rightarrow> nat list \<Rightarrow> 'r option" where
  "vm_sha_extend_loop R r w_ptr [] = Some r"
| "vm_sha_extend_loop R r w_ptr (i # is) = do {
     (w_i_minus_15_reads, r1) \<leftarrow> rt_mr_without_prot R r (w_ptr + of_nat (i - 15) * 8);
     (w_i_minus_2_reads, r2) \<leftarrow> rt_mr_without_prot R r1 (w_ptr + of_nat (i - 2) * 8);
     (w_i_minus_16_reads, r3) \<leftarrow> rt_mr_without_prot R r2 (w_ptr + of_nat (i - 16) * 8);
     (w_i_minus_7_reads, r4) \<leftarrow> rt_mr_without_prot R r3 (w_ptr + of_nat (i - 7) * 8);
     (w_i_write, r5) \<leftarrow> rt_mw_without_prot R r4 (w_ptr + of_nat i * 8);
     vm_sha_extend_loop R (increment_clk R r5) w_ptr is
   }"

definition vm_sha256_extend :: "elf_abi \<Rightarrow> 'r SyscallRuntime \<Rightarrow> 'r \<Rightarrow> u64 \<Rightarrow> u64 \<Rightarrow> 'r handled" where
  "vm_sha256_extend e R r w_ptr arg2 = do {
     assert_that (arg2 = 0);
     assert_that (is_multiple_of w_ptr 8);
     (is_trap, r1) \<leftarrow> trap_sha256_extend e R r w_ptr;
     if is_trap = None then do {
       r2 \<leftarrow> vm_sha_extend_loop R r1 w_ptr [16..<64];
       trap_result is_trap r2
     } else trap_result is_trap r1
   }"

definition trap_sha256_compress :: "elf_abi \<Rightarrow> 'r SyscallRuntime \<Rightarrow> 'r \<Rightarrow> u64 \<Rightarrow> u64 \<Rightarrow> 'r trapped" where
  "trap_sha256_compress e R r w_ptr h_ptr =
    check_then (rt_read_slice_check e R r h_ptr 8) (\<lambda>r1.
    check_then (rt_read_slice_check e R (increment_clk R r1) w_ptr 64) (\<lambda>r2.
    check_then (rt_write_slice_check e R (increment_clk R r2) h_ptr 8) no_trap))"

definition vm_sha256_compress :: "elf_abi \<Rightarrow> 'r SyscallRuntime \<Rightarrow> 'r \<Rightarrow> u64 \<Rightarrow> u64 \<Rightarrow> 'r handled" where
  "vm_sha256_compress e R r w_ptr h_ptr = do {
     let clk = c_clk (rt_core R r);
     (is_trap, r1) \<leftarrow> trap_sha256_compress e R r w_ptr h_ptr;
     let r2 = reset_clk R r1 clk;
     if is_trap = None then do {
       let (h_read_records, r3) = rt_mr_slice_without_prot R r2 h_ptr 8;
       let (w_i_read_records, r4) = rt_mr_slice_without_prot R (increment_clk R r3) w_ptr 64;
       let (h_write_records, r5) = rt_mw_slice_without_prot R (increment_clk R r4) h_ptr 8;
       trap_result is_trap r5
     } else trap_result is_trap r2
   }"

subsection \<open>Fields and 256-bit integers\<close>

definition trap_fp_op :: "elf_abi \<Rightarrow> 'r SyscallRuntime \<Rightarrow> base_field \<Rightarrow> 'r \<Rightarrow> u64 \<Rightarrow> u64 \<Rightarrow> 'r trapped" where
  "trap_fp_op e R P r x_ptr y_ptr = (
     let num_words = WordsFieldElement P
     in check_then (rt_read_slice_check e R r y_ptr num_words) (\<lambda>r1.
        check_then (rt_read_write_slice_check e R (increment_clk R r1) x_ptr num_words) no_trap))"

definition vm_fp_op :: "elf_abi \<Rightarrow> 'r SyscallRuntime \<Rightarrow> base_field \<Rightarrow> 'r \<Rightarrow> u64 \<Rightarrow> u64 \<Rightarrow> 'r handled" where
  "vm_fp_op e R P r x_ptr y_ptr = do {
     assert_that (is_multiple_of x_ptr 8);
     assert_that (is_multiple_of y_ptr 8);
     let clk = c_clk (rt_core R r);
     let num_words = WordsFieldElement P;
     (is_trap, r1) \<leftarrow> trap_fp_op e R P r x_ptr y_ptr;
     let r2 = reset_clk R r1 clk;
     if is_trap = None then do {
       let (x, r3) = rt_mr_slice_unsafe R r2 num_words;
       let (y_memory_records, r4) = rt_mr_slice_without_prot R r3 y_ptr num_words;
       let (x_memory_records, r5) = rt_mw_slice_without_prot R (increment_clk R r4) x_ptr num_words;
       trap_result is_trap r5
     } else trap_result is_trap r2
   }"

definition trap_fp2_add :: "elf_abi \<Rightarrow> 'r SyscallRuntime \<Rightarrow> base_field \<Rightarrow> 'r \<Rightarrow> u64 \<Rightarrow> u64 \<Rightarrow> 'r trapped" where
  "trap_fp2_add e R P r x_ptr y_ptr = (
     let num_words = WordsCurvePoint P
     in check_then (rt_read_slice_check e R r y_ptr num_words) (\<lambda>r1.
        check_then (rt_read_write_slice_check e R (increment_clk R r1) x_ptr num_words) no_trap))"

definition vm_fp2_add :: "elf_abi \<Rightarrow> 'r SyscallRuntime \<Rightarrow> base_field \<Rightarrow> 'r \<Rightarrow> u64 \<Rightarrow> u64 \<Rightarrow> 'r handled" where
  "vm_fp2_add e R P r x_ptr y_ptr = do {
     assert_that (is_multiple_of x_ptr 8);
     assert_that (is_multiple_of y_ptr 8);
     let clk = c_clk (rt_core R r);
     let num_words = WordsCurvePoint P;
     (is_trap, r1) \<leftarrow> trap_fp2_add e R P r x_ptr y_ptr;
     let r2 = reset_clk R r1 clk;
     if is_trap = None then do {
       let (x, r3) = rt_mr_slice_unsafe R r2 num_words;
       let (y_memory_records, r4) = rt_mr_slice_without_prot R r3 y_ptr num_words;
       let (x_memory_records, r5) = rt_mw_slice_without_prot R (increment_clk R r4) x_ptr num_words;
       trap_result is_trap r5
     } else trap_result is_trap r2
   }"

definition trap_fp2_mul :: "elf_abi \<Rightarrow> 'r SyscallRuntime \<Rightarrow> base_field \<Rightarrow> 'r \<Rightarrow> u64 \<Rightarrow> u64 \<Rightarrow> 'r trapped" where
  "trap_fp2_mul e R P r x_ptr y_ptr = (
     let num_words = WordsCurvePoint P
     in check_then (rt_read_slice_check e R r y_ptr num_words) (\<lambda>r1.
        check_then (rt_read_write_slice_check e R (increment_clk R r1) x_ptr num_words) no_trap))"

definition vm_fp2_mul :: "elf_abi \<Rightarrow> 'r SyscallRuntime \<Rightarrow> base_field \<Rightarrow> 'r \<Rightarrow> u64 \<Rightarrow> u64 \<Rightarrow> 'r handled" where
  "vm_fp2_mul e R P r x_ptr y_ptr = do {
     assert_that (is_multiple_of x_ptr 8);
     assert_that (is_multiple_of y_ptr 8);
     let clk = c_clk (rt_core R r);
     let num_words = WordsCurvePoint P;
     (is_trap, r1) \<leftarrow> trap_fp2_mul e R P r x_ptr y_ptr;
     let r2 = reset_clk R r1 clk;
     if is_trap = None then do {
       let (x, r3) = rt_mr_slice_unsafe R r2 num_words;
       let (y_memory_records, r4) = rt_mr_slice_without_prot R r3 y_ptr num_words;
       let (x_memory_records, r5) = rt_mw_slice_without_prot R (increment_clk R r4) x_ptr num_words;
       trap_result is_trap r5
     } else trap_result is_trap r2
   }"

definition trap_uint256_mul :: "elf_abi \<Rightarrow> 'r SyscallRuntime \<Rightarrow> 'r \<Rightarrow> u64 \<Rightarrow> u64 \<Rightarrow> 'r trapped" where
  "trap_uint256_mul e R r x_ptr y_ptr =
    check_then (rt_read_slice_check e R r y_ptr 8) (\<lambda>r1.
    check_then (rt_read_write_slice_check e R (increment_clk R r1) x_ptr 4) no_trap)"

definition vm_uint256_mul :: "elf_abi \<Rightarrow> 'r SyscallRuntime \<Rightarrow> 'r \<Rightarrow> u64 \<Rightarrow> u64 \<Rightarrow> 'r handled" where
  "vm_uint256_mul e R r x_ptr y_ptr = do {
     assert_that (is_multiple_of x_ptr 8);
     assert_that (is_multiple_of y_ptr 8);
     let clk = c_clk (rt_core R r);
     (is_trap, r1) \<leftarrow> trap_uint256_mul e R r x_ptr y_ptr;
     let r2 = reset_clk R r1 clk;
     if is_trap = None then do {
       let (x, r3) = rt_mr_slice_unsafe R r2 4;
       let (combined_memory_records, r4) = rt_mr_slice_without_prot R r3 y_ptr 8;
       assert_that (4 \<le> length combined_memory_records);
       let (x_memory_records, r5) = rt_mw_slice_without_prot R (increment_clk R r4) x_ptr 4;
       trap_result is_trap r5
     } else trap_result is_trap r2
   }"

definition trap_uint256_ops ::
    "elf_abi \<Rightarrow> 'r SyscallRuntime \<Rightarrow> 'r \<Rightarrow> u64 \<Rightarrow> u64 \<Rightarrow> u64 \<Rightarrow> u64 \<Rightarrow> u64 \<Rightarrow> 'r trapped" where
  "trap_uint256_ops e R r a_ptr b_ptr c_ptr d_ptr e_ptr =
    check_then (rt_read_slice_check e R r a_ptr 4) (\<lambda>r1.
    check_then (rt_read_slice_check e R (increment_clk R r1) b_ptr 4) (\<lambda>r2.
    check_then (rt_read_slice_check e R (increment_clk R r2) c_ptr 4) (\<lambda>r3.
    check_then (rt_write_slice_check e R (increment_clk R r3) d_ptr 4) (\<lambda>r4.
    check_then (rt_write_slice_check e R (increment_clk R r4) e_ptr 4) no_trap))))"

definition vm_uint256_ops ::
    "elf_abi \<Rightarrow> 'r SyscallRuntime \<Rightarrow> 'r \<Rightarrow> SyscallCode \<Rightarrow> u64 \<Rightarrow> u64 \<Rightarrow> 'r handled" where
  "vm_uint256_ops e R r syscall_code a_ptr b_ptr = do {
     let clk = c_clk (rt_core R r);
     op \<leftarrow> uint256_op_map syscall_code;
     (c_ptr_memory, r1) \<leftarrow> rt_rr R r 12;
     (d_ptr_memory, r2) \<leftarrow> rt_rr R r1 13;
     (e_ptr_memory, r3) \<leftarrow> rt_rr R r2 14;
     let c_ptr = rd_value c_ptr_memory;
     let d_ptr = rd_value d_ptr_memory;
     let e_ptr = rd_value e_ptr_memory;
     (is_trap, r4) \<leftarrow> trap_uint256_ops e R r3 a_ptr b_ptr c_ptr d_ptr e_ptr;
     let r5 = reset_clk R r4 clk;
     if is_trap = None then do {
       let (a_memory_records, r6) = rt_mr_slice_without_prot R r5 a_ptr 4;
       let (b_memory_records, r7) = rt_mr_slice_without_prot R (increment_clk R r6) b_ptr 4;
       let (c_memory_records, r8) = rt_mr_slice_without_prot R (increment_clk R r7) c_ptr 4;
       let (d_memory_records, r9) = rt_mw_slice_without_prot R (increment_clk R r8) d_ptr 4;
       let (e_memory_records, r10) = rt_mw_slice_without_prot R (increment_clk R r9) e_ptr 4;
       trap_result is_trap r10
     } else trap_result is_trap r5
   }"

subsection \<open>Dispatch\<close>

text \<open>The \<open>Ok(...)\<close> around the handlers that cannot trap.\<close>

definition ok_handled :: "(u64 option \<times> 'r) option \<Rightarrow> 'r handled" where
  "ok_handled m = do { (v, r) \<leftarrow> m; Some (Inr v, r) }"

definition vm_dispatch ::
    "elf_abi \<Rightarrow> 'r SyscallRuntime \<Rightarrow> 'r \<Rightarrow> SyscallCode \<Rightarrow> u64 \<Rightarrow> u64 \<Rightarrow> 'r handled" where
  "vm_dispatch e R r code args1 args2 = (case code of
      HINT_LEN \<Rightarrow> ok_handled (Some (hint_len_syscall R r))
    | HALT \<Rightarrow> ok_handled (Some (halt_syscall R r args1))
    | COMMIT \<Rightarrow> ok_handled (commit_syscall R r args1 args2)
    | COMMIT_DEFERRED_PROOFS \<Rightarrow> ok_handled (Some (commit_deferred_proofs_syscall r))
    | SECP256K1_ADD \<Rightarrow> weierstrass_add e R Secp256k1 r args1 args2
    | SECP256K1_DOUBLE \<Rightarrow> weierstrass_double e R Secp256k1 r args1 args2
    | BLS12381_ADD \<Rightarrow> weierstrass_add e R Bls12381 r args1 args2
    | BLS12381_DOUBLE \<Rightarrow> weierstrass_double e R Bls12381 r args1 args2
    | BN254_ADD \<Rightarrow> weierstrass_add e R Bn254 r args1 args2
    | BN254_DOUBLE \<Rightarrow> weierstrass_double e R Bn254 r args1 args2
    | SECP256R1_ADD \<Rightarrow> weierstrass_add e R Secp256r1 r args1 args2
    | SECP256R1_DOUBLE \<Rightarrow> weierstrass_double e R Secp256r1 r args1 args2
    | ED_ADD \<Rightarrow> edwards_add e R r args1 args2
    | ED_DECOMPRESS \<Rightarrow> edwards_decompress e R r args1 args2
    | UINT256_MUL \<Rightarrow> vm_uint256_mul e R r args1 args2
    | UINT256_MUL_CARRY \<Rightarrow> vm_uint256_ops e R r code args1 args2
    | UINT256_ADD_CARRY \<Rightarrow> vm_uint256_ops e R r code args1 args2
    | SHA_COMPRESS \<Rightarrow> vm_sha256_compress e R r args1 args2
    | SHA_EXTEND \<Rightarrow> vm_sha256_extend e R r args1 args2
    | KECCAK_PERMUTE \<Rightarrow> keccak256_permute e R r args1 args2
    | BLS12381_FP2_ADD \<Rightarrow> vm_fp2_add e R Bls12381BaseField r args1 args2
    | BLS12381_FP2_SUB \<Rightarrow> vm_fp2_add e R Bls12381BaseField r args1 args2
    | BN254_FP2_ADD \<Rightarrow> vm_fp2_add e R Bn254BaseField r args1 args2
    | BN254_FP2_SUB \<Rightarrow> vm_fp2_add e R Bn254BaseField r args1 args2
    | BLS12381_FP2_MUL \<Rightarrow> vm_fp2_mul e R Bls12381BaseField r args1 args2
    | BN254_FP2_MUL \<Rightarrow> vm_fp2_mul e R Bn254BaseField r args1 args2
    | BLS12381_FP_ADD \<Rightarrow> vm_fp_op e R Bls12381BaseField r args1 args2
    | BLS12381_FP_SUB \<Rightarrow> vm_fp_op e R Bls12381BaseField r args1 args2
    | BLS12381_FP_MUL \<Rightarrow> vm_fp_op e R Bls12381BaseField r args1 args2
    | BN254_FP_ADD \<Rightarrow> vm_fp_op e R Bn254BaseField r args1 args2
    | BN254_FP_SUB \<Rightarrow> vm_fp_op e R Bn254BaseField r args1 args2
    | BN254_FP_MUL \<Rightarrow> vm_fp_op e R Bn254BaseField r args1 args2
    | MPROTECT \<Rightarrow> ok_handled (vm_mprotect e R r args1 args2)
    | SIG_RETURN \<Rightarrow> ok_handled (vm_sig_return R r args1 args2)
    | POSEIDON2 \<Rightarrow> vm_poseidon2 e R r args1 args2
    | VERIFY_SP1_PROOF \<Rightarrow> Some (Inr None, r)
    | WRITE \<Rightarrow> Some (Inr None, r)
    | ENTER_UNCONSTRAINED \<Rightarrow> Some (Inr None, r)
    | EXIT_UNCONSTRAINED \<Rightarrow> Some (Inr None, r)
    | HINT_READ \<Rightarrow> Some (Inr None, r)
    | HINT_MPROTECT_FLUSH \<Rightarrow> Some (Inr None, r)
    | DUMP_ELF \<Rightarrow> Some (Inr None, r)
    | INSERT_PROFILER_SYMBOLS \<Rightarrow> Some (Inr None, r)
    | DELETE_PROFILER_SYMBOLS \<Rightarrow> Some (Inr None, r)
    | SECP256K1_DECOMPRESS \<Rightarrow> None
    | BLS12381_DECOMPRESS \<Rightarrow> None
    | SECP256R1_DECOMPRESS \<Rightarrow> None
    | U256XU2048_MUL \<Rightarrow> None)"

definition sp1_ecall_handler ::
    "elf_abi \<Rightarrow> 'r SyscallRuntime \<Rightarrow> 'r \<Rightarrow> SyscallCode \<Rightarrow> u64 \<Rightarrow> u64 \<Rightarrow> 'r handled" where
  "sp1_ecall_handler e R r code args1 args2 = do {
     let clk = c_clk (rt_core R r);
     (ret, r1) \<leftarrow> vm_dispatch e R r code args1 args2;
     Some (ret, reset_clk R r1 clk)
   }"

subsection \<open>ECALL\<close>

record EcallResult =
  ec_a :: u64
  ec_a_record :: MemoryWriteRecord
  ec_b :: u64
  ec_b_record :: MemoryReadRecord
  ec_c :: u64
  ec_c_record :: MemoryReadRecord
  ec_error :: "TrapError option"
  ec_sig_return_pc_record :: "MemoryReadRecord option"

text \<open>\<open>MemoryWriteRecord::default()\<close>.\<close>

definition default_MemoryWriteRecord :: MemoryWriteRecord where
  "default_MemoryWriteRecord = \<lparr>wr_prev_timestamp = 0, wr_prev_page_prot_record = None,
     wr_prev_value = 0, wr_timestamp = 0, wr_value = 0\<rparr>"

definition core_execute_ecall ::
    "elf_abi \<Rightarrow> 'r SyscallRuntime \<Rightarrow> 'r \<Rightarrow> Instruction \<Rightarrow> (EcallResult \<times> 'r) option" where
  "core_execute_ecall e R r instruction = do {
     assert_that (is_ecall_instruction instruction);
     let c0 = rt_core R r;
     let syscall_id = mr_value (c_registers c0 (reg_idx X5));
     code \<leftarrow> from_u32 (ucast syscall_id);
     let (c_record, c1) = core_rr c0 X11 C_position;
     let (b_record, c2) = core_rr c1 X10 B_position;
     let c = rd_value c_record;
     let b = rd_value b_record;
     let is_sigreturn = (code = SIG_RETURN);
     let (a_record, c3) = (if is_sigreturn then core_rw c2 X5 syscall_id
                           else (default_MemoryWriteRecord, c2));
     (sig_return_pc_record, c4) \<leftarrow> (if is_sigreturn then do {
         (record, c4) \<leftarrow> core_mr_without_prot c3 b;
         Some (Some record, c4\<lparr>c_next_pc := rd_value record\<rparr>)
       } else Some (None, c3));
     let r1 = rt_set_core R c4 r;
     ((a, error), r2) \<leftarrow> (if code = ENTER_UNCONSTRAINED then Some ((0, None), r1)
       else do {
         (result, r2) \<leftarrow> sp1_ecall_handler e R r1 code b c;
         Some (if is_sigreturn then (ucast (syscall_num code), None)
               else (case result of
                   Inr ret \<Rightarrow> (case ret of Some v \<Rightarrow> v | None \<Rightarrow> ucast (syscall_num code), None)
                 | Inl err \<Rightarrow> (ucast (syscall_num code), Some err)), r2)
       });
     let c5 = rt_core R r2;
     let (a_record, c6) = (if \<not> is_sigreturn then core_rw c5 X5 a else (a_record, c5));
     let c7 = c6\<lparr>c_next_clk := c_next_clk c6 + 256\<rparr>;
     Some (\<lparr>ec_a = a, ec_a_record = a_record, ec_b = b, ec_b_record = b_record, ec_c = c,
            ec_c_record = c_record, ec_error = error,
            ec_sig_return_pc_record = sig_return_pc_record\<rparr>, rt_set_core R c7 r2)
   }"

subsection \<open>Every machine runs the system calls of the core VM\<close>

text \<open>A machine built around a core VM may observe the accesses, but it must not change them: seen through
  \<open>rt_core\<close>, each method does what it does on the core VM. Then so does every system call.\<close>

definition proj :: "('r \<Rightarrow> CoreVM) \<Rightarrow> ('a \<times> 'r) option \<Rightarrow> ('a \<times> CoreVM) option" where
  "proj f m = map_option (apsnd f) m"

lemma proj_simps [simp]: "proj f None = None" "proj f (Some (x, r)) = Some (x, f r)"
  by (simp_all add: proj_def)

lemma proj_bind:
  assumes "proj f m = m'" "\<And>x r. proj f (k (x, r)) = k' (x, f r)"
  shows "proj f (Option.bind m k) = Option.bind m' k'"
  using assms by (cases m) (auto simp: proj_def)

lemma proj_bind_same:
  assumes "\<And>x. proj f (k x) = k' x"
  shows "proj f (Option.bind m k) = Option.bind m k'"
  using assms by (cases m) auto

lemma proj_case_prod:
  assumes "apsnd f p = p'" "\<And>x r. proj f (k x r) = k' x (f r)"
  shows "proj f (case p of (x, r) \<Rightarrow> k x r) = (case p' of (x, r) \<Rightarrow> k' x r)"
  using assms by (cases p) auto

lemma proj_if:
  assumes "proj f m = m'" "proj f n = n'"
  shows "proj f (if b then m else n) = (if b then m' else n')"
  using assms by simp

lemma proj_case_fun:
  assumes "\<And>a b. proj f (k a b r) = k' a b r'"
  shows "proj f ((case x of (a, b) \<Rightarrow> k a b) r) = (case x of (a, b) \<Rightarrow> k' a b) r'"
  using assms by (cases x) simp

lemma proj_case_prod_same:
  assumes "\<And>x y. proj f (k x y) = k' x y"
  shows "proj f (case p of (x, y) \<Rightarrow> k x y) = (case p of (x, y) \<Rightarrow> k' x y)"
  using assms by (cases p) simp

lemma proj_bind_state:
  assumes "map_option f m = m'" "\<And>r. proj f (k r) = k' (f r)"
  shows "proj f (Option.bind m k) = Option.bind m' k'"
  using assms by (cases m) auto

lemma map_bind_state:
  assumes "proj f m = m'" "\<And>x r. map_option f (k (x, r)) = k' (x, f r)"
  shows "map_option f (Option.bind m k) = Option.bind m' k'"
  using assms by (cases m) (auto simp: proj_def)

lemmas proj_rules = proj_bind_same proj_bind proj_case_fun proj_case_prod proj_case_prod_same
  proj_if proj_bind_state

locale syscall_machine =
  fixes e :: elf_abi and R :: "'r SyscallRuntime"
  assumes core_set_core [simp]: "rt_core R (rt_set_core R c r) = c"
    and rr_core: "proj (rt_core R) (rt_rr R r x) = core_rt_rr (rt_core R r) x"
    and rw_core: "proj (rt_core R) (rt_rw R r x v) = core_rt_rw (rt_core R r) x v"
    and page_prot_write_core:
      "proj (rt_core R) (rt_page_prot_write R r i prot) = core_page_prot_write (rt_core R r) i prot"
    and page_prot_range_check_core:
      "proj (rt_core R) (rt_page_prot_range_check R r i j bm) =
       core_page_prot_range_check e (rt_core R r) i j bm"
    and mr_without_prot_core:
      "proj (rt_core R) (rt_mr_without_prot R r a) = core_mr_without_prot (rt_core R r) a"
    and mw_without_prot_core:
      "proj (rt_core R) (rt_mw_without_prot R r a) = core_mw_without_prot (rt_core R r) a"
    and mr_slice_without_prot_core:
      "apsnd (rt_core R) (rt_mr_slice_without_prot R r a n) = core_mr_slice_without_prot (rt_core R r) a n"
    and mw_slice_without_prot_core:
      "apsnd (rt_core R) (rt_mw_slice_without_prot R r a n) = core_mw_slice_without_prot (rt_core R r) a n"
begin

abbreviation (input) "K \<equiv> core_runtime e"

lemma clk_core [simp]:
  "rt_core R (reset_clk R r t) = reset_clk K (rt_core R r) t"
  "rt_core R (increment_clk R r) = increment_clk K (rt_core R r)"
  by (simp_all add: reset_clk_def increment_clk_def core_runtime_def)

lemma mr_slice_unsafe_core:
  "apsnd (rt_core R) (rt_mr_slice_unsafe R r n) = rt_mr_slice_unsafe K (rt_core R r) n"
  by (simp add: rt_mr_slice_unsafe_def take_reads_def core_runtime_def)

lemma slice_check_core:
  "proj (rt_core R) (rt_read_slice_check e R r a n) = rt_read_slice_check e K (rt_core R r) a n"
  "proj (rt_core R) (rt_write_slice_check e R r a n) = rt_write_slice_check e K (rt_core R r) a n"
  "proj (rt_core R) (rt_read_write_slice_check e R r a n) = rt_read_write_slice_check e K (rt_core R r) a n"
  by (simp_all add: rt_read_slice_check_def rt_write_slice_check_def rt_read_write_slice_check_def
      rt_prot_slice_check_def page_prot_range_check_core core_runtime_def)

lemma methods_core:
  "proj (rt_core R) (rt_rr R r x) = rt_rr K (rt_core R r) x"
  "proj (rt_core R) (rt_rw R r x v) = rt_rw K (rt_core R r) x v"
  "proj (rt_core R) (rt_page_prot_write R r i prot) = rt_page_prot_write K (rt_core R r) i prot"
  "proj (rt_core R) (rt_page_prot_range_check R r j l bm) = rt_page_prot_range_check K (rt_core R r) j l bm"
  "proj (rt_core R) (rt_mr_without_prot R r a) = rt_mr_without_prot K (rt_core R r) a"
  "proj (rt_core R) (rt_mw_without_prot R r a) = rt_mw_without_prot K (rt_core R r) a"
  "apsnd (rt_core R) (rt_mr_slice_without_prot R r a n) = rt_mr_slice_without_prot K (rt_core R r) a n"
  "apsnd (rt_core R) (rt_mw_slice_without_prot R r a n) = rt_mw_slice_without_prot K (rt_core R r) a n"
  by (simp_all add: core_runtime_def rr_core rw_core page_prot_write_core page_prot_range_check_core
      mr_without_prot_core mw_without_prot_core mr_slice_without_prot_core mw_slice_without_prot_core)

lemma core_of_core [simp]: "rt_core K c = c" "rt_set_core K c' c = c'"
  by (simp_all add: core_runtime_def)

lemma check_then_core:
  assumes "proj (rt_core R) m = m'" "\<And>r. proj (rt_core R) (k r) = k' (rt_core R r)"
  shows "proj (rt_core R) (check_then m k) = check_then m' k'"
  using assms by (cases m) (auto simp: check_then_def)

lemma trap_result_core: "proj (rt_core R) (trap_result t r) = trap_result t (rt_core R r)"
  by (simp add: trap_result_def)

lemma no_trap_core: "proj (rt_core R) (no_trap r) = no_trap (rt_core R r)"
  by (simp add: no_trap_def)

lemmas core_simps = methods_core slice_check_core mr_slice_unsafe_core trap_result_core no_trap_core

lemma traps_core:
  "proj (rt_core R) (trap_weierstrass_add e R C r a b) = trap_weierstrass_add e K C (rt_core R r) a b"
  "proj (rt_core R) (trap_edwards_add e R r a b) = trap_edwards_add e K (rt_core R r) a b"
  "proj (rt_core R) (trap_edwards_decompress e R r a) = trap_edwards_decompress e K (rt_core R r) a"
  "proj (rt_core R) (trap_keccak256_permute e R r a) = trap_keccak256_permute e K (rt_core R r) a"
  "proj (rt_core R) (trap_sha256_extend e R r a) = trap_sha256_extend e K (rt_core R r) a"
  "proj (rt_core R) (trap_sha256_compress e R r a b) = trap_sha256_compress e K (rt_core R r) a b"
  "proj (rt_core R) (trap_fp_op e R P r a b) = trap_fp_op e K P (rt_core R r) a b"
  "proj (rt_core R) (trap_fp2_add e R P r a b) = trap_fp2_add e K P (rt_core R r) a b"
  "proj (rt_core R) (trap_fp2_mul e R P r a b) = trap_fp2_mul e K P (rt_core R r) a b"
  "proj (rt_core R) (trap_uint256_mul e R r a b) = trap_uint256_mul e K (rt_core R r) a b"
  "proj (rt_core R) (trap_uint256_ops e R r a b c d l) = trap_uint256_ops e K (rt_core R r) a b c d l"
  unfolding trap_weierstrass_add_def trap_edwards_add_def trap_edwards_decompress_def
    trap_keccak256_permute_def trap_sha256_extend_def trap_sha256_compress_def trap_fp_op_def
    trap_fp2_add_def trap_fp2_mul_def trap_uint256_mul_def trap_uint256_ops_def Let_def
  by (intro check_then_core; simp add: core_simps flip: clk_core)+

lemma handlers_core:
  "proj (rt_core R) (weierstrass_add e R C r a b) = weierstrass_add e K C (rt_core R r) a b"
  "proj (rt_core R) (weierstrass_double e R C r a b) = weierstrass_double e K C (rt_core R r) a b"
  "proj (rt_core R) (edwards_add e R r a b) = edwards_add e K (rt_core R r) a b"
  "proj (rt_core R) (edwards_decompress e R r a b) = edwards_decompress e K (rt_core R r) a b"
  "proj (rt_core R) (keccak256_permute e R r a b) = keccak256_permute e K (rt_core R r) a b"
  "proj (rt_core R) (vm_poseidon2 e R r a b) = vm_poseidon2 e K (rt_core R r) a b"
  "proj (rt_core R) (vm_sha256_compress e R r a b) = vm_sha256_compress e K (rt_core R r) a b"
  "proj (rt_core R) (vm_fp_op e R P r a b) = vm_fp_op e K P (rt_core R r) a b"
  "proj (rt_core R) (vm_fp2_add e R P r a b) = vm_fp2_add e K P (rt_core R r) a b"
  "proj (rt_core R) (vm_fp2_mul e R P r a b) = vm_fp2_mul e K P (rt_core R r) a b"
  "proj (rt_core R) (vm_uint256_mul e R r a b) = vm_uint256_mul e K (rt_core R r) a b"
  "proj (rt_core R) (vm_uint256_ops e R r code a b) = vm_uint256_ops e K (rt_core R r) code a b"
  unfolding weierstrass_add_def weierstrass_double_def edwards_add_def edwards_decompress_def
    keccak256_permute_def vm_poseidon2_def vm_sha256_compress_def vm_fp_op_def
    vm_fp2_add_def vm_fp2_mul_def vm_uint256_mul_def vm_uint256_ops_def Let_def
  by (rule proj_rules | simp add: core_simps traps_core)+

lemma write_registers_core:
  "map_option (rt_core R) (write_registers R r i records) = write_registers K (rt_core R r) i records"
proof (induction records arbitrary: r i)
  case Nil
  show ?case by simp
next
  case (Cons x xs)
  show ?case
    unfolding write_registers.simps
    by (rule map_bind_state) (simp_all add: core_simps Cons.IH)
qed

lemma sha_extend_loop_core:
  "map_option (rt_core R) (vm_sha_extend_loop R r w ns) = vm_sha_extend_loop K (rt_core R r) w ns"
proof (induction ns arbitrary: r)
  case Nil
  show ?case by simp
next
  case (Cons i ns)
  show ?case
    unfolding vm_sha_extend_loop.simps
    by (rule map_bind_state | simp add: core_simps Cons.IH)+
qed

lemma loops_core:
  "proj (rt_core R) (vm_sig_return R r a b) = vm_sig_return K (rt_core R r) a b"
  "proj (rt_core R) (vm_sha256_extend e R r a b) = vm_sha256_extend e K (rt_core R r) a b"
  unfolding vm_sig_return_def vm_sha256_extend_def Let_def
  by (rule proj_rules | simp add: core_simps traps_core write_registers_core sha_extend_loop_core
        del: upt_rec_numeral)+

lemma control_core:
  "apsnd (rt_core R) (hint_len_syscall R r) = hint_len_syscall K (rt_core R r)"
  "apsnd (rt_core R) (halt_syscall R r a) = halt_syscall K (rt_core R r) a"
  "proj (rt_core R) (commit_syscall R r a b) = commit_syscall K (rt_core R r) a b"
  "proj (rt_core R) (vm_mprotect e R r a b) = vm_mprotect e K (rt_core R r) a b"
  unfolding hint_len_syscall_def halt_syscall_def commit_syscall_def vm_mprotect_def Let_def
  by (rule proj_rules | simp add: core_simps split: option.split)+

lemma ok_handled_core:
  "proj (rt_core R) m = m' \<Longrightarrow> proj (rt_core R) (ok_handled m) = ok_handled m'"
  by (cases m) (auto simp: ok_handled_def)

lemma dispatch_core:
  "proj (rt_core R) (vm_dispatch e R r code a b) = vm_dispatch e K (rt_core R r) code a b"
proof -
  have *: "proj (rt_core R) (Some p) = Some (apsnd (rt_core R) p)" for p :: "u64 option \<times> 'r"
    by (cases p) simp
  show ?thesis
    by (cases code)
      (simp_all add: vm_dispatch_def handlers_core loops_core ok_handled_core [OF control_core(3)]
        ok_handled_core [OF control_core(4)] ok_handled_core [OF loops_core(1)] ok_handled_core [OF *]
        control_core(1,2) commit_deferred_proofs_syscall_def)
qed

lemma ecall_handler_core:
  "proj (rt_core R) (sp1_ecall_handler e R r code a b) = sp1_ecall_handler e K (rt_core R r) code a b"
  unfolding sp1_ecall_handler_def Let_def
  by (rule proj_rules | simp add: dispatch_core)+

lemma execute_ecall_core:
  "proj (rt_core R) (core_execute_ecall e R r instruction) =
   core_execute_ecall e K (rt_core R r) instruction"
  unfolding core_execute_ecall_def Let_def core_of_core
  by (rule proj_rules | simp add: ecall_handler_core)+

end

lemma proj_id [simp]: "proj (\<lambda>c. c) m = m" "apsnd (\<lambda>c. c) p = p"
  by (cases m; auto simp: proj_def) (cases p; simp)

interpretation core_machine: syscall_machine e "core_runtime e"
  by unfold_locales (simp_all add: core_runtime_def)

end
