(* ===== verification/Step_Relation.thy ===== *)
theory Step_Relation
  imports Core_Syscall "HOL-Library.Sublist"
begin

text \<open>
  Facts about whole runs of the minimal executor, from facts about its primitive operations. The
  locale \<open>step_relation\<close> is the contract: a reflexive and transitive relation between states that
  holds across every primitive (recording a read, the three accesses to the memory, entering and
  leaving an unconstrained block, and assignments to the fields that the relation does not look at).
  Then it holds across every operation offered to the precompiles, every system call, every
  instruction in both modes, and every chunk. Each proof follows the text of the program by the rules
  collected in \<open>step_rules\<close>.

  The contract is interpreted for the relation that the recorded reads are only extended, and for the
  relation that the invariant of the memory is kept and the program and the options stay the same.
\<close>

subsection \<open>The contract\<close>

definition steps :: "(MinimalExecutor \<Rightarrow> MinimalExecutor \<Rightarrow> bool) \<Rightarrow> MinimalExecutor \<Rightarrow> 'a stepped \<Rightarrow> bool" where
  "steps P s m \<longleftrightarrow> (\<forall>r s'. m = Some (r, s') \<longrightarrow> P s s')"

definition steps_state ::
    "(MinimalExecutor \<Rightarrow> MinimalExecutor \<Rightarrow> bool) \<Rightarrow> MinimalExecutor \<Rightarrow> MinimalExecutor option \<Rightarrow> bool" where
  "steps_state P s m \<longleftrightarrow> (\<forall>s'. m = Some s' \<longrightarrow> P s s')"

text \<open>Two states that differ at most in registers, counters, caches, permissions and host streams.\<close>

definition same_frame :: "MinimalExecutor \<Rightarrow> MinimalExecutor \<Rightarrow> bool" where
  "same_frame s t \<longleftrightarrow> m_program t = m_program s \<and> m_memory t = m_memory s \<and> m_traces t = m_traces s \<and>
    m_max_trace_size t = m_max_trace_size s \<and> m_maybe_unconstrained t = m_maybe_unconstrained s \<and>
    m_mode t = m_mode s"

locale step_relation =
  fixes E :: externs and P :: "MinimalExecutor \<Rightarrow> MinimalExecutor \<Rightarrow> bool"
  assumes refl: "P s s" and trans: "P s t \<Longrightarrow> P t u \<Longrightarrow> P s u"
    and frame: "same_frame s t \<Longrightarrow> P s t"
    and push: "trace_push s v = Some t \<Longrightarrow> P s t"
    and mem_get: "limited_get (m_memory s) a = Some (ov, mem) \<Longrightarrow> P s (s\<lparr>m_memory := mem\<rparr>)"
    and mem_get_mut: "limited_get_mut (m_memory s) a f = Some (w, mem) \<Longrightarrow> P s (s\<lparr>m_memory := mem\<rparr>)"
    and mem_insert: "limited_insert (m_memory s) a w = Some mem \<Longrightarrow> P s (s\<lparr>m_memory := mem\<rparr>)"
    and mem_dump: "dump_elf E s = Some mem \<Longrightarrow> P s (s\<lparr>m_memory := mem\<rparr>)"
    and enter: "enter_unconstrained s = Some t \<Longrightarrow> P s t"
    and exit: "exit_unconstrained s = Some t \<Longrightarrow> P s t"
begin

lemma steps_Some: "P s s' \<Longrightarrow> steps P s (Some (r, s'))"
  by (simp add: steps_def)

lemma steps_None: "steps P s None"
  by (simp add: steps_def)

lemma steps_bind: "steps P s m \<Longrightarrow> (\<And>r s'. steps P s' (k r s')) \<Longrightarrow> steps P s (Option.bind m (\<lambda>(r, s'). k r s'))"
  unfolding steps_def by (cases m) (auto intro: trans)

lemma steps_bind_state: "steps_state P s m \<Longrightarrow> (\<And>s'. steps P s' (k s')) \<Longrightarrow> steps P s (Option.bind m k)"
  unfolding steps_def steps_state_def by (cases m) (auto intro: trans)

lemma steps_bind_pure: "(\<And>x. m = Some x \<Longrightarrow> steps P s (k x)) \<Longrightarrow> steps P s (Option.bind m k)"
  by (cases m) (auto simp: steps_def)

lemma steps_state_Some: "P s s' \<Longrightarrow> steps_state P s (Some s')"
  by (simp add: steps_state_def)

lemma steps_state_None: "steps_state P s None"
  by (simp add: steps_state_def)

lemma steps_state_bind:
  "steps P s m \<Longrightarrow> (\<And>r s'. steps_state P s' (k r s')) \<Longrightarrow> steps_state P s (Option.bind m (\<lambda>(r, s'). k r s'))"
  unfolding steps_def steps_state_def by (cases m) (auto intro: trans)

lemma steps_state_bind_state:
  "steps_state P s m \<Longrightarrow> (\<And>s'. steps_state P s' (k s')) \<Longrightarrow> steps_state P s (Option.bind m k)"
  unfolding steps_state_def by (cases m) (auto intro: trans)

lemma steps_state_bind_pure: "(\<And>x. m = Some x \<Longrightarrow> steps_state P s (k x)) \<Longrightarrow> steps_state P s (Option.bind m k)"
  by (cases m) (auto simp: steps_state_def)

lemma steps_try_then: "steps P s m \<Longrightarrow> (\<And>r s'. steps P s' (k r s')) \<Longrightarrow> steps P s (try_then m k)"
  unfolding steps_def try_then_def by (cases m) (auto split: sum.splits, blast intro: trans)

lemma steps_if: "steps P s m \<Longrightarrow> steps P s k \<Longrightarrow> steps P s (if b then m else k)"
  by simp

lemma steps_state_if: "steps_state P s m \<Longrightarrow> steps_state P s k \<Longrightarrow> steps_state P s (if b then m else k)"
  by simp

lemma steps_case_prod: "(\<And>x y. p = (x, y) \<Longrightarrow> steps P s (k x y)) \<Longrightarrow> steps P s (case p of (x, y) \<Rightarrow> k x y)"
  by (cases p) simp

lemma steps_state_case_prod:
  "(\<And>x y. p = (x, y) \<Longrightarrow> steps_state P s (k x y)) \<Longrightarrow> steps_state P s (case p of (x, y) \<Rightarrow> k x y)"
  by (cases p) simp

lemma steps_case_option:
  "steps P s m \<Longrightarrow> (\<And>x. steps P s (k x)) \<Longrightarrow> steps P s (case ov of None \<Rightarrow> m | Some x \<Rightarrow> k x)"
  by (cases ov) simp_all

lemma steps_state_case_sum:
  "(\<And>x. steps_state P s (f x)) \<Longrightarrow> (\<And>x. steps_state P s (g x)) \<Longrightarrow>
    steps_state P s (case r of Inl x \<Rightarrow> f x | Inr x \<Rightarrow> g x)"
  by (cases r) simp_all

text \<open>An operation that starts in a state with the same frame, or with the memory it has just read.\<close>

lemma steps_from: "steps P s0 m \<Longrightarrow> same_frame s s0 \<Longrightarrow> steps P s m"
  unfolding steps_def by (blast intro: frame trans)

lemma steps_state_from: "steps_state P s0 m \<Longrightarrow> same_frame s s0 \<Longrightarrow> steps_state P s m"
  unfolding steps_state_def by (blast intro: frame trans)

lemma steps_get_mut:
  "(\<And>v mem. steps P (s\<lparr>m_memory := mem\<rparr>) (k v mem)) \<Longrightarrow>
    steps P s (Option.bind (limited_get_mut (m_memory s) a f) (\<lambda>(v, mem). k v mem))"
  unfolding steps_def by (cases "limited_get_mut (m_memory s) a f") (auto, blast intro: trans mem_get_mut)

lemma steps_state_get_mut:
  "(\<And>v mem. steps_state P (s\<lparr>m_memory := mem\<rparr>) (k v mem)) \<Longrightarrow>
    steps_state P s (Option.bind (limited_get_mut (m_memory s) a f) (\<lambda>(v, mem). k v mem))"
  unfolding steps_state_def by (cases "limited_get_mut (m_memory s) a f") (auto, blast intro: trans mem_get_mut)

lemma steps_get:
  "(\<And>v mem. steps P (s\<lparr>m_memory := mem\<rparr>) (k v mem)) \<Longrightarrow>
    steps P s (Option.bind (limited_get (m_memory s) a) (\<lambda>(v, mem). k v mem))"
  unfolding steps_def by (cases "limited_get (m_memory s) a") (auto, blast intro: trans mem_get)

lemma steps_insert:
  "(\<And>mem. steps_state P (s\<lparr>m_memory := mem\<rparr>) (k mem)) \<Longrightarrow>
    steps_state P s (Option.bind (limited_insert (m_memory s) a v) k)"
  unfolding steps_state_def by (cases "limited_insert (m_memory s) a v") (auto, blast intro: trans mem_insert)

lemmas frame_defs = same_frame_def bump_memory_clk_def ctx_rw_def trace_hint_def

lemma steps_frame: "same_frame s s' \<Longrightarrow> steps P s (Some (r, s'))"
  by (simp add: steps_def frame)

lemma steps_state_frame: "same_frame s s' \<Longrightarrow> steps_state P s (Some s')"
  by (simp add: steps_state_def frame)

lemmas step_rules = steps_frame steps_None steps_state_frame steps_state_None steps_state_if steps_get_mut
  steps_state_get_mut steps_get steps_insert steps_bind steps_bind_state steps_state_bind
  steps_state_bind_state steps_try_then steps_if steps_case_option steps_case_prod steps_state_case_prod
  steps_state_case_sum steps_bind_pure steps_state_bind_pure

subsection \<open>Operations for the precompiles\<close>

lemma trace_push_steps: "steps_state P s (trace_push s v)" "steps_state P s (trace_push_constrained s v)"
  by (simp_all add: steps_state_def trace_push_constrained_def push refl)

lemmas push_steps = trace_push_steps [THEN steps_state_from]

lemma access_steps: "steps P s (ctx_mr_without_prot s a)" "steps P s (ctx_mw_without_prot s a v)"
  unfolding ctx_mr_without_prot_def ctx_mw_without_prot_def
  by (rule push_steps step_rules | simp add: frame_defs)+

lemma touch_slice_steps: "steps P s (touch_slice f s as)"
proof (induction as arbitrary: s)
  case Nil
  show ?case by (simp add: steps_def refl)
next
  case (Cons a as)
  show ?case
    unfolding touch_slice.simps by (rule push_steps Cons.IH step_rules | simp add: frame_defs)+
qed

lemma read_values_steps:
  "read_values (m_memory s) as = Some (vs, mem) \<Longrightarrow> P s (s\<lparr>m_memory := mem\<rparr>)"
  "read_values_or_zero (m_memory s) as = Some (vs, mem) \<Longrightarrow> P s (s\<lparr>m_memory := mem\<rparr>)"
proof (induction as arbitrary: s vs)
  case Nil
  { case 1 then show ?case by (auto intro!: frame simp: frame_defs) }
  { case 2 then show ?case by (auto intro!: frame simp: frame_defs) }
next
  case (Cons a as)
  { case 1
    then obtain ov mem1 vs1 where get: "limited_get (m_memory s) a = Some (ov, mem1)"
      and rest: "read_values mem1 as = Some (vs1, mem)"
      by (auto split: Option.bind_splits)
    from trans [OF mem_get [OF get]] Cons.IH(1) [of "s\<lparr>m_memory := mem1\<rparr>" vs1] rest show ?case
      by simp }
  { case 2
    then obtain ov mem1 vs1 where get: "limited_get (m_memory s) a = Some (ov, mem1)"
      and rest: "read_values_or_zero mem1 as = Some (vs1, mem)"
      by (auto split: Option.bind_splits)
    from trans [OF mem_get [OF get]] Cons.IH(2) [of "s\<lparr>m_memory := mem1\<rparr>" vs1] rest show ?case
      by simp }
qed

lemma steps_read_values:
  "(\<And>v mem. steps P (s\<lparr>m_memory := mem\<rparr>) (k v mem)) \<Longrightarrow>
    steps P s (Option.bind (read_values (m_memory s) as) (\<lambda>(v, mem). k v mem))"
  unfolding steps_def
  by (cases "read_values (m_memory s) as") (auto, blast intro: trans read_values_steps)

lemma steps_read_values_or_zero:
  "(\<And>v mem. steps P (s\<lparr>m_memory := mem\<rparr>) (k v mem)) \<Longrightarrow>
    steps P s (Option.bind (read_values_or_zero (m_memory s) as) (\<lambda>(v, mem). k v mem))"
  unfolding steps_def
  by (cases "read_values_or_zero (m_memory s) as") (auto, blast intro: trans read_values_steps)

lemma slice_steps:
  "steps P s (ctx_mr_slice_without_prot s a n)" "steps P s (ctx_mr_slice_unsafe s a n)"
  "steps P s (ctx_mr_slice_no_trace s a n)"
  unfolding ctx_mr_slice_without_prot_def ctx_mr_slice_unsafe_def ctx_mr_slice_no_trace_def
  by (rule touch_slice_steps steps_read_values steps_read_values_or_zero step_rules | simp add: frame_defs)+

lemma write_words_steps: "steps P s (write_words s a vs)"
proof (induction vs arbitrary: s a)
  case Nil
  show ?case by (simp add: steps_def refl)
next
  case (Cons v vs)
  show ?case
    unfolding write_words.simps by (rule access_steps Cons.IH step_rules)+
qed

lemma check_pages_steps: "steps P s (check_pages e bm s ps)"
proof (induction ps arbitrary: s)
  case Nil
  show ?case by (simp add: steps_def refl)
next
  case (Cons i ps)
  show ?case
    unfolding check_pages.simps Let_def
    by (rule push_steps Cons.IH [THEN steps_from] step_rules | simp add: frame_defs)+
qed

lemma check_steps:
  "steps P s (read_slice_check e s a n)" "steps P s (write_slice_check e s a n)"
  "steps P s (read_write_slice_check e s a n)" "steps P s (ctx_prot_slice_check e s a n bm)"
  unfolding read_slice_check_def write_slice_check_def read_write_slice_check_def
    ctx_prot_slice_check_def Let_def
  by (rule check_pages_steps step_rules | simp add: frame_defs)+

lemma write_slice_steps: "steps P s (ctx_mw_slice_without_prot s a vs)"
  by (simp add: ctx_mw_slice_without_prot_def write_words_steps)

lemma page_prot_write_steps: "steps P s (ctx_page_prot_write e s a v)"
  unfolding ctx_page_prot_write_def Let_def
  by (rule push_steps step_rules | simp add: frame_defs)+

lemmas op_steps = access_steps [THEN steps_from] slice_steps [THEN steps_from]
  check_steps [THEN steps_from] write_slice_steps [THEN steps_from]
  page_prot_write_steps [THEN steps_from] push_steps

subsection \<open>System calls\<close>

lemma sha_extend_loop_steps: "steps P s (sha_extend_loop s w ns)"
proof (induction ns arbitrary: s)
  case Nil
  show ?case by (simp add: steps_def refl)
next
  case (Cons n ns)
  show ?case
    unfolding sha_extend_loop.simps Let_def
    by (rule op_steps Cons.IH [THEN steps_from] step_rules | simp add: frame_defs)+
qed

lemma sha_compress_loop_steps: "steps P s (sha_compress_loop s w v ns)"
proof (induction ns arbitrary: s v)
  case Nil
  show ?case by (simp add: steps_def refl)
next
  case (Cons n ns)
  show ?case
    unfolding sha_compress_loop.simps Let_def
    by (rule op_steps Cons.IH [THEN steps_from] step_rules | simp add: frame_defs)+
qed

lemma mw_hint_steps: "steps_state P s (mw_hint s p w)"
  unfolding mw_hint_def by (rule step_rules | simp add: frame_defs)+

lemma write_hint_words_steps: "steps_state P s (write_hint_words s p ws)"
proof (induction ws arbitrary: s p)
  case Nil
  show ?case by (simp add: steps_state_def refl)
next
  case (Cons w ws)
  show ?case
    unfolding write_hint_words.simps by (rule mw_hint_steps Cons.IH step_rules)+
qed

lemmas loop_steps = sha_extend_loop_steps [THEN steps_from] sha_compress_loop_steps [THEN steps_from]
  mw_hint_steps [THEN steps_state_from] write_hint_words_steps [THEN steps_state_from]

lemma precompile_steps:
  "steps P s (minimal_ec_add E C s a b)" "steps P s (minimal_ec_double E C s a b)"
  "steps P s (minimal_edwards_decompress E s a b)" "steps P s (minimal_keccak_permute E s a b)"
  "steps P s (minimal_poseidon2 E s a b)" "steps P s (minimal_sha256_extend E s a b)"
  "steps P s (minimal_sha256_compress E s a b)" "steps P s (minimal_fp_op E F s a b op)"
  "steps P s (minimal_fp2_addsub E F s a b op)" "steps P s (minimal_fp2_mul E F s a b)"
  "steps P s (minimal_uint256_mul E s a b)" "steps P s (minimal_uint256_ops E s a b)"
  "steps P s (minimal_mprotect E s a b)"
  unfolding minimal_ec_add_def minimal_ec_double_def minimal_edwards_decompress_def
    minimal_keccak_permute_def minimal_poseidon2_def minimal_sha256_extend_def
    minimal_sha256_compress_def minimal_fp_op_def minimal_fp2_addsub_def minimal_fp2_mul_def
    minimal_uint256_mul_def minimal_uint256_ops_def minimal_mprotect_def Let_def
  by (rule op_steps loop_steps step_rules | simp add: frame_defs del: upt_rec_numeral)+

lemma frame_foldl_rw: "same_frame s t \<Longrightarrow> same_frame s (foldl (\<lambda>s (r, v). ctx_rw s r v) t rvs)"
proof (induction rvs arbitrary: t)
  case (Cons rv rvs)
  have "same_frame s (ctx_rw t (fst rv) (snd rv))"
    using Cons.prems by (simp add: frame_defs)
  from Cons.IH [OF this] show ?case
    by (simp add: case_prod_unfold)
qed simp

lemma frame_bump_foldl_rw: "same_frame s (foldl (\<lambda>s (r, v). ctx_rw s r v) (bump_memory_clk s) rvs)"
  by (rule frame_foldl_rw) (simp add: frame_defs)

lemma io_steps:
  "steps P s (minimal_sig_return s a b)" "steps P s (hint_len s a b)" "steps P s (minimal_write E s a b)"
  "steps P s (insert_profile_symbols E s a b)" "steps P s (delete_profile_symbols E s a b)"
  "steps P s (minimal_mprotect_flush s a b)"
  unfolding minimal_sig_return_def hint_len_def minimal_write_def insert_profile_symbols_def
    delete_profile_symbols_def profiler_data_def minimal_mprotect_flush_def trace_value_def Let_def
  by (rule op_steps step_rules frame_bump_foldl_rw | simp add: frame_defs)+

lemma hint_read_steps: "steps P s (hint_read s p n)"
proof (cases "m_input s")
  case (Cons vec rest)
  show ?thesis
    unfolding hint_read_def Let_def Cons list.case
    by (rule loop_steps step_rules | simp add: frame_defs)+
qed (simp add: hint_read_def steps_def)

lemma host_steps:
  "steps_state P s (enter_unconstrained s)" "steps_state P s (exit_unconstrained s)"
  "steps_state P s (set_public_value_digest_word s i w)"
  "steps P s (Option.bind (dump_elf E s) (\<lambda>mem. Some (r, s\<lparr>m_memory := mem\<rparr>)))"
  by (auto simp: steps_state_def steps_def set_public_value_digest_word_def enter exit mem_dump
      split: Option.bind_splits intro!: frame simp: frame_defs)

lemma dispatch_steps: "steps P s (ecall_dispatch E s code a b)"
  by (cases code; simp only: ecall_dispatch_def SyscallCode.case)
    (rule host_steps precompile_steps io_steps hint_read_steps step_rules | simp add: frame_defs)+

lemma ecall_handler_steps: "steps P s (ecall_handler E s code)"
  unfolding ecall_handler_def Let_def
  by (rule dispatch_steps step_rules | simp add: frame_defs)+

subsection \<open>Instructions\<close>

lemma frame_special_cases: "same_frame s (handle_ecall_special_cases (ctx_rw s r v) code)"
  by (simp add: handle_ecall_special_cases_def frame_defs)

lemma execute_ecall_steps:
  "steps_state P s (minimal_execute_ecall E s i)" "steps P s (execute_ecall_user E s i)"
  unfolding minimal_execute_ecall_def execute_ecall_user_def Let_def
  by (rule frame_special_cases ecall_handler_steps [THEN steps_from] op_steps step_rules
      | simp add: frame_defs)+

lemma instruction_steps:
  "steps_state P s (minimal_execute_alu s i)" "steps_state P s (minimal_execute_load s i)"
  "steps_state P s (minimal_execute_store s i)" "steps_state P s (minimal_execute_branch s i)"
  "steps_state P s (minimal_execute_jump s i)" "steps_state P s (minimal_execute_utype s i)"
  unfolding minimal_execute_alu_def minimal_execute_load_def minimal_execute_store_def
    minimal_execute_branch_def minimal_execute_jump_def minimal_execute_utype_def Let_def
    mem_read_untracked_def reg_set_def
  by (rule op_steps step_rules | simp add: frame_defs)+

lemma steps_to_checked: "steps_state P s m \<Longrightarrow> steps P s (to_checked m)"
  unfolding to_checked_def by (erule steps_bind_state) (simp add: steps_def refl)

lemma page_prot_steps:
  "steps P s (minimal_pr e s a b)" "steps P s (minimal_prot_check e s a bm b)"
proof -
  show pr: "steps P s (minimal_pr e s a b)" for s
    unfolding minimal_pr_def Let_def
    by (rule op_steps step_rules | simp add: frame_defs)+
  show "steps P s (minimal_prot_check e s a bm b)"
    unfolding minimal_prot_check_def by (rule pr step_rules | simp add: frame_defs)+
qed

lemmas user_steps = page_prot_steps [THEN steps_from] instruction_steps [THEN steps_state_from]

lemma user_instruction_steps:
  "steps P s (execute_load_user e s i)" "steps P s (execute_store_user e s i)"
  "steps_state P s (handle_interrupt s k)" "steps P s (minimal_fetch e p s)"
  unfolding execute_load_user_def execute_store_user_def handle_interrupt_def minimal_fetch_def Let_def
  by (rule user_steps op_steps step_rules | simp add: frame_defs)+

lemma stop_steps: "steps P s (stop_after_instruction s)"
  unfolding stop_after_instruction_def post_instruction_update_def Let_def
  by (rule step_rules | simp add: frame_defs)+

lemma execute_instruction_steps: "steps P s (execute_instruction E s)"
proof -
  have "steps P s (execute_instruction_supervisor E s)"
    unfolding execute_instruction_supervisor_def Let_def
    by (rule instruction_steps [THEN steps_state_from] execute_ecall_steps(1) [THEN steps_state_from]
        stop_steps step_rules | simp add: frame_defs)+
  moreover have "steps P s (execute_instruction_user E s)"
    unfolding execute_instruction_user_def Let_def
    by (rule user_instruction_steps(4) [THEN steps_from] user_instruction_steps(1,2) execute_ecall_steps(2)
        user_instruction_steps(3) [THEN steps_state_from] instruction_steps [THEN steps_to_checked]
        stop_steps step_rules | simp add: frame_defs)+
  ultimately show ?thesis
    by (simp add: execute_instruction_def split: ExecutionMode.split)
qed

lemma chunk_loop_steps: "chunk_loop E fuel s = Some (Ok s') \<Longrightarrow> P s s'"
proof (induction fuel arbitrary: s)
  case (Suc fuel)
  from Suc.prems obtain stop s1 where step: "execute_instruction E s = Some (stop, s1)"
    by (auto split: option.splits)
  have "P s1 s'"
    using Suc step refl by (auto split: if_splits option.splits)
  with execute_instruction_steps [of s] step show ?case
    by (auto simp: steps_def intro: trans)
qed simp

lemma chunk_loop_error_steps: "chunk_loop E fuel s = Some (Err (e, s')) \<Longrightarrow> P s s'"
proof (induction fuel arbitrary: s)
  case (Suc fuel)
  from Suc.prems obtain stop s1 where step: "execute_instruction E s = Some (stop, s1)"
    by (auto split: option.splits)
  have "P s1 s'"
    using Suc step refl by (auto split: if_splits option.splits)
  with execute_instruction_steps [of s] step show ?case
    by (auto simp: steps_def intro: trans)
qed simp

end

subsection \<open>The recorded reads are only extended\<close>

definition trace_reads :: "MinimalExecutor \<Rightarrow> MemValue list" where
  "trace_reads s = (case m_traces s of None \<Rightarrow> [] | Some b \<Rightarrow> buf_reads b)"

lemma trace_push_reads:
  assumes "trace_push s v = Some t" "m_traces s \<noteq> None"
  obtains b where "t = s\<lparr>m_traces := Some b\<rparr>" "trace_reads t = trace_reads s @ [v]"
  using assms that
  by (auto simp: trace_push_def trace_extend_def trace_reads_def Let_def split: Option.bind_splits)

interpretation reads: step_relation E "\<lambda>s t. prefix (trace_reads s) (trace_reads t)"
proof
  fix s t v assume push: "trace_push s v = Some t"
  show "prefix (trace_reads s) (trace_reads t)"
  proof (cases "m_traces s")
    case None
    with push show ?thesis by (simp add: trace_push_def)
  next
    case (Some b)
    with trace_push_reads [OF push] show ?thesis by fastforce
  qed
qed (auto simp: same_frame_def trace_reads_def enter_unconstrained_def exit_unconstrained_def
      split: Option.bind_splits intro: prefix_order.trans)

subsection \<open>The memory keeps its invariant\<close>

text \<open>An access that neither panics nor fails is one to a word in range.\<close>

lemma cow_access_in_range:
  "cow_get m a = Some x \<Longrightarrow> word_addr a" "cow_insert m a v = Some y \<Longrightarrow> word_addr a"
  "cow_entry m a = Some z \<Longrightarrow> word_addr a"
proof -
  have "in_memory a" if "index_get p (fst (indices a)) = Some i" for p :: "'b PagedMemory" and i
  proof -
    from that have "unat a div (8 * 262144) < 524288"
      by (simp add: index_get_def indices_div_mod word_index_def div_mult2_eq split: if_splits)
    then show ?thesis
      by (simp add: in_memory_def word_less_nat_alt div_less_iff_less_mult)
  qed
  then have *: "paged_get p a = Some x1 \<Longrightarrow> in_memory a" "paged_insert p a w = Some x2 \<Longrightarrow> in_memory a"
    "paged_entry p a = Some x3 \<Longrightarrow> in_memory a" for p :: "'b PagedMemory" and w x1 x2 x3
    by (auto simp: paged_get_def paged_insert_def paged_entry_def split: prod.splits Option.bind_splits)
  show "cow_get m a = Some x \<Longrightarrow> word_addr a" "cow_insert m a v = Some y \<Longrightarrow> word_addr a"
    "cow_entry m a = Some z \<Longrightarrow> word_addr a"
    by (cases m; auto simp: cow_get_def cow_insert_def cow_entry_def word_addr_def
        split: Option.bind_splits option.splits prod.splits dest: *)+
qed

lemma mem_op_exec_keeps:
  assumes "mem_op_exec op m = Some m'" "limited_inv m"
  shows "limited_inv m'"
proof (cases "word_addr (mem_op_addr op)")
  case True
  with assms show ?thesis
    by (metis mem_op_exec_inv option.inject)
next
  case False
  have "m' = limited_check_ptr m (mem_op_addr op) w \<or>
      (\<exists>v. m' = (limited_check_ptr m (mem_op_addr op) w)\<lparr>dummy_value := v\<rparr>)" if "w \<longleftrightarrow> (\<forall>a. op \<noteq> M_get a)" for w
    using assms(1) False that
    by (cases op)
      (auto simp: limited_get_def limited_insert_def limited_get_mut_def Let_def
        split: if_splits Option.bind_splits dest: cow_access_in_range)
  then have "m' = limited_check_ptr m (mem_op_addr op) (\<forall>a. op \<noteq> M_get a) \<or>
      (\<exists>v. m' = (limited_check_ptr m (mem_op_addr op) (\<forall>a. op \<noteq> M_get a))\<lparr>dummy_value := v\<rparr>)"
    by blast
  with limited_inv_check_ptr [OF assms(2)] show ?thesis
    by (auto simp: limited_inv_def)
qed

text \<open>The memory is in copy-on-write mode exactly in an unconstrained block.\<close>

definition executor_inv :: "MinimalExecutor \<Rightarrow> bool" where
  "executor_inv s \<longleftrightarrow> limited_inv (m_memory s) \<and>
    (m_maybe_unconstrained s = None \<longleftrightarrow> cow_bottom (lm_memory (m_memory s)) = None)"

text \<open>What the executor relies on of the debugging call \<open>DUMP_ELF\<close>: it reads the memory.\<close>

definition dump_only_reads :: "externs \<Rightarrow> bool" where
  "dump_only_reads E \<longleftrightarrow> (\<forall>s mem. dump_elf E s = Some mem \<longrightarrow>
     (\<exists>addrs. mem_ops_exec (map M_get addrs) (m_memory s) = Some mem))"

lemma executor_inv_mem:
  assumes "executor_inv s" "mem_op_exec op (m_memory s) = Some mem"
  shows "executor_inv (s\<lparr>m_memory := mem\<rparr>)"
  using assms mem_op_exec_keeps mem_op_exec_bottom [OF assms(2)] by (auto simp: executor_inv_def)

lemma executor_inv_mems:
  "executor_inv s \<Longrightarrow> mem_ops_exec ops (m_memory s) = Some mem \<Longrightarrow> executor_inv (s\<lparr>m_memory := mem\<rparr>)"
proof (induction ops arbitrary: s)
  case (Cons op ops)
  then obtain mem1 where "mem_op_exec op (m_memory s) = Some mem1" "mem_ops_exec ops mem1 = Some mem"
    by (auto split: Option.bind_splits)
  with Cons.IH [of "s\<lparr>m_memory := mem1\<rparr>"] Cons.prems executor_inv_mem [of s op mem1] show ?case
    by simp
qed (auto simp: executor_inv_def)

interpretation invariant: step_relation E
  "\<lambda>s t. dump_only_reads E \<longrightarrow> executor_inv s \<longrightarrow> executor_inv t"
proof
  fix s t :: MinimalExecutor
  show "dump_only_reads E \<longrightarrow> executor_inv s \<longrightarrow> executor_inv t" if "same_frame s t"
    using that by (simp add: same_frame_def executor_inv_def)
  show "dump_only_reads E \<longrightarrow> executor_inv s \<longrightarrow> executor_inv t" if "trace_push s v = Some t" for v
    using that by (auto simp: trace_push_def executor_inv_def split: option.splits Option.bind_splits)
  show "dump_only_reads E \<longrightarrow> executor_inv s \<longrightarrow> executor_inv (s\<lparr>m_memory := mem\<rparr>)"
    if "limited_get (m_memory s) a = Some (ov, mem)" for a ov mem
    using that executor_inv_mem [of s "M_get a" mem] by simp
  show "dump_only_reads E \<longrightarrow> executor_inv s \<longrightarrow> executor_inv (s\<lparr>m_memory := mem\<rparr>)"
    if "limited_get_mut (m_memory s) a f = Some (w, mem)" for a f w mem
    using that executor_inv_mem [of s "M_get_mut a f" mem] by simp
  show "dump_only_reads E \<longrightarrow> executor_inv s \<longrightarrow> executor_inv (s\<lparr>m_memory := mem\<rparr>)"
    if "limited_insert (m_memory s) a w = Some mem" for a w mem
    using that executor_inv_mem [of s "M_insert a w" mem] by simp
  show "dump_only_reads E \<longrightarrow> executor_inv s \<longrightarrow> executor_inv (s\<lparr>m_memory := mem\<rparr>)"
    if "dump_elf E s = Some mem" for mem
    using that unfolding dump_only_reads_def by (blast intro: executor_inv_mems)
  show "dump_only_reads E \<longrightarrow> executor_inv s \<longrightarrow> executor_inv t" if "enter_unconstrained s = Some t"
  proof (intro impI)
    assume inv: "executor_inv s"
    with that obtain p where "lm_memory (m_memory s) = Owned p"
      by (cases "lm_memory (m_memory s)") (auto simp: executor_inv_def enter_unconstrained_def split: Option.bind_splits)
    with inv that show "executor_inv t"
      using limited_inv_copy_on_write [of "m_memory s" p]
      by (auto simp: executor_inv_def enter_unconstrained_def limited_copy_on_write_def new_cow_def
          split: Option.bind_splits)
  qed
  show "dump_only_reads E \<longrightarrow> executor_inv s \<longrightarrow> executor_inv t" if "exit_unconstrained s = Some t"
  proof (intro impI)
    assume inv: "executor_inv s"
    with that obtain c p where "lm_memory (m_memory s) = Cow c p"
      by (cases "lm_memory (m_memory s)") (auto simp: executor_inv_def exit_unconstrained_def split: Option.bind_splits)
    with inv that show "executor_inv t"
      using limited_inv_owned [of "m_memory s" c p]
      by (auto simp: executor_inv_def exit_unconstrained_def limited_owned_def split: Option.bind_splits)
  qed
qed auto

subsection \<open>The first memory error is kept\<close>

definition keeps_error :: "MinimalExecutor \<Rightarrow> MinimalExecutor \<Rightarrow> bool" where
  "keeps_error s t \<longleftrightarrow> (\<forall>e. last_error (m_memory s) = Some e \<longrightarrow> last_error (m_memory t) = Some e)"

lemma keeps_error_mems:
  "mem_ops_exec ops (m_memory s) = Some mem \<Longrightarrow> keeps_error s (s\<lparr>m_memory := mem\<rparr>)"
  using mem_ops_exec_error [of "m_memory s" _ ops] by (fastforce simp: keeps_error_def)

interpretation errors: step_relation E "\<lambda>s t. dump_only_reads E \<longrightarrow> keeps_error s t"
proof
  fix s :: MinimalExecutor and mem
  show "dump_only_reads E \<longrightarrow> keeps_error s (s\<lparr>m_memory := mem\<rparr>)"
    if "limited_get (m_memory s) a = Some (ov, mem)" for a ov
    using that keeps_error_mems [of "[M_get a]" s mem] by simp
  show "dump_only_reads E \<longrightarrow> keeps_error s (s\<lparr>m_memory := mem\<rparr>)"
    if "limited_get_mut (m_memory s) a f = Some (w, mem)" for a f w
    using that keeps_error_mems [of "[M_get_mut a f]" s mem] by simp
  show "dump_only_reads E \<longrightarrow> keeps_error s (s\<lparr>m_memory := mem\<rparr>)"
    if "limited_insert (m_memory s) a w = Some mem" for a w
    using that keeps_error_mems [of "[M_insert a w]" s mem] by simp
  show "dump_only_reads E \<longrightarrow> keeps_error s (s\<lparr>m_memory := mem\<rparr>)" if "dump_elf E s = Some mem"
    using that keeps_error_mems unfolding dump_only_reads_def by blast
qed (auto simp: keeps_error_def same_frame_def trace_push_def enter_unconstrained_def exit_unconstrained_def
      limited_copy_on_write_def limited_owned_def split: option.splits Option.bind_splits)

subsection \<open>The program and the options stay the same\<close>

definition same_options :: "MinimalExecutor \<Rightarrow> MinimalExecutor \<Rightarrow> bool" where
  "same_options s t \<longleftrightarrow> m_program t = m_program s \<and> m_mode t = m_mode s \<and>
    m_max_trace_size t = m_max_trace_size s \<and> (m_traces t = None \<longleftrightarrow> m_traces s = None)"

interpretation options: step_relation E same_options
  by unfold_locales
    (auto simp: same_options_def same_frame_def trace_push_def enter_unconstrained_def
      exit_unconstrained_def split: option.splits Option.bind_splits)

end
