(* ===== verification/Replay_Rules.thy ===== *)
theory Replay_Rules
  imports Step_Relation
begin

text \<open>
  When the core VM (\<open>vm.rs\<close>) and the minimal executor (\<open>minimal/arch/portable/mod.rs\<close>) agree, and rules to
  prove that they keep agreeing. The minimal executor has the memory and records what it reads; the
  core VM has only those recorded reads.

  \<open>agrees\<close> relates their states: the reads recorded so far followed by the reads that are left are the
  reads of the chunk, and registers, program counter, exit code and digest are the same. The clocks
  are left out, since a system call moves them within an instruction; they are compared at its end.
  \<open>simr\<close> says of a step of the minimal executor and one of the core VM: whenever the first returns,
  and records a prefix of the reads of the chunk, the second returns too, with results that are
  related. It has a rule for every form of program text, and a rule for every operation on memory,
  permissions and registers. The precompiles follow from the rules.
\<close>

subsection \<open>When the two machines agree\<close>

text \<open>What stays fixed during a replay: the decoder of instruction words, the reads of the chunk, the mode,
  the clock at its end, the words of the digest that the two machines agree on at the start of the chunk, and
  whether they agree on the exit code there.\<close>

record replay =
  decoder :: "u32 \<Rightarrow> Instruction option"
  chunk_reads :: "MemValue list"
  replay_mode :: ExecutionMode
  end_clk :: u64
  digest_words :: "nat set"
  exit_known :: bool

definition agrees :: "replay \<Rightarrow> u64 \<times> u64 \<Rightarrow> u64 \<times> u64 \<Rightarrow> MinimalExecutor \<Rightarrow> CoreVM \<Rightarrow> bool" where
  "agrees K n n' s c \<longleftrightarrow>
    m_traces s \<noteq> None \<and> m_maybe_unconstrained s = None \<and>
    trace_reads s @ c_mem_reads c = chunk_reads K \<and>
    mr_value (c_registers c 0) = 0 \<and>
    (\<forall>i \<in> {1..<32}. mr_value (c_registers c i) = m_registers s i) \<and>
    c_pc c = m_pc s \<and> c_program c = m_program s \<and> m_mode s = replay_mode K \<and> c_mode c = replay_mode K \<and>
    (exit_known K \<longrightarrow> c_exit_code c = m_exit_code s) \<and> c_clk_end c = end_clk K \<and>
    (\<forall>i \<in> digest_words K. c_public_value_digest c i = m_public_value_digest s i) \<and>
    m_decoded_instruction_cache s \<subseteq>\<^sub>m decoder K \<and> c_decoded_instruction_cache c \<subseteq>\<^sub>m decoder K \<and>
    (m_next_pc s, m_next_clk s) = n \<and> (c_next_pc c, c_next_clk c) = n'"

lemma trace_reads_update [simp]:
  "trace_reads (s\<lparr>m_registers := x1\<rparr>) = trace_reads s" "trace_reads (s\<lparr>m_memory := x2\<rparr>) = trace_reads s"
  "trace_reads (s\<lparr>m_page_prots := x3\<rparr>) = trace_reads s" "trace_reads (s\<lparr>m_pc := x4\<rparr>) = trace_reads s"
  "trace_reads (s\<lparr>m_clk := x4\<rparr>) = trace_reads s" "trace_reads (s\<lparr>m_global_clk := x4\<rparr>) = trace_reads s"
  "trace_reads (s\<lparr>m_next_pc := x4\<rparr>) = trace_reads s" "trace_reads (s\<lparr>m_next_clk := x4\<rparr>) = trace_reads s"
  "trace_reads (s\<lparr>m_exit_code := x5\<rparr>) = trace_reads s" "trace_reads (s\<lparr>m_input := x6\<rparr>) = trace_reads s"
  "trace_reads (s\<lparr>m_public_values_stream := x7\<rparr>) = trace_reads s"
  "trace_reads (s\<lparr>m_public_value_digest := x8\<rparr>) = trace_reads s"
  "trace_reads (s\<lparr>m_hints := x9\<rparr>) = trace_reads s"
  "trace_reads (s\<lparr>m_maybe_unconstrained := x10\<rparr>) = trace_reads s"
  "trace_reads (s\<lparr>m_decoded_instruction_cache := x11\<rparr>) = trace_reads s"
  by (simp_all add: trace_reads_def)

lemma agrees_ignores [simp]:
  "agrees K n n' (s\<lparr>m_clk := t\<rparr>) c = agrees K n n' s c"
  "agrees K n n' (bump_memory_clk s) c = agrees K n n' s c"
  "agrees K n n' (s\<lparr>m_memory := mem\<rparr>) c = agrees K n n' s c"
  "agrees K n n' (s\<lparr>m_page_prots := pp\<rparr>) c = agrees K n n' s c"
  "agrees K n n' (s\<lparr>m_input := inp\<rparr>) c = agrees K n n' s c"
  "agrees K n n' (s\<lparr>m_public_values_stream := str\<rparr>) c = agrees K n n' s c"
  "agrees K n n' (trace_hint s a v) c = agrees K n n' s c"
  "agrees K n n' s (c\<lparr>c_clk := t\<rparr>) = agrees K n n' s c"
  "agrees K n n' s (reset_clk (core_runtime e) c t) = agrees K n n' s c"
  "agrees K n n' s (increment_clk (core_runtime e) c) = agrees K n n' s c"
  by (simp_all add: agrees_def trace_hint_def reset_clk_def increment_clk_def core_runtime_def
      bump_memory_clk_def cong: conj_cong)

subsection \<open>Simulation of partial results\<close>

abbreviation grows :: "MinimalExecutor \<Rightarrow> 'a stepped \<Rightarrow> bool" where
  "grows \<equiv> steps (\<lambda>s t. prefix (trace_reads s) (trace_reads t))"

definition simr :: "MemValue list \<Rightarrow> 'a stepped \<Rightarrow> ('b \<times> CoreVM) option \<Rightarrow>
    ('a \<Rightarrow> MinimalExecutor \<Rightarrow> 'b \<Rightarrow> CoreVM \<Rightarrow> bool) \<Rightarrow> bool" where
  "simr T ms cs Q \<longleftrightarrow> (\<forall>r s. ms = Some (r, s) \<longrightarrow> prefix (trace_reads s) T \<longrightarrow>
     (\<exists>r' c. cs = Some (r', c) \<and> Q r s r' c))"

lemma simr_Some: "Q r s r' c \<Longrightarrow> simr T (Some (r, s)) (Some (r', c)) Q"
  by (simp add: simr_def)

lemma simr_None: "simr T None cs Q"
  by (simp add: simr_def)

lemma simr_weaken: "simr T ms cs Q \<Longrightarrow> (\<And>r s r' c. Q r s r' c \<Longrightarrow> Q' r s r' c) \<Longrightarrow> simr T ms cs Q'"
  by (fastforce simp: simr_def)

lemma simr_bind:
  assumes "simr T ms cs Q1" "\<And>r s. grows s (f (r, s))"
    "\<And>r s r' c. Q1 r s r' c \<Longrightarrow> simr T (f (r, s)) (g (r', c)) Q"
  shows "simr T (Option.bind ms f) (Option.bind cs g) Q"
  unfolding simr_def
proof (intro allI impI)
  fix r2 s2
  assume run: "Option.bind ms f = Some (r2, s2)" and pre: "prefix (trace_reads s2) T"
  then obtain r1 s1 where 1: "ms = Some (r1, s1)" "f (r1, s1) = Some (r2, s2)"
    by (cases ms) auto
  with assms(2) [of s1 r1] have "prefix (trace_reads s1) (trace_reads s2)"
    by (simp add: steps_def)
  with pre have "prefix (trace_reads s1) T"
    by (rule prefix_order.trans [rotated])
  with 1(1) assms(1) obtain r' c where 2: "cs = Some (r', c)" "Q1 r1 s1 r' c"
    by (auto simp: simr_def)
  with assms(3) [OF 2(2)] 1 pre show "\<exists>r' c. Option.bind cs g = Some (r', c) \<and> Q r2 s2 r' c"
    by (auto simp: simr_def)
qed

lemma simr_bind_let:
  assumes "simr T ms (Some p) Q1" "\<And>r s. grows s (f (r, s))"
    "\<And>r s r' c. Q1 r s r' c \<Longrightarrow> simr T (f (r, s)) (g r' c) Q"
  shows "simr T (Option.bind ms f) (case p of (x, c) \<Rightarrow> g x c) Q"
  using simr_bind [of T ms "Some p" Q1 f "\<lambda>(x, c). g x c" Q] assms by (cases p) simp

lemma simr_assert:
  "(b \<Longrightarrow> simr T m k Q) \<Longrightarrow> simr T (assert_that b \<bind> (\<lambda>_. m)) (assert_that b \<bind> (\<lambda>_. k)) Q"
  by (cases b) (simp_all add: simr_None)

lemma simr_assert_left: "(b \<Longrightarrow> simr T m k Q) \<Longrightarrow> simr T (assert_that b \<bind> (\<lambda>_. m)) k Q"
  by (cases b) (simp_all add: simr_None)

lemma simr_assert_right: "b \<Longrightarrow> simr T m k Q \<Longrightarrow> simr T m (assert_that b \<bind> (\<lambda>_. k)) Q"
  by simp

lemma simr_pure_left: "(\<And>x. m = Some x \<Longrightarrow> simr T (f x) k Q) \<Longrightarrow> simr T (Option.bind m f) k Q"
  by (cases m) (simp_all add: simr_None)

lemma simr_pure_right: "m = Some x \<Longrightarrow> simr T f (k x) Q \<Longrightarrow> simr T f (Option.bind m k) Q"
  by simp

lemma simr_pure:
  "(\<And>x. m = Some x \<Longrightarrow> simr T (f x) (k x) Q) \<Longrightarrow> simr T (Option.bind m f) (Option.bind m k) Q"
  by (cases m) (simp_all add: simr_None)

lemma simr_if: "(b \<Longrightarrow> simr T m k Q) \<Longrightarrow> (\<not> b \<Longrightarrow> simr T m' k' Q) \<Longrightarrow>
    simr T (if b then m else m') (if b then k else k') Q"
  by simp

lemma simr_refl_if: "simr T m k Q \<Longrightarrow> simr T m (if x = x then k else k') Q"
  by simp

subsection \<open>Recorded reads\<close>

lemma agrees_push:
  assumes "agrees K n n' s c" "trace_push s v = Some t" "prefix (trace_reads t) (chunk_reads K)"
  obtains vs where "c_mem_reads c = v # vs" "agrees K n n' t (c\<lparr>c_mem_reads := vs\<rparr>)"
proof -
  from assms(1) have reads: "m_traces s \<noteq> None" "trace_reads s @ c_mem_reads c = chunk_reads K"
    by (simp_all add: agrees_def)
  from trace_push_reads [OF assms(2) reads(1)] obtain b
    where t: "t = s\<lparr>m_traces := Some b\<rparr>" "trace_reads t = trace_reads s @ [v]" .
  with assms(3) reads(2) obtain vs where vs: "c_mem_reads c = v # vs"
    by (auto simp: prefix_def)
  have "agrees K n n' t (c\<lparr>c_mem_reads := vs\<rparr>)"
    using assms(1) t vs by (simp add: agrees_def)
  with that [OF vs] show thesis .
qed

lemma agrees_constrained: "agrees K n n' s c \<Longrightarrow> trace_push_constrained s v = trace_push s v"
  by (simp add: agrees_def trace_push_constrained_def)

lemma simr_push:
  assumes "agrees K n n' s c" "\<And>t. grows t (f t)"
    "\<And>t c'. agrees K n n' t c' \<Longrightarrow> simr (chunk_reads K) (f t) (g (v, c')) Q"
  shows "simr (chunk_reads K) (Option.bind (trace_push s v) f) (Option.bind (next_read c) g) Q"
  unfolding simr_def
proof (intro allI impI)
  fix r t2
  assume run: "Option.bind (trace_push s v) f = Some (r, t2)" and pre: "prefix (trace_reads t2) (chunk_reads K)"
  then obtain t where t: "trace_push s v = Some t" "f t = Some (r, t2)"
    by (cases "trace_push s v") auto
  with assms(2) [of t] pre have "prefix (trace_reads t) (chunk_reads K)"
    by (auto simp: steps_def intro: prefix_order.trans)
  from agrees_push [OF assms(1) t(1) this] obtain vs
    where vs: "c_mem_reads c = v # vs" "agrees K n n' t (c\<lparr>c_mem_reads := vs\<rparr>)" .
  with assms(3) [OF vs(2)] t pre show "\<exists>r' c'. Option.bind (next_read c) g = Some (r', c') \<and> Q r t2 r' c'"
    by (auto simp: simr_def next_read_def)
qed

subsection \<open>Memory\<close>

lemma grows_push: "grows t (Option.bind (trace_push t v) (\<lambda>t. Some (r t, f t)))" if "\<And>t. same_frame t (f t)"
  using that by (intro reads.step_rules reads.push_steps) (simp_all add: same_frame_def)

lemma sim_mr:
  assumes "agrees K n n' s c"
  shows "simr (chunk_reads K) (ctx_mr_without_prot s a) (core_mr_without_prot c a')
    (\<lambda>v t r c'. rd_value r = v \<and> agrees K n n' t c')"
  unfolding ctx_mr_without_prot_def core_mr_without_prot_def case_prod_unfold
  by (rule simr_pure_left, rule simr_push [of K n n'])
    (auto simp: assms steps_def intro!: simr_Some)

lemma sim_mw:
  assumes "agrees K n n' s c"
  shows "simr (chunk_reads K) (ctx_mw_without_prot s a v) (core_mw_without_prot c a')
    (\<lambda>_ t r c'. wr_value r = v \<and> agrees K n n' t c')"
  unfolding ctx_mw_without_prot_def core_mw_without_prot_def case_prod_unfold
  by (rule simr_pure_left simr_push [of K n n'] grows_push simr_Some
      | simp add: assms same_frame_def steps_def)+

lemma agrees_bind_push:
  assumes "agrees K n n' s c" "Option.bind (trace_push s v) f = Some (r, t)" "prefix (trace_reads t) (chunk_reads K)"
    "\<And>t. grows t (f t)"
  obtains s1 vs where "f s1 = Some (r, t)" "c_mem_reads c = v # vs" "agrees K n n' s1 (c\<lparr>c_mem_reads := vs\<rparr>)"
    "m_memory s1 = m_memory s"
proof -
  from assms(2) obtain s1 where s1: "trace_push s v = Some s1" "f s1 = Some (r, t)"
    by (cases "trace_push s v") auto
  with assms(3) assms(4) [of s1] have "prefix (trace_reads s1) (chunk_reads K)"
    by (auto simp: steps_def intro: prefix_order.trans)
  from agrees_push [OF assms(1) s1(1) this] obtain vs
    where vs: "c_mem_reads c = v # vs" "agrees K n n' s1 (c\<lparr>c_mem_reads := vs\<rparr>)" .
  have "m_memory s1 = m_memory s"
    using s1(1) by (auto simp: trace_push_def split: option.splits Option.bind_splits)
  with that [OF s1(2) vs] show thesis .
qed

lemma agrees_touch_slice:
  assumes "agrees K n n' s c" "touch_slice f s as = Some (u, t)" "prefix (trace_reads t) (chunk_reads K)"
  obtains vs rest where "length vs = length as" "c_mem_reads c = vs @ rest"
    "agrees K n n' t (c\<lparr>c_mem_reads := rest\<rparr>)"
  using assms
proof (induction as arbitrary: s c thesis)
  case Nil
  from Nil.prems(1) [of "[]" "c_mem_reads c"] Nil.prems(2-) show ?case by simp
next
  case (Cons a as)
  from Cons.prems(3) obtain v mem where v: "limited_get_mut (m_memory s) a f = Some (v, mem)"
    "Option.bind (trace_push (s\<lparr>m_memory := mem\<rparr>) v) (\<lambda>s1. touch_slice f s1 as) = Some (u, t)"
    by (auto split: Option.bind_splits)
  have "agrees K n n' (s\<lparr>m_memory := mem\<rparr>) c"
    using Cons.prems(2) by simp
  from agrees_bind_push [OF this v(2) Cons.prems(4) reads.touch_slice_steps] obtain s1 ws where
    "touch_slice f s1 as = Some (u, t)" "c_mem_reads c = v # ws" "agrees K n n' s1 (c\<lparr>c_mem_reads := ws\<rparr>)" .
  moreover from Cons.IH [OF _ this(3,1) Cons.prems(4)] obtain vs rest where "length vs = length as"
    "ws = vs @ rest" "agrees K n n' t (c\<lparr>c_mem_reads := rest\<rparr>)"
    by auto
  ultimately show ?case
    using Cons.prems(1) [of "v # vs" rest] by simp
qed

lemma agrees_memory: "agrees K n n' s c \<Longrightarrow> agrees K n n' (s\<lparr>m_memory := mem\<rparr>) c"
  by simp

lemma length_slice_addrs [simp]: "length (slice_addrs a k) = k"
  by (simp add: slice_addrs_def)

lemma sim_touched_slice:
  assumes "agrees K n n' s c"
    "\<And>ws rest t vs mem. \<lbrakk>length ws = k; c_mem_reads c = ws @ rest;
       touch_slice f s (slice_addrs a k) = Some ((), t); read_values (m_memory t) as = Some (vs, mem);
       agrees K n n' (t\<lparr>m_memory := mem\<rparr>) (c\<lparr>c_mem_reads := rest\<rparr>)\<rbrakk> \<Longrightarrow>
       \<exists>r' c'. cs = Some (r', c') \<and> Q vs (t\<lparr>m_memory := mem\<rparr>) r' c'"
  shows "simr (chunk_reads K) (do { (_, s1) \<leftarrow> touch_slice f s (slice_addrs a k);
      (vs, mem) \<leftarrow> read_values (m_memory s1) as; Some (vs, s1\<lparr>m_memory := mem\<rparr>) }) cs Q"
  unfolding simr_def
proof (intro allI impI)
  fix vs t2
  assume run: "(do { (_, s1) \<leftarrow> touch_slice f s (slice_addrs a k);
      (vs, mem) \<leftarrow> read_values (m_memory s1) as; Some (vs, s1\<lparr>m_memory := mem\<rparr>) }) = Some (vs, t2)"
    and pre: "prefix (trace_reads t2) (chunk_reads K)"
  from run obtain t mem where t: "touch_slice f s (slice_addrs a k) = Some ((), t)"
    "read_values (m_memory t) as = Some (vs, mem)" "t2 = t\<lparr>m_memory := mem\<rparr>"
    by (auto split: Option.bind_splits)
  with pre have "prefix (trace_reads t) (chunk_reads K)"
    by simp
  from agrees_touch_slice [OF assms(1) t(1) this] obtain ws rest where "length ws = k"
    "c_mem_reads c = ws @ rest" "agrees K n n' t (c\<lparr>c_mem_reads := rest\<rparr>)"
    by auto
  with assms(2) t show "\<exists>r' c'. cs = Some (r', c') \<and> Q vs t2 r' c'"
    by auto
qed

lemma sim_mr_slice_unsafe:
  assumes "agrees K n n' s c"
  shows "simr (chunk_reads K) (ctx_mr_slice_unsafe s a k) (Some (rt_mr_slice_unsafe (core_runtime e) c k))
    (\<lambda>vs t vs' c'. agrees K n n' t c')"
  unfolding ctx_mr_slice_unsafe_def
  by (rule sim_touched_slice [OF assms])
    (auto simp: rt_mr_slice_unsafe_def core_runtime_def take_reads_def)

text \<open>The values that a slice operation returns are those it has recorded, unless the memory has failed.\<close>

definition stored :: "LimitedMemory \<Rightarrow> u64 \<Rightarrow> MemValue" where
  "stored m a = (case cow_abs (lm_memory m) (word_index a) of None \<Rightarrow> default_MemValue | Some v \<Rightarrow> v)"

lemma get_mut_effect:
  assumes "limited_get_mut m a f = Some (v, m1)" "limited_inv m" "last_error m1 = None"
  shows "v = stored m a" "limited_inv m1" "last_error m = None"
    "cow_abs (lm_memory m1) = (cow_abs (lm_memory m))(word_index a \<mapsto> f v)" "word_addr a"
proof -
  have "last_error m = None"
    using mem_op_exec_error [of m _ "M_get_mut a f"] assms(1,3) by (cases "last_error m") auto
  moreover show "word_addr a"
    using assms(1,3) by (auto simp: limited_get_mut_def Let_def has_last_error_def
        split: if_splits Option.bind_splits dest: cow_access_in_range)
  ultimately have "access_ok m a"
    by (simp add: access_ok_def)
  from limited_get_mut_abs [OF assms(2) this, of f] assms(1) \<open>last_error m = None\<close>
  show "v = stored m a" "limited_inv m1" "last_error m = None"
    "cow_abs (lm_memory m1) = (cow_abs (lm_memory m))(word_index a \<mapsto> f v)"
    by (auto simp: stored_def)
qed

lemma get_effect:
  assumes "limited_get m a = Some (ov, m1)" "limited_inv m" "last_error m1 = None"
  shows "ov = cow_abs (lm_memory m) (word_index a)" "m1 = m"
proof -
  have "last_error m = None"
    using mem_op_exec_error [of m _ "M_get a"] assms(1,3) by (cases "last_error m") auto
  moreover have "word_addr a"
    using assms(1,3) by (auto simp: limited_get_def Let_def has_last_error_def
        split: if_splits Option.bind_splits dest: cow_access_in_range)
  ultimately have "access_ok m a"
    by (simp add: access_ok_def)
  from limited_get_abs [OF assms(2) this] assms(1)
  show "ov = cow_abs (lm_memory m) (word_index a)" "m1 = m"
    by auto
qed

lemma read_values_error:
  "read_values m as = Some (vs, mem) \<Longrightarrow> last_error mem = None \<Longrightarrow> last_error m = None"
proof (induction as arbitrary: m vs)
  case (Cons a as)
  then obtain ov m1 vs1 where "limited_get m a = Some (ov, m1)" "read_values m1 as = Some (vs1, mem)"
    by (auto split: Option.bind_splits)
  with Cons.IH [of m1 vs1] Cons.prems(2) mem_op_exec_error [of m _ "M_get a"] show ?case
    by (cases "last_error m") auto
qed simp

lemma read_values_effect:
  "read_values m as = Some (vs, mem) \<Longrightarrow> limited_inv m \<Longrightarrow> last_error mem = None \<Longrightarrow>
    vs = map (\<lambda>a. value (stored m a)) as \<and> mem = m"
proof (induction as arbitrary: m vs)
  case (Cons a as)
  then obtain v m1 vs1 where get: "limited_get m a = Some (Some v, m1)" and rest: "read_values m1 as = Some (vs1, mem)"
    and vs: "vs = value v # vs1"
    by (auto split: Option.bind_splits)
  have "m1 = m" "stored m a = v"
    using get_effect [OF get Cons.prems(2) read_values_error [OF rest Cons.prems(3)]]
    by (auto simp: stored_def split: option.splits)
  with Cons.IH [OF rest] Cons.prems vs show ?case
    by simp
qed simp

lemma touch_slice_values:
  assumes "touch_slice f s as = Some (u, t)" "m_traces s \<noteq> None" "limited_inv (m_memory s)"
    "last_error (m_memory t) = None" "\<And>v. value (f v) = value v"
  shows "\<exists>ws. trace_reads t = trace_reads s @ ws \<and> map value ws = map (\<lambda>a. value (stored (m_memory s) a)) as \<and>
    limited_inv (m_memory t) \<and> (\<forall>a. value (stored (m_memory t) a) = value (stored (m_memory s) a)) \<and>
    last_error (m_memory s) = None \<and> (\<forall>a \<in> set as. word_addr a)"
  using assms(1-4)
proof (induction as arbitrary: s)
  case (Cons a as)
  from Cons.prems(1) obtain v mem s1 where v: "limited_get_mut (m_memory s) a f = Some (v, mem)"
    "trace_push (s\<lparr>m_memory := mem\<rparr>) v = Some s1" "touch_slice f s1 as = Some (u, t)"
    by (auto split: Option.bind_splits)
  from trace_push_reads [OF v(2)] Cons.prems(2) obtain b where s1: "s1 = s\<lparr>m_memory := mem, m_traces := Some b\<rparr>"
    "trace_reads s1 = trace_reads s @ [v]"
    by auto
  have err: "last_error mem = None"
  proof -
    have "keeps_error s1 t"
      using errors.touch_slice_steps [of "undefined \<lparr>dump_elf := \<lambda>_. None\<rparr>" s1 f as] v(3)
      by (auto simp: steps_def dump_only_reads_def)
    with Cons.prems(4) s1(1) show ?thesis
      by (cases "last_error mem") (simp_all add: keeps_error_def)
  qed
  note eff = get_mut_effect [OF v(1) Cons.prems(3) err]
  have same: "value (stored mem a') = value (stored (m_memory s) a')" for a'
    using eff(1,4) assms(5) [of v] by (auto simp: stored_def split: option.splits)
  from Cons.IH [OF v(3)] s1 eff(2) Cons.prems(4) obtain ws where "trace_reads t = trace_reads s1 @ ws"
    "map value ws = map (\<lambda>a. value (stored mem a)) as" "limited_inv (m_memory t)"
    "\<forall>a. value (stored (m_memory t) a) = value (stored mem a)" "\<forall>a \<in> set as. word_addr a"
    by auto
  with s1(2) eff(1,3,5) same show ?case
    by (intro exI [of _ "v # ws"]) simp
qed auto

text \<open>Addresses of the memory do not wrap around, so the second pass of a slice operation reads the words that
  the first has touched.\<close>

lemma slice_addrs_unat:
  assumes "\<forall>b \<in> set (slice_addrs a k). word_addr b" "i \<le> k"
  shows "unat (a + of_nat i * 8) = unat a + 8 * i"
  using assms(2)
proof (induction i)
  case (Suc i)
  then have "word_addr (a + of_nat i * 8)"
    using assms(1) by (simp add: slice_addrs_def)
  from word_addr_bound [OF this] have "unat (a + of_nat i * 8) + 8 < 2 ^ 64"
    by (simp add: word_le_nat_alt)
  then have "unat (a + of_nat i * 8 + 8) = unat (a + of_nat i * 8) + 8"
    by (simp add: unat_word_ariths)
  with Suc show ?case
    by (simp add: algebra_simps)
qed simp

lemma slice_range_addrs:
  assumes "\<forall>b \<in> set (slice_addrs a k). word_addr b"
  shows "slice_range a k = slice_addrs a k"
proof (cases "k = 0")
  case False
  have "unat (a + of_nat k * 8) = unat a + 8 * k"
    using slice_addrs_unat [OF assms] by simp
  moreover from this False have "a \<le> a + of_nat k * 8" "a < a + of_nat k * 8"
    by (simp_all add: word_le_nat_alt word_less_nat_alt)
  ultimately have "unat (a + of_nat k * 8 - a) = 8 * k" "a < a + of_nat k * 8"
    using unat_sub [of a "a + of_nat k * 8"] by simp_all
  then show ?thesis
    unfolding slice_range_def slice_addrs_def Let_def by simp
qed (simp add: slice_range_def slice_addrs_def)

lemma sim_mr_slice:
  assumes "agrees K n n' s c"
  shows "simr (chunk_reads K) (ctx_mr_slice_without_prot s a k) (Some (core_mr_slice_without_prot c a' k))
    (\<lambda>vs t rs c'. length rs = k \<and> agrees K n n' t c' \<and>
      (executor_inv s \<and> last_error (m_memory t) = None \<longrightarrow> map rd_value rs = vs))"
  unfolding ctx_mr_slice_without_prot_def
proof (rule sim_touched_slice [OF assms])
  let ?f = "\<lambda>v. if m_traces s \<noteq> None then v\<lparr>clk := m_clk s\<rparr> else v"
  fix ws rest t vs mem
  assume ws: "length ws = k" "c_mem_reads c = ws @ rest"
    and t: "touch_slice ?f s (slice_addrs a k) = Some ((), t)"
    and vs: "read_values (m_memory t) (slice_range a k) = Some (vs, mem)"
    and agr: "agrees K n n' (t\<lparr>m_memory := mem\<rparr>) (c\<lparr>c_mem_reads := rest\<rparr>)"
  have "map value ws = vs" if inv: "executor_inv s" and err: "last_error mem = None"
  proof -
    have "limited_inv (m_memory s)" "m_traces s \<noteq> None" "last_error (m_memory t) = None"
      using inv assms read_values_error [OF vs err] by (simp_all add: executor_inv_def agrees_def)
    moreover have "value (?f v) = value v" for v
      by simp
    ultimately have "\<exists>us. trace_reads t = trace_reads s @ us \<and>
        map value us = map (\<lambda>a. value (stored (m_memory s) a)) (slice_addrs a k) \<and> limited_inv (m_memory t) \<and>
        (\<forall>a. value (stored (m_memory t) a) = value (stored (m_memory s) a)) \<and> last_error (m_memory s) = None \<and>
        (\<forall>b \<in> set (slice_addrs a k). word_addr b)"
      using t by (intro touch_slice_values [of ?f]) auto
    then obtain us where us: "trace_reads t = trace_reads s @ us"
      "map value us = map (\<lambda>a. value (stored (m_memory s) a)) (slice_addrs a k)" "limited_inv (m_memory t)"
      "\<And>a. value (stored (m_memory t) a) = value (stored (m_memory s) a)"
      "slice_range a k = slice_addrs a k"
      using slice_range_addrs by auto
    have "trace_reads s @ ws @ rest = chunk_reads K" "trace_reads t @ rest = chunk_reads K"
      using ws assms agr by (simp_all add: agrees_def)
    with us(1) have "trace_reads s @ ws @ rest = trace_reads s @ us @ rest"
      by simp
    then have "us = ws"
      by simp
    with us(2,4,5) read_values_effect [OF vs us(3) err] show ?thesis
      by simp
  qed
  with ws agr vs show "\<exists>rs c'. Some (core_mr_slice_without_prot c a' k) = Some (rs, c') \<and>
      length rs = k \<and> agrees K n n' (t\<lparr>m_memory := mem\<rparr>) c' \<and>
      (executor_inv s \<and> last_error (m_memory (t\<lparr>m_memory := mem\<rparr>)) = None \<longrightarrow> map rd_value rs = vs)"
    by (auto simp: core_mr_slice_without_prot_def take_reads_def comp_def)
qed

lemma agrees_write_words:
  assumes "agrees K n n' s c" "write_words s a vs = Some (u, t)" "prefix (trace_reads t) (chunk_reads K)"
  obtains ws rest where "length ws = 2 * length vs" "c_mem_reads c = ws @ rest"
    "agrees K n n' t (c\<lparr>c_mem_reads := rest\<rparr>)"
  using assms
proof (induction vs arbitrary: s c a thesis)
  case Nil
  from Nil.prems(1) [of "[]" "c_mem_reads c"] Nil.prems(2-) show ?case by simp
next
  case (Cons v vs)
  from Cons.prems(3) obtain s1 where s1: "ctx_mw_without_prot s a v = Some ((), s1)"
    "write_words s1 (a + 8) vs = Some (u, t)"
    by (auto split: Option.bind_splits)
  have "prefix (trace_reads s1) (chunk_reads K)"
    using reads.write_words_steps [of s1 "a + 8" vs] s1(2) Cons.prems(4)
    by (auto simp: steps_def intro: prefix_order.trans)
  with sim_mw [OF Cons.prems(2), of a v a] s1(1) obtain r c1 where
    c1: "core_mw_without_prot c a = Some (r, c1)" "agrees K n n' s1 c1"
    by (auto simp: simr_def)
  from c1(1) obtain old new ws where c: "c_mem_reads c = old # new # ws" "c1 = c\<lparr>c_mem_reads := ws\<rparr>"
    by (auto simp: core_mw_without_prot_def next_read_def split: Option.bind_splits list.splits)
  from Cons.IH [OF _ c1(2) s1(2) Cons.prems(4)] c obtain us rest where "length us = 2 * length vs"
    "ws = us @ rest" "agrees K n n' t (c\<lparr>c_mem_reads := rest\<rparr>)"
    by auto
  with c show ?case
    using Cons.prems(1) [of "old # new # us" rest] by simp
qed

lemma length_chunks2 [simp]: "length (chunks2 xs) = Suc (length xs) div 2"
  by (induction xs rule: chunks2.induct) simp_all

lemma sim_mw_slice:
  assumes "agrees K n n' s c" "length vs = k"
  shows "simr (chunk_reads K) (ctx_mw_slice_without_prot s a vs) (Some (core_mw_slice_without_prot c a' k))
    (\<lambda>_ t rs c'. length rs = k \<and> agrees K n n' t c')"
  unfolding simr_def ctx_mw_slice_without_prot_def
proof (intro allI impI)
  fix u t
  assume "write_words s a vs = Some (u, t)" "prefix (trace_reads t) (chunk_reads K)"
  from agrees_write_words [OF assms(1) this] obtain ws rest where "length ws = 2 * k"
    "c_mem_reads c = ws @ rest" "agrees K n n' t (c\<lparr>c_mem_reads := rest\<rparr>)"
    using assms(2) by auto
  then show "\<exists>rs c'. Some (core_mw_slice_without_prot c a' k) = Some (rs, c') \<and> length rs = k \<and>
      agrees K n n' t c'"
    by (simp add: core_mw_slice_without_prot_def take_reads_def mult.commute [of k])
qed

subsection \<open>Page permissions\<close>

text \<open>A trap of the minimal executor is the same trap of the core VM.\<close>

definition same_trap :: "Interrupt + 'a \<Rightarrow> TrapError option \<Rightarrow> bool" where
  "same_trap r err \<longleftrightarrow> (case r of
      Inl i \<Rightarrow> err = Some (PagePermissionViolation (trap_code i))
    | Inr _ \<Rightarrow> err = None)"

lemma core_failure:
  "(if bm AND PROT_EXEC e \<noteq> 0 \<and> p AND PROT_EXEC e = 0 then Some (PagePermissionViolation PROT_FAILURE_EXEC)
    else if bm AND PROT_READ e \<noteq> 0 \<and> p AND PROT_READ e = 0 then Some (PagePermissionViolation PROT_FAILURE_READ)
    else if bm AND PROT_WRITE e \<noteq> 0 \<and> p AND PROT_WRITE e = 0 then Some (PagePermissionViolation PROT_FAILURE_WRITE)
    else None) = map_option PagePermissionViolation (prot_failure e bm p)"
  by (simp add: prot_failure_def)

definition prot_record :: "u64 \<Rightarrow> PageProtValue \<Rightarrow> PageProtRecord" where
  "prot_record i p = \<lparr>external_flag = False, pr_timestamp = pp_timestamp p, page_idx = i, page_prot = pp_value p\<rparr>"

lemma core_page_prot_check_enabled:
  "PAGE_PROTECTION_ENABLED (c_mode c) \<Longrightarrow> core_page_prot_check e c i bm = do {
     (v, c1) \<leftarrow> next_read c;
     p \<leftarrow> page_prot_of_mem v;
     Some ((Some (prot_record i p), map_option PagePermissionViolation (prot_failure e bm (pp_value p))), c1)
   }"
  by (simp add: core_page_prot_check_def core_failure prot_record_def)

lemma core_page_prot_checks_Cons:
  "PAGE_PROTECTION_ENABLED (c_mode c) \<Longrightarrow> core_page_prot_checks e bm c (i # ps) = do {
     (v, c1) \<leftarrow> next_read c;
     p \<leftarrow> page_prot_of_mem v;
     (case prot_failure e bm (pp_value p) of
       Some code \<Rightarrow> Some (([prot_record i p], Some (PagePermissionViolation code)), c1)
     | None \<Rightarrow> do {
         ((records, err), c2) \<leftarrow> core_page_prot_checks e bm c1 ps;
         Some ((prot_record i p # records, err), c2)
       })
   }"
proof (cases "next_read c")
  case (Some x)
  moreover assume "PAGE_PROTECTION_ENABLED (c_mode c)"
  ultimately show ?thesis
    by (cases "page_prot_of_mem (fst x)"; cases "prot_failure e bm (pp_value (the (page_prot_of_mem (fst x))))")
      (simp_all add: core_page_prot_check_enabled case_prod_unfold)
qed (simp add: core_page_prot_check_enabled)

lemma simr_map_right:
  assumes "simr T m k Q1" "\<And>r s x c. Q1 r s x c \<Longrightarrow> Q r s (h x) c"
  shows "simr T m (Option.bind k (\<lambda>(x, c). Some (h x, c))) Q"
  using assms by (fastforce simp: simr_def)

lemma sim_check_pages:
  assumes "agrees K n n' s c" "PAGE_PROTECTION_ENABLED (m_mode s)"
  shows "simr (chunk_reads K) (check_pages e bm s ps) (core_page_prot_checks e bm c ps)
    (\<lambda>r t x c'. same_trap r (snd x) \<and> agrees K n n' t c')"
  using assms
proof (induction ps arbitrary: s c)
  case Nil
  then show ?case by (simp add: simr_def same_trap_def)
next
  case (Cons i ps)
  have mode: "PAGE_PROTECTION_ENABLED (c_mode c)"
    using Cons.prems by (simp add: agrees_def)
  have rest: "simr (chunk_reads K) (case x of Some code \<Rightarrow> Some (Inl (Interrupt code), t) | None \<Rightarrow> check_pages e bm t ps)
      (case x of Some code \<Rightarrow> Some (([r], Some (PagePermissionViolation code)), c')
       | None \<Rightarrow> Option.bind (core_page_prot_checks e bm c' ps) (\<lambda>((rs, err), c2). Some ((r # rs, err), c2)))
      (\<lambda>r t x c'. same_trap r (snd x) \<and> agrees K n n' t c')"
    if "agrees K n n' t c'" for x t c' r
  proof (cases x)
    case None
    have "simr (chunk_reads K) (check_pages e bm t ps)
        (Option.bind (core_page_prot_checks e bm c' ps) (\<lambda>(x, c2). Some (apfst ((#) r) x, c2)))
        (\<lambda>r t x c'. same_trap r (snd x) \<and> agrees K n n' t c')"
      using Cons.IH [OF that] that Cons.prems by (intro simr_map_right) (auto simp: agrees_def)
    with None show ?thesis
      by (simp add: case_prod_unfold apfst_def map_prod_def)
  next
    case (Some code)
    with that show ?thesis
      by (simp add: simr_def same_trap_def)
  qed
  show ?case
    unfolding check_pages.simps core_page_prot_checks_Cons [OF mode] Let_def agrees_constrained [OF Cons.prems(1)]
    by (rule simr_push [OF Cons.prems(1)] reads.check_pages_steps [THEN reads.steps_from] reads.step_rules
        | simp add: same_frame_def rest)+
qed

lemma sim_prot_slice_check:
  assumes "agrees K n n' s c" "0 < k"
  shows "simr (chunk_reads K) (ctx_prot_slice_check e s a k bm) (rt_prot_slice_check (core_runtime e) c a k bm)
    (\<lambda>r t x c'. same_trap r (snd x) \<and> agrees K n n' t c')"
proof (cases "PAGE_PROTECTION_ENABLED (replay_mode K)")
  case True
  have "of_nat (k - 1) = (of_nat k - 1 :: u64)"
    using assms(2) by (simp add: of_nat_diff)
  with True sim_check_pages [OF assms(1)] assms(1) show ?thesis
    by (simp add: ctx_prot_slice_check_def rt_prot_slice_check_def core_runtime_def core_page_prot_range_check_def
        Let_def agrees_def)
next
  case False
  with assms(1) have "ctx_prot_slice_check e s a k bm = Some (Inr (), s)"
    "rt_prot_slice_check (core_runtime e) c a k bm = Some (([], None), c)"
    by (simp_all add: ctx_prot_slice_check_def rt_prot_slice_check_def core_runtime_def
        core_page_prot_range_check_def Let_def agrees_def)
  with assms(1) show ?thesis
    by (simp add: simr_def same_trap_def)
qed

lemma core_runtime_simps [simp]:
  "rt_rr (core_runtime e) = core_rt_rr" "rt_rw (core_runtime e) = core_rt_rw"
  "rt_page_prot_write (core_runtime e) = core_page_prot_write"
  "rt_mr_without_prot (core_runtime e) = core_mr_without_prot"
  "rt_mw_without_prot (core_runtime e) = core_mw_without_prot"
  "rt_mr_slice_without_prot (core_runtime e) = core_mr_slice_without_prot"
  "rt_mw_slice_without_prot (core_runtime e) = core_mw_slice_without_prot"
  by (simp_all add: core_runtime_def)

subsection \<open>Rules for the system calls\<close>

abbreviation simk :: "replay \<Rightarrow> 'a stepped \<Rightarrow> ('b \<times> CoreVM) option \<Rightarrow>
    ('a \<Rightarrow> MinimalExecutor \<Rightarrow> 'b \<Rightarrow> CoreVM \<Rightarrow> bool) \<Rightarrow> bool" where
  "simk K \<equiv> simr (chunk_reads K)"

lemma simk_mr:
  assumes "agrees K n n' s c" "\<And>v t. grows t (f v t)"
    "\<And>t r c'. agrees K n n' t c' \<Longrightarrow> simk K (f (rd_value r) t) (g r c') Q"
  shows "simk K (Option.bind (ctx_mr_without_prot s a) (\<lambda>(v, t). f v t))
    (Option.bind (rt_mr_without_prot (core_runtime e) c a') (\<lambda>(r, c). g r c)) Q"
  unfolding core_runtime_simps
  by (rule simr_bind [OF sim_mr [OF assms(1)]]) (auto simp: assms)

lemma simk_mw:
  assumes "agrees K n n' s c" "\<And>v t. grows t (f v t)"
    "\<And>v t r c'. agrees K n n' t c' \<Longrightarrow> simk K (f v t) (g r c') Q"
  shows "simk K (Option.bind (ctx_mw_without_prot s a w) (\<lambda>(v, t). f v t))
    (Option.bind (rt_mw_without_prot (core_runtime e) c a') (\<lambda>(r, c). g r c)) Q"
  unfolding core_runtime_simps
  by (rule simr_bind [OF sim_mw [OF assms(1)]]) (auto simp: assms)

lemma simk_mr_slice_unsafe:
  assumes "agrees K n n' s c" "\<And>v t. grows t (f v t)"
    "\<And>v t r c'. agrees K n n' t c' \<Longrightarrow> simk K (f v t) (g r c') Q"
  shows "simk K (Option.bind (ctx_mr_slice_unsafe s a k) (\<lambda>(v, t). f v t))
    (case rt_mr_slice_unsafe (core_runtime e) c k of (r, c) \<Rightarrow> g r c) Q"
  by (rule simr_bind_let [OF sim_mr_slice_unsafe [OF assms(1)]]) (auto simp: assms)

lemma simk_mr_slice:
  assumes "agrees K n n' s c" "\<And>v t. grows t (f v t)"
    "\<And>v t r c'. length r = k \<Longrightarrow> agrees K n n' t c' \<Longrightarrow> simk K (f v t) (g r c') Q"
  shows "simk K (Option.bind (ctx_mr_slice_without_prot s a k) (\<lambda>(v, t). f v t))
    (case rt_mr_slice_without_prot (core_runtime e) c a' k of (r, c) \<Rightarrow> g r c) Q"
  unfolding core_runtime_simps
  by (rule simr_bind_let [OF sim_mr_slice [OF assms(1)]]) (auto simp: assms)

lemma simk_mw_slice:
  assumes "agrees K n n' s c" "length ws = k" "\<And>v t. grows t (f v t)"
    "\<And>v t r c'. agrees K n n' t c' \<Longrightarrow> simk K (f v t) (g r c') Q"
  shows "simk K (Option.bind (ctx_mw_slice_without_prot s a ws) (\<lambda>(v, t). f v t))
    (case rt_mw_slice_without_prot (core_runtime e) c a' k of (r, c) \<Rightarrow> g r c) Q"
  unfolding core_runtime_simps
  by (rule simr_bind_let [OF sim_mw_slice [OF assms(1,2)]]) (auto simp: assms)

lemma simk_check:
  assumes "agrees K n n' s c" "0 < k" "\<And>t. grows t (f () t)"
    "\<And>t c'. agrees K n n' t c' \<Longrightarrow> simk K (f () t) (F c') Q"
    "\<And>code t c'. agrees K n n' t c' \<Longrightarrow>
      simk K (Some (Inl (Interrupt code), t)) (G (Some (PagePermissionViolation code)) c') Q"
  shows "simk K (try_then (ctx_prot_slice_check e s a k bm) f)
    (Option.bind (rt_prot_slice_check (core_runtime e) c a k bm)
      (\<lambda>((x, err), c1). if err \<noteq> None then G err c1 else F c1)) Q"
  unfolding try_then_def
proof (rule simr_bind [OF sim_prot_slice_check [OF assms(1,2)]])
  show "grows t (case (r, t) of (Inl i, s) \<Rightarrow> Some (Inl i, s) | (Inr x, s) \<Rightarrow> f x s)" for r t
    using assms(3) by (cases r) (simp_all add: steps_def)
  show "simk K (case (r, t) of (Inl i, s) \<Rightarrow> Some (Inl i, s) | (Inr x, s) \<Rightarrow> f x s)
      (case (x, c') of (a, c1) \<Rightarrow> (case a of (x, err) \<Rightarrow> \<lambda>c1. if err \<noteq> None then G err c1 else F c1) c1) Q"
    if "same_trap r (snd x) \<and> agrees K n n' t c'" for r t x c'
    using that assms(4) [of t c'] assms(5) [of t c' "trap_code (projl r)"]
    by (cases r; cases x) (auto simp: same_trap_def)
qed

lemma simk_check':
  assumes "agrees K n n' s c" "0 < k" "\<And>t. grows t (f () t)"
    "\<And>t c'. agrees K n n' t c' \<Longrightarrow> simk K (f () t) (F None c') Q"
    "\<And>code t c'. agrees K n n' t c' \<Longrightarrow>
      simk K (Some (Inl (Interrupt code), t)) (G (Some (PagePermissionViolation code)) c') Q"
  shows "simk K (try_then (ctx_prot_slice_check e s a k bm) f)
    (Option.bind (rt_prot_slice_check (core_runtime e) c a k bm)
      (\<lambda>((x, err), c1). if err = None then F err c1 else G err c1)) Q"
proof -
  have eq: "(\<lambda>((x, err), c1). if err = None then F err c1 else G err c1) =
      (\<lambda>((x, err), c1). if err \<noteq> None then G err c1 else F None c1)"
    by auto
  show ?thesis
    unfolding eq using assms by (rule simk_check)
qed

definition same_result :: "Interrupt + 'a \<Rightarrow> TrapError + 'a \<Rightarrow> bool" where
  "same_result r r' \<longleftrightarrow> (case r of
      Inl i \<Rightarrow> r' = Inl (PagePermissionViolation (trap_code i))
    | Inr v \<Rightarrow> r' = Inr v)"

definition replayed :: "replay \<Rightarrow> u64 \<times> u64 \<Rightarrow> u64 \<times> u64 \<Rightarrow>
    (Interrupt + 'a) \<Rightarrow> MinimalExecutor \<Rightarrow> (TrapError + 'a) \<Rightarrow> CoreVM \<Rightarrow> bool" where
  "replayed K n n' r s r' c \<longleftrightarrow> same_result r r' \<and> agrees K n n' s c"

lemma simk_ok: "agrees K n n' s c \<Longrightarrow> simk K (Some (Inr None, s)) (trap_result None c) (replayed K n n')"
  by (simp add: simr_def trap_result_def replayed_def same_result_def)

lemma simk_trap:
  "agrees K n n' s c \<Longrightarrow> simk K (Some (Inl (Interrupt code), s))
    (if Some (PagePermissionViolation code) = None then k else trap_result (Some (PagePermissionViolation code)) c)
    (replayed K n n')"
  by (simp add: simr_def trap_result_def replayed_def same_result_def)

lemma simk_trap':
  "agrees K n n' s c \<Longrightarrow> simk K (Some (Inl (Interrupt code), s))
    (trap_result (Some (PagePermissionViolation code)) c) (replayed K n n')"
  by (simp add: simr_def trap_result_def replayed_def same_result_def)

lemma check_then_bind:
  "Option.bind (check_then m k) (\<lambda>(is_trap, r). f is_trap r) =
   Option.bind m (\<lambda>((x, err), r). if err \<noteq> None then f err r else Option.bind (k r) (\<lambda>(is_trap, r). f is_trap r))"
  by (cases m) (auto simp: check_then_def)

lemma no_trap_bind: "Option.bind (no_trap r) (\<lambda>(is_trap, r). f is_trap r) = f None r"
  by (simp add: no_trap_def)

lemmas slice_check_defs = read_slice_check_def write_slice_check_def read_write_slice_check_def
  rt_read_slice_check_def rt_write_slice_check_def rt_read_write_slice_check_def

lemmas simk_rules = simk_ok simk_trap simk_trap' simk_mr simk_mw simk_mr_slice_unsafe
  simk_mr_slice simk_mw_slice simk_check simk_check'

lemmas simr_rules = simr_assert simr_assert_right simr_refl_if simr_pure_left

lemma curve_words_pos: "0 < curve_words C" "even (curve_words C)"
  by (cases C; simp)+

lemma field_words_pos: "0 < WordsFieldElement P" "0 < WordsCurvePoint P"
  by (cases P; simp add: WordsFieldElement_def WordsCurvePoint_def)+

lemmas precompile_defs = minimal_ec_add_def minimal_ec_double_def minimal_edwards_decompress_def
  minimal_keccak_permute_def minimal_poseidon2_def minimal_fp_op_def minimal_fp2_addsub_def
  minimal_fp2_mul_def minimal_uint256_mul_def

lemmas core_precompile_defs = weierstrass_add_def trap_weierstrass_add_def weierstrass_double_def
  edwards_add_def trap_edwards_add_def edwards_decompress_def trap_edwards_decompress_def
  keccak256_permute_def trap_keccak256_permute_def vm_poseidon2_def vm_fp_op_def trap_fp_op_def
  vm_fp2_add_def trap_fp2_add_def vm_fp2_mul_def trap_fp2_mul_def vm_uint256_mul_def trap_uint256_mul_def

lemma sim_precompiles:
  fixes E :: externs
  assumes "agrees K n n' s c"
  defines "e \<equiv> abi E" and "R \<equiv> core_runtime (abi E)"
  shows "simk K (minimal_ec_add E C s a b) (weierstrass_add e R C c a b) (replayed K n n')"
    "simk K (minimal_ec_double E C s a b) (weierstrass_double e R C c a b) (replayed K n n')"
    "simk K (minimal_ec_add E Ed25519 s a b) (edwards_add e R c a b) (replayed K n n')"
    "simk K (minimal_edwards_decompress E s a b) (edwards_decompress e R c a b) (replayed K n n')"
    "simk K (minimal_keccak_permute E s a b) (keccak256_permute e R c a b) (replayed K n n')"
    "b = 0 \<Longrightarrow> simk K (minimal_poseidon2 E s a b) (vm_poseidon2 e R c a b) (replayed K n n')"
    "simk K (minimal_fp_op E P s a b op) (vm_fp_op e R P c a b) (replayed K n n')"
    "simk K (minimal_fp2_addsub E P s a b op) (vm_fp2_add e R P c a b) (replayed K n n')"
    "simk K (minimal_fp2_mul E P s a b) (vm_fp2_mul e R P c a b) (replayed K n n')"
    "simk K (minimal_uint256_mul E s a b) (vm_uint256_mul e R c a b) (replayed K n n')"
  unfolding precompile_defs core_precompile_defs e_def R_def Let_def slice_check_defs check_then_bind no_trap_bind
  by (rule simk_rules [of K n n'] simr_rules reads.op_steps reads.step_rules
      | simp add: assms(1) curve_words_pos field_words_pos length_to_words_le length_fp_results
          length_bytes_to_words_le same_frame_def bump_memory_clk_def)+

subsection \<open>Registers\<close>

lemma core_rr_value [simp]:
  "rd_value (fst (core_rr c r p)) = mr_value (c_registers c (reg_idx r))"
  "mr_value (c_registers (snd (core_rr c r p)) i) = mr_value (c_registers c i)"
  by (simp_all add: core_rr_def Let_def)

lemma agrees_core_rr [simp]: "agrees K n n' s (snd (core_rr c r p)) = agrees K n n' s c"
proof -
  have "c_mem_reads (snd (core_rr c r p)) = c_mem_reads c" "c_pc (snd (core_rr c r p)) = c_pc c"
    "c_program (snd (core_rr c r p)) = c_program c" "c_mode (snd (core_rr c r p)) = c_mode c"
    "c_exit_code (snd (core_rr c r p)) = c_exit_code c"
    "c_public_value_digest (snd (core_rr c r p)) = c_public_value_digest c"
    "c_decoded_instruction_cache (snd (core_rr c r p)) = c_decoded_instruction_cache c"
    "c_next_pc (snd (core_rr c r p)) = c_next_pc c" "c_next_clk (snd (core_rr c r p)) = c_next_clk c"
    "c_clk_end (snd (core_rr c r p)) = c_clk_end c"
    by (simp_all add: core_rr_def Let_def)
  then show ?thesis
    by (simp add: agrees_def)
qed

lemma agrees_register:
  assumes "agrees K n n' s c" "r \<noteq> X0"
  shows "mr_value (c_registers c (reg_idx r)) = ctx_rr s r"
proof -
  from assms(2) have "reg_idx r \<in> {1..<32}"
    using reg_idx_less [of r] by (simp add: Suc_le_eq flip: reg_idx_eq_0)
  with assms(1) show ?thesis
    unfolding agrees_def ctx_rr_def by blast
qed

lemma simk_rr:
  assumes "agrees K n n' s c" "from_u8 (of_nat i) = Some r" "r \<noteq> X0"
    "\<And>rec c'. rd_value rec = ctx_rr s r \<Longrightarrow> agrees K n n' s c' \<Longrightarrow> simk K m (g rec c') Q"
  shows "simk K m (Option.bind (rt_rr (core_runtime e) c i) (\<lambda>(r, c). g r c)) Q"
proof -
  have "simk K m (g (fst (core_rr c r UntrustedInstruction)) (snd (core_rr c r UntrustedInstruction))) Q"
    using assms(1,3) by (intro assms(4)) (simp_all add: agrees_register)
  then show ?thesis
    using assms(2) by (simp add: core_rt_rr_def case_prod_unfold)
qed

subsection \<open>The remaining precompiles\<close>

lemma sim_sha_extend_loop:
  assumes "agrees K n n' s c"
  shows "simk K (sha_extend_loop s w is) (Option.bind (vm_sha_extend_loop (core_runtime e) c w is) (\<lambda>c. Some ((), c)))
    (\<lambda>_ t _ c'. agrees K n n' t c')"
  using assms
proof (induction "is" arbitrary: s c)
  case Nil
  then show ?case by (simp add: simr_def)
next
  case (Cons i "is")
  have *: "Option.bind (Option.bind m (\<lambda>(x, c). f x c)) g = Option.bind m (\<lambda>(x, c). Option.bind (f x c) g)" for m f g
    by (cases m) auto
  show ?case
    unfolding sha_extend_loop.simps vm_sha_extend_loop.simps Let_def *
    by (rule simk_rules [of K n n'] Cons.IH reads.loop_steps reads.op_steps reads.step_rules
        | simp add: Cons.prems same_frame_def bump_memory_clk_def)+
qed

lemma simk_sha_extend_loop:
  assumes "agrees K n n' s c" "\<And>v t. grows t (f v t)"
    "\<And>v t c'. agrees K n n' t c' \<Longrightarrow> simk K (f v t) (g c') Q"
  shows "simk K (Option.bind (sha_extend_loop s w is) (\<lambda>(v, t). f v t))
    (Option.bind (vm_sha_extend_loop (core_runtime e) c w is) g) Q"
proof -
  have "simk K (Option.bind (sha_extend_loop s w is) (\<lambda>(v, t). f v t))
      (Option.bind (Option.bind (vm_sha_extend_loop (core_runtime e) c w is) (\<lambda>c. Some ((), c))) (\<lambda>(_, c). g c)) Q"
    by (rule simr_bind [OF sim_sha_extend_loop [OF assms(1)]]) (auto simp: assms)
  then show ?thesis
    by simp
qed

lemma sim_sha256_extend:
  assumes "agrees K n n' s c" "is_multiple_of w 8"
  shows "simk K (minimal_sha256_extend E s w b) (vm_sha256_extend (abi E) (core_runtime (abi E)) c w b) (replayed K n n')"
proof -
  have range: "rt_page_prot_range_check R r (drop_bit LOG_PAGE_SIZE w) (drop_bit LOG_PAGE_SIZE (w + 15 * 8)) bm =
      rt_prot_slice_check R r w 16 bm"
    "rt_page_prot_range_check R r (drop_bit LOG_PAGE_SIZE (w + 16 * 8)) (drop_bit LOG_PAGE_SIZE (w + 63 * 8)) bm =
      rt_prot_slice_check R r (w + 16 * 8) 48 bm" for R :: "CoreVM SyscallRuntime" and r bm
    by (simp_all add: rt_prot_slice_check_def Let_def add.commute)
  show ?thesis
    unfolding minimal_sha256_extend_def vm_sha256_extend_def trap_sha256_extend_def range Let_def
      check_then_bind no_trap_bind
    by (rule assms(2) simk_rules [of K n n'] simk_sha_extend_loop [of K n n'] simr_rules reads.loop_steps
        reads.op_steps reads.step_rules
        | simp add: assms same_frame_def bump_memory_clk_def del: upt_rec_numeral)+
qed

lemma agrees_compress_loop:
  assumes "agrees K n n' s c" "sha_compress_loop s w v is = Some (v', t)" "prefix (trace_reads t) (chunk_reads K)"
  obtains ws rest where "length ws = length is" "c_mem_reads c = ws @ rest"
    "agrees K n n' t (c\<lparr>c_mem_reads := rest\<rparr>)"
  using assms
proof (induction "is" arbitrary: s c v thesis)
  case Nil
  from Nil.prems(1) [of "[]" "c_mem_reads c"] Nil.prems(2-) show ?case by simp
next
  case (Cons i "is")
  from Cons.prems(3) obtain x s1 v1 where s1: "ctx_mr_without_prot s (w + of_nat i * 8) = Some (x, s1)"
    "sha_compress_loop s1 w v1 is = Some (v', t)"
    by (auto split: Option.bind_splits)
  have "prefix (trace_reads s1) (chunk_reads K)"
    using reads.sha_compress_loop_steps [of s1 w v1 "is"] s1(2) Cons.prems(4)
    by (auto simp: steps_def intro: prefix_order.trans)
  with sim_mr [OF Cons.prems(2)] s1(1) obtain r c1 where
    c1: "core_mr_without_prot c 0 = Some (r, c1)" "agrees K n n' s1 c1"
    unfolding simr_def by blast
  from c1(1) obtain y ws where c: "c_mem_reads c = y # ws" "c1 = c\<lparr>c_mem_reads := ws\<rparr>"
    by (auto simp: core_mr_without_prot_def next_read_def split: Option.bind_splits list.splits)
  from Cons.IH [OF _ c1(2) s1(2) Cons.prems(4)] c obtain us rest where "length us = length is"
    "ws = us @ rest" "agrees K n n' t (c\<lparr>c_mem_reads := rest\<rparr>)"
    by auto
  with c show ?case
    using Cons.prems(1) [of "y # us" rest] by simp
qed

lemma sim_compress_loop:
  assumes "agrees K n n' s c" "length is = k"
  shows "simk K (sha_compress_loop s w v is) (Some (core_mr_slice_without_prot c a k)) (\<lambda>_ t _ c'. agrees K n n' t c')"
  unfolding simr_def
proof (intro allI impI)
  fix v' t
  assume "sha_compress_loop s w v is = Some (v', t)" "prefix (trace_reads t) (chunk_reads K)"
  from agrees_compress_loop [OF assms(1) this] obtain ws rest where "length ws = length is"
    "c_mem_reads c = ws @ rest" "agrees K n n' t (c\<lparr>c_mem_reads := rest\<rparr>)" .
  with assms(2) show "\<exists>r' c'. Some (core_mr_slice_without_prot c a k) = Some (r', c') \<and> agrees K n n' t c'"
    by (simp add: core_mr_slice_without_prot_def take_reads_def)
qed

lemma simk_compress_loop:
  assumes "agrees K n n' s c" "length is = k" "\<And>v t. grows t (f v t)"
    "\<And>v t r c'. agrees K n n' t c' \<Longrightarrow> simk K (f v t) (g r c') Q"
  shows "simk K (Option.bind (sha_compress_loop s w x is) (\<lambda>(v, t). f v t))
    (case rt_mr_slice_without_prot (core_runtime e) c a k of (r, c) \<Rightarrow> g r c) Q"
  unfolding core_runtime_simps
  by (rule simr_bind_let [OF sim_compress_loop [OF assms(1,2)]]) (auto simp: assms)

lemma sim_sha256_compress:
  assumes "agrees K n n' s c"
  shows "simk K (minimal_sha256_compress E s w h) (vm_sha256_compress (abi E) (core_runtime (abi E)) c w h) (replayed K n n')"
  unfolding minimal_sha256_compress_def vm_sha256_compress_def trap_sha256_compress_def Let_def
    slice_check_defs check_then_bind no_trap_bind
  by (rule simk_rules [of K n n'] simk_compress_loop [of K n n'] simr_rules reads.loop_steps
      reads.op_steps reads.step_rules
      | simp add: assms same_frame_def bump_memory_clk_def del: upt_rec_numeral)+

lemma from_u8_args:
  "from_u8 (of_nat 12) = Some X12" "from_u8 (of_nat 13) = Some X13" "from_u8 (of_nat 14) = Some X14"
  by (simp_all add: from_u8_eq_Some)

lemmas simk_rr_args = simk_rr [OF _ from_u8_args(1)] simk_rr [OF _ from_u8_args(2)] simk_rr [OF _ from_u8_args(3)]

lemma sim_uint256_ops:
  assumes "agrees K n n' s c" "from_u32 (ucast (ctx_rr s X5)) = Some code"
  shows "simk K (minimal_uint256_ops E s a b) (vm_uint256_ops (abi E) (core_runtime (abi E)) c code a b) (replayed K n n')"
  unfolding minimal_uint256_ops_def vm_uint256_ops_def trap_uint256_ops_def Let_def assms(2) bind.bind_lunit
    slice_check_defs check_then_bind no_trap_bind
  apply (rule simr_pure, rule simk_rr_args(1), rule assms(1), simp, simp only:)
  apply (rule simk_rr_args(2), assumption, simp, simp only:)
  apply (rule simk_rr_args(3), assumption, simp, simp only:)
  by (rule simk_rules [of K n n'] simr_rules reads.op_steps reads.step_rules
      | simp add: same_frame_def bump_memory_clk_def)+

end
