(* ===== verification/Replay_Syscalls.thy ===== *)
theory Replay_Syscalls
  imports Replay_Rules
begin

text \<open>
  The system calls under replay: page permissions, signals, hints, commitments and the calls that
  only concern the host, and the dispatch over all of them. The lemma \<open>sim_dispatch\<close> covers every code
  but \<open>ENTER_UNCONSTRAINED\<close>.
\<close>

subsection \<open>Page permissions, signals and the host\<close>

lemma simk_ok_handled:
  assumes "simk K m k (\<lambda>r s v c. r = Inr v \<and> agrees K n n' s c)"
  shows "simk K m (ok_handled k) (replayed K n n')"
  using assms by (fastforce simp: simr_def ok_handled_def replayed_def same_result_def)

lemma page_addr: "is_multiple_of a (2 ^ 12) \<Longrightarrow> push_bit 12 (a div 2 ^ 12) = a" for a :: u64
proof -
  assume "is_multiple_of a (2 ^ 12)"
  then have "a mod 2 ^ 12 = 0"
    by (simp add: is_multiple_of_def)
  then show ?thesis
    using div_mult_mod_eq [of a "2 ^ 12"] by (simp add: push_bit_eq_mult)
qed

lemma sim_page_prot_write:
  assumes "agrees K n n' s c" "is_multiple_of a (2 ^ 12)"
  shows "simk K (ctx_page_prot_write e s a p) (core_page_prot_write c (a div 2 ^ 12) p)
    (\<lambda>_ t _ c'. agrees K n n' t c')"
proof -
  have prog: "c_program c = m_program s"
    using assms(1) by (simp add: agrees_def)
  have con: "trace_push_constrained (s\<lparr>m_page_prots := pp\<rparr>) v = trace_push (s\<lparr>m_page_prots := pp\<rparr>) v" for pp v
    using assms(1) by (simp add: agrees_def trace_push_constrained_def)
  show ?thesis
    unfolding ctx_page_prot_write_def core_page_prot_write_def Let_def page_addr [OF assms(2)] prog con
      case_prod_unfold
    by (rule simr_assert_left simr_pure simr_assert simr_push [of K n n'] reads.steps_frame
        | simp add: assms(1) same_frame_def simr_def)+
qed

lemma sim_mprotect:
  assumes "agrees K n n' s c"
  shows "simk K (minimal_mprotect E s a b) (ok_handled (vm_mprotect (abi E) (core_runtime (abi E)) c a b)) (replayed K n n')"
proof (rule simk_ok_handled)
  show "simk K (minimal_mprotect E s a b) (vm_mprotect (abi E) (core_runtime (abi E)) c a b)
      (\<lambda>r s v c. r = Inr v \<and> agrees K n n' s c)"
    unfolding minimal_mprotect_def vm_mprotect_def Let_def core_runtime_simps
    apply (rule simr_assert, rule simr_assert, rule simr_assert, rule simr_assert, rule simr_assert_left)
    apply (rule simr_bind [OF sim_page_prot_write [OF assms]])
    by (auto simp: steps_def simr_def)
qed

lemma agrees_rw:
  assumes "agrees K n n' s c"
  shows "agrees K n n' (ctx_rw s r v) (snd (core_rw c r v))"
  using assms by (auto simp: agrees_def ctx_rw_def core_rw_def Let_def)

lemma from_u8_nat: "i < 32 \<Longrightarrow> from_u8 (of_nat i) = Some (all_registers ! i)"
proof -
  assume "i < 32"
  then have "unat (of_nat i :: u8) = i"
    by (simp add: unat_of_nat take_bit_nat_eq_self)
  with \<open>i < 32\<close> show ?thesis
    by (simp add: from_u8_eq_Some)
qed

lemma agrees_write_registers:
  assumes "agrees K n n' s c" "i + length rs \<le> 31"
  shows "\<exists>c'. write_registers (core_runtime e) c i rs = Some c' \<and>
    agrees K n n' (foldl (\<lambda>s (r, v). ctx_rw s r v) s (zip (drop (Suc i) all_registers) (map rd_value rs))) c'"
  using assms
proof (induction rs arbitrary: s c i)
  case (Cons x rs)
  let ?r = "all_registers ! Suc i"
  have r: "from_u8 (of_nat (i + 1)) = Some ?r" "drop (Suc i) all_registers = ?r # drop (Suc (Suc i)) all_registers"
    using Cons.prems(2) from_u8_nat [of "Suc i"] by (simp_all add: Cons_nth_drop_Suc)
  with Cons.IH [OF agrees_rw [OF Cons.prems(1), of ?r "rd_value x"], of "Suc i"] Cons.prems(2) r show ?case
    by (simp add: core_rt_rw_def case_prod_unfold del: of_nat_add of_nat_Suc)
qed simp

text \<open>The result of a system call is the same, unless the memory limit was exceeded on the way: then the
  values read are dummies, and the executor stops with the error.\<close>

definition replayed_or_failed :: "replay \<Rightarrow> u64 \<times> u64 \<Rightarrow> u64 \<times> u64 \<Rightarrow>
    (Interrupt + 'a) \<Rightarrow> MinimalExecutor \<Rightarrow> (TrapError + 'a) \<Rightarrow> CoreVM \<Rightarrow> bool" where
  "replayed_or_failed K n n' r s r' c \<longleftrightarrow> last_error (m_memory s) = None \<longrightarrow> replayed K n n' r s r' c"

lemma simk_or_failed: "simk K m k (replayed K n n') \<Longrightarrow> simk K m k (replayed_or_failed K n n')"
  by (erule simr_weaken) (simp add: replayed_or_failed_def)

lemma sim_sig_return:
  assumes "agrees K n n' s c" "executor_inv s" "a mod 8 = 0" "b = 0"
  shows "simk K (minimal_sig_return s a b) (ok_handled (vm_sig_return (core_runtime e) c a b))
    (replayed_or_failed K n n')"
  unfolding simr_def
proof (intro allI impI)
  fix r t
  assume run: "minimal_sig_return s a b = Some (r, t)" and pre: "prefix (trace_reads t) (chunk_reads K)"
  from run obtain vs s1 where s1: "ctx_mr_slice_without_prot s (a + 8) 31 = Some (vs, s1)" "length vs = 31"
    "t = foldl (\<lambda>s (r, v). ctx_rw s r v) (bump_memory_clk s1) (zip (drop (Suc 0) all_registers) vs)"
    "r = Inr (Some (vs ! 4))"
    by (auto simp: minimal_sig_return_def Let_def split: Option.bind_splits)
  have frame: "same_frame s1 t"
    unfolding s1(3) by (rule reads.frame_bump_foldl_rw)
  with pre have "prefix (trace_reads s1) (chunk_reads K)"
    by (simp add: same_frame_def trace_reads_def)
  with sim_mr_slice [OF assms(1), of "a + 8" 31 "a + 8"] s1(1) obtain rs c1 where
    c1: "core_mr_slice_without_prot c (a + 8) 31 = (rs, c1)" "length rs = 31" "agrees K n n' s1 c1"
    "last_error (m_memory s1) = None \<longrightarrow> map rd_value rs = vs"
    using assms(2) by (auto simp: simr_def)
  have "agrees K n n' (bump_memory_clk s1) (increment_clk (core_runtime e) c1)"
    using c1(3) by simp
  from agrees_write_registers [OF this, of 0 rs e] c1(2) obtain c2 where
    c2: "write_registers (core_runtime e) (increment_clk (core_runtime e) c1) 0 rs = Some c2"
    "agrees K n n' (foldl (\<lambda>s (r, v). ctx_rw s r v) (bump_memory_clk s1)
      (zip (drop (Suc 0) all_registers) (map rd_value rs))) c2"
    by auto
  have core: "ok_handled (vm_sig_return (core_runtime e) c a b) = Some (Inr (Some (rd_value (rs ! 4))), c2)"
    using c1(1,2) c2(1) assms(3,4) by (simp add: ok_handled_def vm_sig_return_def Let_def)
  have "replayed_or_failed K n n' r t (Inr (Some (rd_value (rs ! 4)))) c2"
    using c1(2,4) c2(2) frame
    by (auto simp: replayed_or_failed_def replayed_def same_result_def s1(3,4) same_frame_def)
  with core show "\<exists>r' c'. ok_handled (vm_sig_return (core_runtime e) c a b) = Some (r', c') \<and>
      replayed_or_failed K n n' r t r' c'"
    by blast
qed

lemma sim_hint_len:
  assumes "agrees K n n' s c"
  shows "simk K (hint_len s a b) (ok_handled (Some (hint_len_syscall (core_runtime e) c))) (replayed K n n')"
proof -
  have *: "ok_handled (Some (hint_len_syscall (core_runtime e) c)) = (case next_read c of
      None \<Rightarrow> Some (Inr None, c) | Some (v, c1) \<Rightarrow> Some (Inr (Some (value v)), c1))"
    by (simp add: ok_handled_def hint_len_syscall_def core_runtime_def split: option.split prod.split)
  have "simk K (hint_len s a b) (Option.bind (next_read c) (\<lambda>(v, c1). Some (Inr (Some (value v)), c1))) (replayed K n n')"
    unfolding hint_len_def trace_value_def Let_def
    by (rule simr_push [OF assms]) (simp_all add: steps_def simr_def replayed_def same_result_def)
  then show ?thesis
    unfolding * by (cases "next_read c") (auto simp: simr_def)
qed

lemma sim_commit:
  assumes "agrees K n n' s c"
  shows "simk K (do { assert_that (unat b < 2 ^ 32); s1 \<leftarrow> set_public_value_digest_word s a (ucast b); Some (Inr None, s1) })
    (ok_handled (commit_syscall (core_runtime e) c a b)) (replayed K n n')"
  using assms
  by (auto simp: simr_def set_public_value_digest_word_def commit_syscall_def Let_def ok_handled_def
      core_runtime_def replayed_def same_result_def agrees_def split: Option.bind_splits)

text \<open>The calls that only concern the host: the core VM does nothing.\<close>

lemma simk_host:
  assumes "\<And>r t. m = Some (r, t) \<Longrightarrow> r = Inr None \<and> agrees K n n' t c"
  shows "simk K m (Some (Inr None, c)) (replayed K n n')"
  using assms by (auto simp: simr_def replayed_def same_result_def)

lemma agrees_write_hint_words:
  "write_hint_words s p ws = Some t \<Longrightarrow> agrees K n n' s c \<Longrightarrow> agrees K n n' t c"
proof (induction ws arbitrary: s p)
  case (Cons w ws)
  then obtain mem where "write_hint_words (s\<lparr>m_memory := mem\<rparr>) (p + 8) ws = Some t"
    by (auto simp: mw_hint_def split: Option.bind_splits)
  from Cons.IH [OF this] Cons.prems(2) show ?case
    by simp
qed simp

lemma sim_host:
  assumes "agrees K n n' s c"
  shows "simk K (minimal_write E s a b) (Some (Inr None, c)) (replayed K n n')"
    "simk K (hint_read s a b) (Some (Inr None, c)) (replayed K n n')"
    "simk K (insert_profile_symbols E s a b) (Some (Inr None, c)) (replayed K n n')"
    "simk K (delete_profile_symbols E s a b) (Some (Inr None, c)) (replayed K n n')"
    "simk K (minimal_mprotect_flush s a b) (Some (Inr None, c)) (replayed K n n')"
    "simk K (Option.bind (dump_elf E s) (\<lambda>mem. Some (Inr None, s\<lparr>m_memory := mem\<rparr>))) (Some (Inr None, c)) (replayed K n n')"
    "simk K (Some (Inr None, s)) (Some (Inr None, c)) (replayed K n n')"
    "simk K (Some (Inr None, s)) (ok_handled (Some (commit_deferred_proofs_syscall c))) (replayed K n n')"
    unfolding ok_handled_def commit_deferred_proofs_syscall_def bind.bind_lunit prod.case
  by (rule simk_host;
      auto simp: assms minimal_write_def hint_read_def insert_profile_symbols_def delete_profile_symbols_def
        minimal_mprotect_flush_def profiler_data_def ctx_mr_slice_no_trace_def Let_def mw_hint_def
      split: Option.bind_splits list.splits if_splits dest!: agrees_write_hint_words)+

subsection \<open>Dispatch\<close>

text \<open>The arguments for which the core VM has an assertion that the minimal executor lacks.\<close>

definition arguments_ok :: "SyscallCode \<Rightarrow> u64 \<Rightarrow> u64 \<Rightarrow> bool" where
  "arguments_ok code a b \<longleftrightarrow>
    (code = POSEIDON2 \<longrightarrow> b = 0) \<and> (code = SHA_EXTEND \<longrightarrow> is_multiple_of a 8) \<and>
    (code = SIG_RETURN \<longrightarrow> a mod 8 = 0 \<and> b = 0)"

text \<open>The core VM sets the next program counter of \<open>HALT\<close> in the handler, the minimal executor after it.\<close>

definition after_handler :: "SyscallCode \<Rightarrow> u64 \<times> u64 \<Rightarrow> u64 \<times> u64" where
  "after_handler code n' = (if code = HALT then (HALT_PC, snd n') else n')"

lemma sim_dispatch:
  assumes "agrees K n n' s c" "executor_inv s" "from_u32 (ucast (ctx_rr s X5)) = Some code"
    "code \<noteq> ENTER_UNCONSTRAINED" "arguments_ok code a b"
  shows "simk K (ecall_dispatch E s code a b) (vm_dispatch (abi E) (core_runtime (abi E)) c code a b)
    (replayed_or_failed K n (after_handler code n'))"
proof -
  have exit: "exit_unconstrained s = None"
    using assms(1) by (simp add: agrees_def exit_unconstrained_def)
  note sims = sim_precompiles [OF assms(1)] sim_sha256_extend [OF assms(1)] sim_sha256_compress [OF assms(1)]
    sim_uint256_ops [OF assms(1)] sim_mprotect [OF assms(1)] sim_hint_len [OF assms(1)] sim_commit [OF assms(1)]
    sim_host [OF assms(1)]
  show ?thesis
  proof (cases code)
    case HALT
    with assms(1) show ?thesis
      by (auto simp: ecall_dispatch_def vm_dispatch_def simr_def replayed_or_failed_def replayed_def
          same_result_def after_handler_def ok_handled_def halt_syscall_def agrees_def)
  next
    case SIG_RETURN
    with sim_sig_return [OF assms(1,2)] assms(5) show ?thesis
      by (simp add: ecall_dispatch_def vm_dispatch_def after_handler_def arguments_ok_def)
  qed (simp only: ecall_dispatch_def vm_dispatch_def SyscallCode.case after_handler_def SyscallCode.distinct
        if_False; (rule simk_or_failed)?;
      (rule sims simr_None simr_pure_left | insert assms(3-5), simp add: exit arguments_ok_def simr_None; fail)+)+
qed

subsection \<open>A trapped system call leaves the registers alone\<close>

definition trap_keeps :: "MinimalExecutor \<Rightarrow> 'a checked \<Rightarrow> bool" where
  "trap_keeps s m \<longleftrightarrow> (\<forall>i t. m = Some (Inl i, t) \<longrightarrow> m_registers t = m_registers s)"

lemma trap_keeps_Inr: "trap_keeps s (Some (Inr x, t))"
  by (simp add: trap_keeps_def)

lemma trap_keeps_None: "trap_keeps s None"
  by (simp add: trap_keeps_def)

lemma trap_keeps_bind: "(\<And>x. trap_keeps s (f x)) \<Longrightarrow> trap_keeps s (Option.bind m f)"
  by (cases m) (simp_all add: trap_keeps_def)

lemma trap_keeps_case_prod: "(\<And>x y. trap_keeps s (f x y)) \<Longrightarrow> trap_keeps s (case p of (x, y) \<Rightarrow> f x y)"
  by (cases p) simp

lemma trap_keeps_case_option:
  "trap_keeps s m \<Longrightarrow> (\<And>x. trap_keeps s (f x)) \<Longrightarrow> trap_keeps s (case v of None \<Rightarrow> m | Some x \<Rightarrow> f x)"
  by (cases v) simp_all

lemma trap_keeps_case_list:
  "trap_keeps s m \<Longrightarrow> (\<And>x xs. trap_keeps s (f x xs)) \<Longrightarrow> trap_keeps s (case v of [] \<Rightarrow> m | x # xs \<Rightarrow> f x xs)"
  by (cases v) simp_all

lemma trap_keeps_if: "trap_keeps s m \<Longrightarrow> trap_keeps s k \<Longrightarrow> trap_keeps s (if b then m else k)"
  by simp

lemma check_pages_registers: "check_pages e bm s ps = Some (r, t) \<Longrightarrow> m_registers t = m_registers s"
proof (induction ps arbitrary: s)
  case (Cons i ps)
  have "m_registers s1 = m_registers s" if "trace_push_constrained s v = Some s1" for v s1
    using that by (auto simp: trace_push_constrained_def trace_push_def split: if_splits option.splits Option.bind_splits)
  with Cons show ?case
    by (auto simp: Let_def split: Option.bind_splits option.splits)
qed simp

lemma slice_check_registers:
  "ctx_prot_slice_check e s a n bm = Some (r, t) \<Longrightarrow> m_registers t = m_registers s"
  by (auto simp: ctx_prot_slice_check_def Let_def dest: check_pages_registers split: if_splits)

lemma trap_keeps_check:
  assumes "\<And>t. m_registers t = m_registers s0 \<Longrightarrow> trap_keeps s (f () t)" "m_registers s0 = m_registers s"
  shows "trap_keeps s (try_then (ctx_prot_slice_check e s0 a n bm) f)"
  unfolding trap_keeps_def try_then_def
proof (intro allI impI)
  fix i t
  assume "Option.bind (ctx_prot_slice_check e s0 a n bm) (\<lambda>(r, s). case r of Inl i \<Rightarrow> Some (Inl i, s) | Inr x \<Rightarrow> f x s) = Some (Inl i, t)"
  then obtain r s1 where 1: "ctx_prot_slice_check e s0 a n bm = Some (r, s1)"
    "(case r of Inl i \<Rightarrow> Some (Inl i, s1) | Inr x \<Rightarrow> f x s1) = Some (Inl i, t)"
    by (auto split: Option.bind_splits)
  note regs = slice_check_registers [OF 1(1)]
  show "m_registers t = m_registers s"
  proof (cases r)
    case (Inl j)
    with 1(2) regs assms(2) show ?thesis by simp
  next
    case (Inr u)
    with 1(2) assms(1) [OF regs] show ?thesis by (simp add: trap_keeps_def)
  qed
qed

lemmas trap_keeps_rules = trap_keeps_Inr trap_keeps_None trap_keeps_check trap_keeps_bind trap_keeps_case_prod
  trap_keeps_case_option trap_keeps_case_list trap_keeps_if

lemma trap_keeps_precompiles:
  "trap_keeps s (minimal_ec_add E C s a b)" "trap_keeps s (minimal_ec_double E C s a b)"
  "trap_keeps s (minimal_edwards_decompress E s a b)" "trap_keeps s (minimal_keccak_permute E s a b)"
  "trap_keeps s (minimal_poseidon2 E s a b)" "trap_keeps s (minimal_sha256_extend E s a b)"
  "trap_keeps s (minimal_sha256_compress E s a b)" "trap_keeps s (minimal_fp_op E P s a b op)"
  "trap_keeps s (minimal_fp2_addsub E P s a b op)" "trap_keeps s (minimal_fp2_mul E P s a b)"
  "trap_keeps s (minimal_uint256_mul E s a b)" "trap_keeps s (minimal_uint256_ops E s a b)"
  unfolding precompile_defs minimal_sha256_extend_def minimal_sha256_compress_def minimal_uint256_ops_def
    slice_check_defs Let_def
  by (rule trap_keeps_rules | simp add: bump_memory_clk_def)+

lemma trap_keeps_others:
  "trap_keeps s (minimal_mprotect E s a b)" "trap_keeps s (minimal_mprotect_flush s a b)"
  "trap_keeps s (minimal_sig_return s a b)" "trap_keeps s (hint_len s a b)" "trap_keeps s (hint_read s a b)"
  "trap_keeps s (minimal_write E s a b)" "trap_keeps s (insert_profile_symbols E s a b)"
  "trap_keeps s (delete_profile_symbols E s a b)"
  unfolding minimal_mprotect_def minimal_mprotect_flush_def minimal_sig_return_def hint_len_def hint_read_def
    minimal_write_def insert_profile_symbols_def delete_profile_symbols_def Let_def
  by (rule trap_keeps_rules)+

lemma trap_keeps_dispatch: "trap_keeps s (ecall_dispatch E s code a b)"
  by (cases code; simp only: ecall_dispatch_def SyscallCode.case;
      (rule trap_keeps_precompiles trap_keeps_others trap_keeps_rules)+)

end
