(* ===== verification/Core_Step.thy ===== *)
theory Core_Step
  imports Core_Syscall
begin

text \<open>
  What the machines built around a core VM do with one instruction, seen on the core VM alone: the
  common core of \<open>execute_instruction\<close> of \<open>splicing.rs\<close>, \<open>estimating.rs\<close> and \<open>tracing.rs\<close>. Those functions
  add to it what each machine observes. For the splicing VM, which is modelled in full, the theory
  \<open>Splicing_VM\<close> shows that it does to its core VM exactly what \<open>core_step\<close> does.
\<close>

subsection \<open>Dispatch on the opcode\<close>

text \<open>The \<open>match &instruction.opcode\<close> of the machines, with one argument for each group of arms.\<close>

definition match_opcode :: "Opcode \<Rightarrow> 'a \<Rightarrow> 'a \<Rightarrow> 'a \<Rightarrow> 'a \<Rightarrow> 'a \<Rightarrow> 'a \<Rightarrow> 'a \<Rightarrow> 'a \<Rightarrow> 'a" where
  "match_opcode op alu load store jump branch utype ecall invalid = (case op of
      ADD \<Rightarrow> alu | ADDI \<Rightarrow> alu | SUB \<Rightarrow> alu | XOR_op \<Rightarrow> alu | OR_op \<Rightarrow> alu | AND_op \<Rightarrow> alu | SLL \<Rightarrow> alu
    | SLLW \<Rightarrow> alu | SRL \<Rightarrow> alu | SRA \<Rightarrow> alu | SRLW \<Rightarrow> alu | SRAW \<Rightarrow> alu | SLT \<Rightarrow> alu | SLTU \<Rightarrow> alu
    | MUL \<Rightarrow> alu | MULHU \<Rightarrow> alu | MULHSU \<Rightarrow> alu | MULH \<Rightarrow> alu | MULW \<Rightarrow> alu | DIVU \<Rightarrow> alu
    | REMU \<Rightarrow> alu | DIV \<Rightarrow> alu | REM \<Rightarrow> alu | DIVW \<Rightarrow> alu | ADDW \<Rightarrow> alu | SUBW \<Rightarrow> alu | DIVUW \<Rightarrow> alu
    | REMUW \<Rightarrow> alu | REMW \<Rightarrow> alu
    | LB \<Rightarrow> load | LBU \<Rightarrow> load | LH \<Rightarrow> load | LHU \<Rightarrow> load | LW \<Rightarrow> load | LWU \<Rightarrow> load | LD \<Rightarrow> load
    | SB \<Rightarrow> store | SH \<Rightarrow> store | SW \<Rightarrow> store | SD \<Rightarrow> store
    | JAL \<Rightarrow> jump | JALR \<Rightarrow> jump
    | BEQ \<Rightarrow> branch | BNE \<Rightarrow> branch | BLT \<Rightarrow> branch | BGE \<Rightarrow> branch | BLTU \<Rightarrow> branch | BGEU \<Rightarrow> branch
    | LUI \<Rightarrow> utype | AUIPC \<Rightarrow> utype
    | ECALL \<Rightarrow> ecall
    | EBREAK \<Rightarrow> invalid | UNIMP \<Rightarrow> invalid)"

lemma match_opcode_cases:
  "match_opcode (opcode i) alu load store jump branch utype ecall invalid =
    (if is_alu_instruction i then alu
     else if is_memory_load_instruction i then load
     else if is_memory_store_instruction i then store
     else if is_branch_instruction i then branch
     else if is_jump_instruction i then jump
     else if is_utype_instruction i then utype
     else if is_ecall_instruction i then ecall
     else invalid)"
  by (cases "opcode i") (simp_all add: match_opcode_def is_instruction_defs)

subsection \<open>One instruction\<close>

text \<open>A step that returns a result which only the observer uses.\<close>

definition core_only :: "('a \<times> CoreVM) option \<Rightarrow> (ExecutionError, CoreVM) outcome" where
  "core_only m = and_then (unwrap m) (\<lambda>(_, c). Ok c)"

definition core_trap :: "CoreVM \<Rightarrow> TrapError option \<Rightarrow> (ExecutionError, CoreVM) outcome" where
  "core_trap c err = (case err of
      Some e \<Rightarrow> and_then (core_handle_error c e) (\<lambda>(_, c1). Ok c1)
    | None \<Rightarrow> Ok c)"

definition core_ecall :: "elf_abi \<Rightarrow> CoreVM \<Rightarrow> Instruction \<Rightarrow> (ExecutionError, CoreVM) outcome" where
  "core_ecall e c instruction =
    and_then (unwrap (core_execute_ecall e (core_runtime e) c instruction)) (\<lambda>(result, c1).
      core_trap c1 (ec_error result))"

definition core_instruction_supervisor ::
    "elf_abi \<Rightarrow> CoreVM \<Rightarrow> Instruction \<Rightarrow> (ExecutionError, CoreVM) outcome" where
  "core_instruction_supervisor e c instruction = match_opcode (opcode instruction)
     (core_only (core_execute_alu c instruction))
     (and_then (core_execute_load_supervisor c instruction) (\<lambda>(_, c1). Ok c1))
     (and_then (core_execute_store_supervisor c instruction) (\<lambda>(_, c1). Ok c1))
     (core_only (core_execute_jump c instruction))
     (core_only (core_execute_branch c instruction))
     (core_only (core_execute_utype c instruction))
     (core_ecall e c instruction)
     Panic"

definition core_instruction_user ::
    "elf_abi \<Rightarrow> CoreVM \<Rightarrow> Instruction \<Rightarrow> (ExecutionError, CoreVM) outcome" where
  "core_instruction_user e c instruction = match_opcode (opcode instruction)
     (core_only (core_execute_alu c instruction))
     (and_then (core_execute_load_user e c instruction) (\<lambda>(r, c1). core_trap c1 (ld_error r)))
     (and_then (core_execute_store_user e c instruction) (\<lambda>(r, c1). core_trap c1 (st_error r)))
     (core_only (core_execute_jump c instruction))
     (core_only (core_execute_branch c instruction))
     (core_only (core_execute_utype c instruction))
     (core_ecall e c instruction)
     Panic"

definition core_step ::
    "elf_abi \<Rightarrow> (u32 \<Rightarrow> Instruction option) \<Rightarrow> CoreVM \<Rightarrow> (ExecutionError, CycleResult \<times> CoreVM) outcome" where
  "core_step e decode c = (case c_mode c of
      SupervisorMode \<Rightarrow>
        and_then (unwrap (core_fetch_supervisor c)) (\<lambda>instruction.
        and_then (core_instruction_supervisor e c instruction) (\<lambda>c1. Ok (advance c1)))
    | UserMode \<Rightarrow>
        and_then (core_fetch_user e decode c) (\<lambda>(f, c1).
        (case fetch_error f of
          Some err \<Rightarrow> and_then (core_handle_error c1 err) (\<lambda>(_, c2). Ok (advance c2))
        | None \<Rightarrow>
            and_then (unwrap (fetch_instruction f)) (\<lambda>instruction.
            and_then (core_instruction_user e c1 instruction) (\<lambda>c2. Ok (advance c2))))))"

text \<open>The loop of \<open>execute\<close>, until the chunk or the program ends. \<open>fuel\<close> bounds the number of
  iterations; the outer \<open>None\<close> means that it has run out.\<close>

fun core_loop :: "elf_abi \<Rightarrow> (u32 \<Rightarrow> Instruction option) \<Rightarrow> nat \<Rightarrow> CoreVM \<Rightarrow>
    (ExecutionError, CycleResult \<times> CoreVM) outcome option" where
  "core_loop e decode 0 c = None"
| "core_loop e decode (Suc fuel) c = (case core_step e decode c of
      Panic \<Rightarrow> Some Panic
    | Err err \<Rightarrow> Some (Err err)
    | Ok (result, c1) \<Rightarrow>
        if result = Done False then core_loop e decode fuel c1 else Some (Ok (result, c1)))"

lemma core_loop_more_fuel: "core_loop e decode fuel c = Some r \<Longrightarrow> core_loop e decode (fuel + k) c = Some r"
proof (induction fuel arbitrary: c)
  case (Suc fuel)
  then show ?case by (auto split: outcome.splits if_splits)
qed simp

end
