(* ===== verification/Replay_Instructions.thy ===== *)
theory Replay_Instructions
  imports Replay_Syscalls Core_Step
begin

text \<open>
  The instructions under replay, but for the system calls: \<open>simi\<close> relates an instruction of the
  minimal executor to what \<open>core_step\<close> does for it, in both modes, including the fetch of untrusted
  instructions and the traps of user mode.
\<close>

subsection \<open>Results of the core VM\<close>

definition ok_of :: "('e, 'a) outcome \<Rightarrow> 'a option" where
  "ok_of r = (case r of Ok x \<Rightarrow> Some x | _ \<Rightarrow> None)"

lemma ok_of_simps [simp]:
  "ok_of (Ok x) = Some x" "ok_of Panic = None" "ok_of (Err e) = None"
  "ok_of (unwrap m) = m" "ok_of (and_then r f) = Option.bind (ok_of r) (\<lambda>x. ok_of (f x))"
  by (simp_all add: ok_of_def, (cases m; simp), (cases r; simp))

lemma ok_of_Some [simp]: "ok_of r = Some x \<longleftrightarrow> r = Ok x"
  by (cases r) (simp_all add: ok_of_def)

text \<open>Instructions of the minimal executor return only a state, and so does \<open>core_step\<close>.\<close>

definition with_unit :: "'s option \<Rightarrow> (unit \<times> 's) option" where
  "with_unit m = map_option (Pair ()) m"

lemma with_unit_simps [simp]:
  "with_unit None = None" "with_unit (Some s) = Some ((), s)"
  "with_unit (Option.bind m f) = Option.bind m (\<lambda>x. with_unit (f x))"
  "with_unit (if b then m else m') = (if b then with_unit m else with_unit m')"
  "with_unit m = Some (u, s) \<longleftrightarrow> m = Some s"
  by (simp_all add: with_unit_def map_option_bind) (cases m; simp)

lemma with_unit_split: "with_unit (case p of (x, y) \<Rightarrow> f x y) = (case p of (x, y) \<Rightarrow> with_unit (f x y))"
  by (simp split: prod.split)

text \<open>An instruction of the two machines ends with the same next program counter.\<close>

abbreviation agrees_at :: "replay \<Rightarrow> u64 \<Rightarrow> MinimalExecutor \<Rightarrow> CoreVM \<Rightarrow> bool" where
  "agrees_at K t s c \<equiv> \<exists>p. agrees K (p, t) (p, t) s c"

definition simi :: "replay \<Rightarrow> u64 \<Rightarrow> MinimalExecutor option \<Rightarrow> (ExecutionError, CoreVM) outcome \<Rightarrow> bool" where
  "simi K t ms co \<longleftrightarrow> (\<forall>s. ms = Some s \<longrightarrow> prefix (trace_reads s) (chunk_reads K) \<longrightarrow>
     (\<exists>c. co = Ok c \<and> agrees_at K t s c))"

lemma simi_simk: "simi K t ms co" if "simk K (with_unit ms) (with_unit (ok_of co)) (\<lambda>_ s _ c. agrees_at K t s c)"
  using that by (simp add: simi_def simr_def)

subsection \<open>Registers\<close>

lemma agrees_all_registers:
  assumes "agrees K n n' s c" "m_registers s 0 = 0"
  shows "mr_value (c_registers c (reg_idx r)) = ctx_rr s r"
proof (cases "r = X0")
  case True
  with assms show ?thesis by (simp add: agrees_def ctx_rr_def)
qed (simp add: agrees_register [OF assms(1)])

lemma agrees_next_pc:
  "agrees K (p, t) (p', t') s c \<Longrightarrow> agrees K (q, t) (p', t') (s\<lparr>m_next_pc := q\<rparr>) c"
  "agrees K (p, t) (p', t') s c \<Longrightarrow> agrees K (p, t) (q, t') s (c\<lparr>c_next_pc := q\<rparr>)"
  "agrees K (p, t) (p', t') s c \<Longrightarrow> agrees K (p, q) (p', t') (s\<lparr>m_next_clk := q\<rparr>) c"
  "agrees K (p, t) (p', t') s c \<Longrightarrow> agrees K (p, t) (p', q) s (c\<lparr>c_next_clk := q\<rparr>)"
  by (simp_all add: agrees_def)

lemma core_rr_pc [simp]: "c_pc (snd (core_rr c r p)) = c_pc c" "c_pc (snd (core_rw c r v)) = c_pc c"
  "c_next_clk (snd (core_rr c r p)) = c_next_clk c" "c_next_clk (snd (core_rw c r v)) = c_next_clk c"
  by (simp_all add: core_rr_def core_rw_def Let_def)

lemma agrees_pc: "agrees K n n' s c \<Longrightarrow> c_pc c = m_pc s"
  by (simp add: agrees_def)

lemma from_u8_reg: "unat v < 32 \<Longrightarrow> from_u8 (ucast v) = Some (all_registers ! unat v)" for v :: u64
  by (simp add: from_u8_eq_Some unsigned_ucast_eq take_bit_eq_mod)

lemma from_u8_reg8: "unat v < 32 \<Longrightarrow> from_u8 v = Some (all_registers ! unat v)"
  by (simp add: from_u8_eq_Some)

subsection \<open>Instructions on registers\<close>

lemma simi_alu:
  assumes "agrees K (p, t) (p, t) s c" "m_registers s 0 = 0" "\<not> (imm_b i \<and> \<not> imm_c i)"
  shows "simi K t (minimal_execute_alu s i) (core_only (core_execute_alu c i))"
proof -
  have regs: "mr_value (c_registers c j) = m_registers s j" if "j < 32" for j
    using agrees_all_registers [OF assms(1,2), of "all_registers ! j"] that by (simp add: ctx_rr_def)
  show ?thesis
    unfolding simi_def
  proof (intro allI impI)
    fix s'
    assume run: "minimal_execute_alu s i = Some s'"
    then obtain b cc a where ops:
      "(if imm_b i then Some (op_b i) else reg_get s (unat (op_b i))) = Some b"
      "(if imm_c i then Some (op_c i) else reg_get s (unat (op_c i))) = Some cc"
      "core_alu (opcode i) b cc = Some a" "unat (op_a i) < 32"
      and s': "s' = ctx_rw s (all_registers ! unat (op_a i)) a"
      by (auto simp: minimal_execute_alu_def minimal_alu_core reg_set_def ctx_rw_def Let_def
          split: Option.bind_splits if_splits)
    have "agrees_at K t s' (snd (core_rw c' (all_registers ! unat (op_a i)) a))" if "agrees K (p, t) (p, t) s c'" for c'
      using agrees_rw [OF that] s' by blast
    with ops assms(1,3) regs show "\<exists>c'. core_only (core_execute_alu c i) = Ok c' \<and> agrees_at K t s' c'"
      by (auto simp: core_only_def core_execute_alu_def operand_view_defs from_u8_reg8 from_u8_reg
          reg_get_def case_prod_unfold Let_def split: if_splits)
  qed
qed

lemma simi_jump:
  assumes "agrees K (p, t) (p, t) s c" "m_registers s 0 = 0"
  shows "simi K t (minimal_execute_jump s i) (core_only (core_execute_jump c i))"
proof -
  note regs = agrees_all_registers [OF assms]
  have "agrees_at K t (ctx_rw (s\<lparr>m_next_pc := q\<rparr>) r v) ((snd (core_rw c' r v))\<lparr>c_next_pc := q\<rparr>)"
    if "agrees K (p, t) (p, t) s c'" for q r v c'
    using agrees_next_pc(2) [OF agrees_rw [OF agrees_next_pc(1) [OF that]]] by blast
  moreover have "(ctx_rw s r v)\<lparr>m_next_pc := q\<rparr> = ctx_rw (s\<lparr>m_next_pc := q\<rparr>) r v" for r v q
    by (simp add: ctx_rw_def)
  ultimately show ?thesis
    using assms(1)
    by (auto simp: simi_def minimal_execute_jump_def core_only_def core_execute_jump_def regs Let_def
        case_prod_unfold agrees_pc [OF assms(1)] split: Option.bind_splits if_splits)
qed

lemma simi_branch:
  assumes "agrees K (p, t) (p, t) s c" "m_registers s 0 = 0"
  shows "simi K t (minimal_execute_branch s i) (core_only (core_execute_branch c i))"
proof -
  note regs = agrees_all_registers [OF assms]
  have "agrees_at K t (s\<lparr>m_next_pc := q\<rparr>) (c'\<lparr>c_next_pc := q\<rparr>)"
    if "agrees K (p, t) (p, t) s c'" for q c'
    using agrees_next_pc(2) [OF agrees_next_pc(1) [OF that]] by blast
  with assms(1) show ?thesis
    by (cases "b_type i"; cases "opcode i")
      (auto simp: simi_def minimal_execute_branch_def core_only_def core_execute_branch_def regs Let_def
        case_prod_unfold agrees_pc [OF assms(1)])
qed

lemma simi_utype:
  assumes "agrees K (p, t) (p, t) s c"
  shows "simi K t (minimal_execute_utype s i) (core_only (core_execute_utype c i))"
  using agrees_rw [OF assms]
  by (cases "u_type i"; cases "opcode i")
    (auto simp: simi_def minimal_execute_utype_def core_only_def core_execute_utype_def Let_def
      case_prod_unfold agrees_pc [OF assms])

subsection \<open>Loads and stores\<close>

lemma grows_Some: "trace_reads t = trace_reads s \<Longrightarrow> grows s (Some (r, t))"
  by (simp add: steps_def)

lemma trace_reads_ctx_rw [simp]: "trace_reads (ctx_rw s r v) = trace_reads s"
  by (simp add: ctx_rw_def)

lemma sim_load_at:
  assumes "agrees K n n' s c" "\<And>t v c1 x c'. agrees K n n' t c' \<Longrightarrow> Q r t (g v c1 x) c'"
  shows "simk K (do {
      (mem_value, mem) \<leftarrow> limited_get_mut (m_memory s) a f;
      s1 \<leftarrow> trace_push_constrained (s\<lparr>m_memory := mem\<rparr>) mem_value;
      v \<leftarrow> load_value op addr (value mem_value);
      Some (r, ctx_rw s1 rd v)
    }) (do {
      (v, c1) \<leftarrow> next_read c;
      x \<leftarrow> ok_of (compute_load_value op addr (value v));
      Some (g v c1 x, snd (core_rw c1 rd x))
    }) Q"
proof -
  have load: "simk K (Some (r, ctx_rw s1 rd v))
      (Option.bind (ok_of (compute_load_value op addr w)) (\<lambda>x. Some (g w' c1 x, snd (core_rw c1 rd x)))) Q"
    if "agrees K n n' s1 c1" "load_value op addr w = Some v" for w w' s1 c1 v
    using agrees_rw [OF that(1)] that(2) by (auto simp: simr_def load_value_compute intro: assms(2))
  show ?thesis
    unfolding case_prod_unfold agrees_constrained [OF agrees_memory [OF assms(1)]]
    by (rule simr_push [of K n n'] load simr_pure_left reads.steps_bind_pure grows_Some | simp add: assms(1))+
qed

lemma sim_store_at:
  assumes "agrees K n n' s c" "\<And>t v c1 x c'. agrees K n n' t c' \<Longrightarrow> Q r t (g v c1 x) c'"
    "is_store op \<and> unat addr mod access_bytes op = 0"
  shows "simk K (do {
      (mem_value, mem) \<leftarrow> limited_get_mut (m_memory s) a f;
      s1 \<leftarrow> trace_push_constrained (s\<lparr>m_memory := mem\<rparr>) mem_value;
      Some (r, s1)
    }) (do {
      (v, c1) \<leftarrow> next_read c;
      x \<leftarrow> ok_of (compute_store_value op src addr (value v));
      Some (g v c1 x, c1)
    }) Q"
  unfolding case_prod_unfold agrees_constrained [OF agrees_memory [OF assms(1)]]
    compute_store_value_field [OF conjunct1 [OF assms(3)]]
  by (rule simr_push [of K n n'] simr_pure_left reads.steps_bind_pure grows_Some simr_Some | simp add: assms)+

lemma simi_agrees: "simi K t ms co"
  if "simk K (with_unit ms) (with_unit (ok_of co)) (\<lambda>_ s _ c. agrees K (p, t) (p, t) s c)"
  using that by (fastforce simp: simi_def simr_def)

lemma with_unit_push:
  "with_unit (trace_push_constrained s v) = Option.bind (trace_push_constrained s v) (\<lambda>s. Some ((), s))"
  by (simp add: with_unit_def map_conv_bind_option comp_def)

lemmas outcome_unfolds = Let_def case_prod_unfold with_unit_simps ok_of_simps bind_assoc bind.bind_lunit
  fst_conv snd_conv core_rr_value MemoryReadRecord.select_convs MemoryWriteRecord.select_convs with_unit_push

lemma simi_load:
  assumes "agrees K (p, t) (p, t) s c" "m_registers s 0 = 0"
  shows "simi K t (minimal_execute_load s i)
    (and_then (core_execute_load_supervisor c i) (\<lambda>(_, c1). Ok c1))"
  apply (rule simi_agrees [where p = p])
  unfolding minimal_execute_load_def core_execute_load_supervisor_def core_mr_def outcome_unfolds
    agrees_all_registers [OF assms]
  by (rule simr_pure, rule sim_load_at [unfolded case_prod_unfold]) (simp_all add: assms(1))

lemma store_aligned:
  assumes "store_value op src addr w = Some v"
  shows "is_store op \<and> unat addr mod access_bytes op = 0"
proof -
  from assms have "compute_store_value op src addr w = Ok v"
    by (simp add: store_value_compute)
  moreover from this have "is_store op"
    by (cases op) (simp_all add: compute_store_value_def is_store_def)
  ultimately show ?thesis
    by (simp add: compute_store_value_field split: if_splits)
qed

lemma simi_store:
  assumes "agrees K (p, t) (p, t) s c" "m_registers s 0 = 0"
  shows "simi K t (minimal_execute_store s i)
    (and_then (core_execute_store_supervisor c i) (\<lambda>(_, c1). Ok c1))"
proof (rule simi_agrees [where p = p])
  note regs = agrees_all_registers [OF assms]
  show "simk K (with_unit (minimal_execute_store s i))
      (with_unit (ok_of (and_then (core_execute_store_supervisor c i) (\<lambda>(_, c1). Ok c1))))
      (\<lambda>_ s _ c. agrees K (p, t) (p, t) s c)"
    unfolding minimal_execute_store_def core_execute_store_supervisor_def core_mr_def mem_read_untracked_def
      outcome_unfolds regs
    by (rule simr_pure, rule simr_pure_left, rule simr_pure_left, drule store_aligned,
        rule sim_store_at [unfolded case_prod_unfold]) (simp_all add: assms(1))
qed

subsection \<open>Loads, stores and fetches in user mode\<close>

lemma sim_minimal_prot_check:
  assumes "agrees K n n' s c" "replay_mode K = UserMode"
  shows "simk K (minimal_prot_check e s a bm k) (core_page_prot_check e c i bm)
    (\<lambda>r t x c'. same_trap r (snd x) \<and> agrees K n n' t c' \<and> m_registers t = m_registers s \<and>
      m_pc t = m_pc s \<and> c_registers c' = c_registers c)"
proof -
  have con: "trace_push_constrained (s\<lparr>m_page_prots := pp\<rparr>) v = trace_push (s\<lparr>m_page_prots := pp\<rparr>) v" for pp v
    using assms(1) by (simp add: agrees_def trace_push_constrained_def)
  have mode: "PAGE_PROTECTION_ENABLED (c_mode c)"
    using assms by (simp add: agrees_def PAGE_PROTECTION_ENABLED_def)
  have reads: "m_traces (s\<lparr>m_page_prots := pp\<rparr>) \<noteq> None" for pp
    using assms(1) by (simp add: agrees_def)
  show ?thesis
    unfolding simr_def
  proof (intro allI impI)
    fix r t
    assume run: "minimal_prot_check e s a bm k = Some (r, t)" and pre: "prefix (trace_reads t) (chunk_reads K)"
    then obtain pp v s1 pp' where s1: "trace_push (s\<lparr>m_page_prots := pp\<rparr>) (mem_of_page_prot v) = Some s1"
      "t = s1\<lparr>m_page_prots := pp'\<rparr>"
      "r = (case prot_failure e bm (pp_value v) of Some code \<Rightarrow> Inl (Interrupt code) | None \<Rightarrow> Inr ())"
      by (auto simp: minimal_prot_check_def minimal_pr_def con Let_def split: Option.bind_splits prod.splits option.splits)
    have "agrees K n n' (s\<lparr>m_page_prots := pp\<rparr>) c" "prefix (trace_reads s1) (chunk_reads K)"
      using assms(1) s1(2) pre by simp_all
    from agrees_push [OF this(1) s1(1) this(2)] obtain vs
      where vs: "c_mem_reads c = mem_of_page_prot v # vs" "agrees K n n' s1 (c\<lparr>c_mem_reads := vs\<rparr>)" .
    from trace_push_reads [OF s1(1) reads] obtain b where "s1 = s\<lparr>m_page_prots := pp\<rparr>\<lparr>m_traces := Some b\<rparr>" .
    then have "m_registers s1 = m_registers s" "m_pc s1 = m_pc s"
      by simp_all
    with vs s1 show "\<exists>r' c'. core_page_prot_check e c i bm = Some (r', c') \<and> same_trap r (snd r') \<and>
        agrees K n n' t c' \<and> m_registers t = m_registers s \<and> m_pc t = m_pc s \<and> c_registers c' = c_registers c"
      by (auto simp: core_page_prot_check_enabled [OF mode] next_read_def same_trap_def split: option.split)
  qed
qed

lemma simk_push:
  assumes "agrees K n n' s c" "\<And>t. grows t (f t)"
    "\<And>b c'. agrees K n n' (s\<lparr>m_traces := b\<rparr>) c' \<Longrightarrow> simk K (f (s\<lparr>m_traces := b\<rparr>)) (g (v, c')) Q"
  shows "simk K (Option.bind (trace_push_constrained s v) f) (Option.bind (next_read c) g) Q"
  unfolding agrees_constrained [OF assms(1)] simr_def
proof (intro allI impI)
  fix r t2
  assume run: "Option.bind (trace_push s v) f = Some (r, t2)" and pre: "prefix (trace_reads t2) (chunk_reads K)"
  then obtain t where t: "trace_push s v = Some t" "f t = Some (r, t2)"
    by (cases "trace_push s v") auto
  with assms(2) [of t] pre have "prefix (trace_reads t) (chunk_reads K)"
    by (auto simp: steps_def intro: prefix_order.trans)
  from agrees_push [OF assms(1) t(1) this] obtain vs
    where vs: "c_mem_reads c = v # vs" "agrees K n n' t (c\<lparr>c_mem_reads := vs\<rparr>)" .
  have "m_traces s \<noteq> None"
    using assms(1) by (simp add: agrees_def)
  from trace_push_reads [OF t(1) this] obtain b where "t = s\<lparr>m_traces := Some b\<rparr>" .
  with assms(3) [of "Some b" "c\<lparr>c_mem_reads := vs\<rparr>"] vs t pre
  show "\<exists>r' c'. Option.bind (next_read c) g = Some (r', c') \<and> Q r t2 r' c'"
    by (auto simp: simr_def next_read_def)
qed

lemma simk_minimal_prot_check:
  assumes "agrees K n n' s c" "replay_mode K = UserMode" "\<And>t. grows t (f () t)"
    "\<And>rec t c'. agrees K n n' t c' \<Longrightarrow> m_registers t = m_registers s \<Longrightarrow> m_pc t = m_pc s \<Longrightarrow>
      simk K (f () t) (G ((rec, None), c')) Q"
    "\<And>rec code t c'. agrees K n n' t c' \<Longrightarrow> m_registers t = m_registers s \<Longrightarrow> c_registers c' = c_registers c \<Longrightarrow>
      simk K (Some (Inl (Interrupt code), t)) (G ((rec, Some (PagePermissionViolation code)), c')) Q"
  shows "simk K (try_then (minimal_prot_check e s a bm k) f) (Option.bind (core_page_prot_check e c i bm) G) Q"
  unfolding try_then_def
proof (rule simr_bind [OF sim_minimal_prot_check [OF assms(1,2)]])
  show "grows t (case (r, t) of (Inl i, s) \<Rightarrow> Some (Inl i, s) | (Inr x, s) \<Rightarrow> f x s)" for r t
    using assms(3) by (cases r) (simp_all add: steps_def)
  show "simk K (case (r, t) of (Inl i, s) \<Rightarrow> Some (Inl i, s) | (Inr x, s) \<Rightarrow> f x s) (G (x, c')) Q"
    if "same_trap r (snd x) \<and> agrees K n n' t c' \<and> m_registers t = m_registers s \<and> m_pc t = m_pc s \<and>
      c_registers c' = c_registers c" for r t x c'
    using that assms(4) [of t c' "fst x"] assms(5) [of t c' "trap_code (projl r)" "fst x"]
    by (cases r; cases x) (auto simp: same_trap_def)
qed

text \<open>The address of a load or a store is a multiple of the size of the access. Otherwise the minimal
  executor panics, and the core VM returns an error; when the page permissions are also missing, the
  minimal executor takes the trap instead.\<close>

definition access_aligned :: "MinimalExecutor \<Rightarrow> Instruction \<Rightarrow> bool" where
  "access_aligned s i \<longleftrightarrow>
    (is_load (opcode i) \<longrightarrow> (case i_type i of
        Some (_, rs1, imm) \<Rightarrow> unat (ctx_rr s rs1 + imm) mod access_bytes (opcode i) = 0 | None \<Rightarrow> True)) \<and>
    (is_store (opcode i) \<longrightarrow> (case s_type i of
        Some (_, rs2, imm) \<Rightarrow> unat (ctx_rr s rs2 + imm) mod access_bytes (opcode i) = 0 | None \<Rightarrow> True))"

lemma agrees_rw_self:
  assumes "agrees K n n' s c"
  shows "agrees K n n' s (snd (core_rw c r (mr_value (c_registers c (reg_idx r)))))"
  using assms by (auto simp: agrees_def core_rw_def Let_def)

lemma sim_load_user:
  assumes "agrees K n n' s c" "m_registers s 0 = 0" "replay_mode K = UserMode" "access_aligned s i"
    "is_load (opcode i)"
  shows "simk K (execute_load_user e s i) (ok_of (core_execute_load_user e c i))
    (\<lambda>r t x c'. same_trap r (ld_error x) \<and> agrees K n n' t c')"
proof (cases "i_type i")
  case None
  then show ?thesis by (simp add: execute_load_user_def simr_None)
next
  case (Some ops)
  then obtain rd rs1 imm where i: "i_type i = Some (rd, rs1, imm)"
    by (cases ops) auto
  note regs = agrees_all_registers [OF assms(1,2)]
  have al: "unat (ctx_rr s rs1 + imm) mod access_bytes (opcode i) = 0"
    using assms(4,5) i by (simp add: access_aligned_def)
  have ag: "agrees K n n' s (snd (core_rr c rs1 B_position))"
    using assms(1) by simp
  show ?thesis
    unfolding execute_load_user_def core_execute_load_user_def core_mr_instr_def i outcome_unfolds regs prod.case
  proof (rule simk_minimal_prot_check [OF ag assms(3)], goal_cases)
    case (1 t)
    show ?case
      by (rule reads.steps_bind_state [OF reads.instruction_steps(2)]) (simp add: steps_def)
  next
    case (2 rec t c')
    then have "ctx_rr s rs1 = ctx_rr t rs1"
      by (simp add: ctx_rr_def)
    then show ?case
      by (simp only: minimal_execute_load_def i outcome_unfolds prod.case option.case simp_thms if_False)
        (rule sim_load_at [unfolded case_prod_unfold]; simp add: 2(1) same_trap_def)
  next
    case (3 rec code t c')
    with al agrees_rw_self [OF 3(1), of rd] show ?case
      by (simp add: compute_load_value_bytes [OF assms(5)] same_trap_def simr_Some)
  qed
qed

lemma sim_store_user:
  assumes "agrees K n n' s c" "m_registers s 0 = 0" "replay_mode K = UserMode" "access_aligned s i"
    "is_store (opcode i)"
  shows "simk K (execute_store_user e s i) (ok_of (core_execute_store_user e c i))
    (\<lambda>r t x c'. same_trap r (st_error x) \<and> agrees K n n' t c')"
proof (cases "s_type i")
  case None
  then show ?thesis by (simp add: execute_store_user_def simr_None)
next
  case (Some ops)
  then obtain rs1 rs2 imm where i: "s_type i = Some (rs1, rs2, imm)"
    by (cases ops) auto
  note regs = agrees_all_registers [OF assms(1,2)]
  have al: "unat (ctx_rr s rs2 + imm) mod access_bytes (opcode i) = 0"
    using assms(4,5) i by (simp add: access_aligned_def)
  have ag: "agrees K n n' s (snd (core_rr (snd (core_rr c rs2 B_position)) rs1 A_position))"
    using assms(1) by simp
  show ?thesis
    unfolding execute_store_user_def core_execute_store_user_def core_mw_instr_def i outcome_unfolds regs prod.case
  proof (rule simk_minimal_prot_check [OF ag assms(3)], goal_cases)
    case (1 t)
    show ?case
      by (rule reads.steps_bind_state [OF reads.instruction_steps(3)]) (simp add: steps_def)
  next
    case (2 rec t c')
    then have regs: "ctx_rr s r = ctx_rr t r" for r
      by (simp add: ctx_rr_def)
    show ?case
      unfolding minimal_execute_store_def mem_read_untracked_def i outcome_unfolds regs prod.case
      by (simp only: outcome_unfolds prod.case option.case simp_thms if_False)
        (rule simr_pure_left, rule simr_pure_left, drule store_aligned,
          rule sim_store_at [unfolded case_prod_unfold]; simp add: 2(1) same_trap_def)
  next
    case (3 rec code t c')
    with al show ?case
      by (simp add: compute_store_value_field [OF assms(5)] same_trap_def simr_Some)
  qed
qed

text \<open>Both machines fetch the same instruction, or take the same trap. First the part after the check of the
  permissions.\<close>

definition decoded :: "(u32 \<Rightarrow> Instruction option) \<Rightarrow> u32 \<Rightarrow> MinimalExecutor \<Rightarrow> Instruction checked" where
  "decoded p w s = (case m_decoded_instruction_cache s w of
      Some cached \<Rightarrow> Some (Inr cached, s)
    | None \<Rightarrow> do {
        i \<leftarrow> p w;
        Some (Inr i, s\<lparr>m_decoded_instruction_cache := (m_decoded_instruction_cache s)(w \<mapsto> i)\<rparr>)
      })"

definition fetch_word :: "(u32 \<Rightarrow> Instruction option) \<Rightarrow> u64 \<Rightarrow> MinimalExecutor \<Rightarrow> Instruction checked" where
  "fetch_word p aligned_pc s = do {
     (mem_value, mem) \<leftarrow> limited_get_mut (m_memory s) aligned_pc (\<lambda>v. v\<lparr>clk := m_clk s\<rparr>);
     s2 \<leftarrow> trace_push_constrained (s\<lparr>m_memory := mem\<rparr>) mem_value;
     assert_that (is_multiple_of (m_pc s2) 4);
     decoded p (ucast (drop_bit (unat ((m_pc s2 - aligned_pc) * 8)) (value mem_value) AND 0xFFFFFFFF)) s2
   }"

definition core_decoded :: "(u32 \<Rightarrow> Instruction option) \<Rightarrow> u32 \<Rightarrow> CoreVM \<Rightarrow> (Instruction \<times> CoreVM) option" where
  "core_decoded p w c = (case c_decoded_instruction_cache c w of
      Some cached \<Rightarrow> Some (cached, c)
    | None \<Rightarrow> do {
        i \<leftarrow> p w;
        Some (i, c\<lparr>c_decoded_instruction_cache := (c_decoded_instruction_cache c)(w \<mapsto> i)\<rparr>)
      })"

lemma minimal_fetch_word:
  "fetch (m_program s) (m_pc s) = None \<Longrightarrow> minimal_fetch e p s =
    try_then (minimal_prot_check e s (m_pc s AND NOT 7) (PROT_READ e OR PROT_EXEC e) 0)
      (\<lambda>_. fetch_word p (m_pc s AND NOT 7))"
  by (simp only: minimal_fetch_def fetch_word_def [abs_def] decoded_def option.case Let_def)

lemma grows_decoded: "grows s (decoded p w s)"
  unfolding decoded_def by (rule reads.step_rules | simp add: same_frame_def)+

lemma grows_fetch_word: "grows s (fetch_word p a s)"
  unfolding fetch_word_def
  by (rule reads.push_steps reads.step_rules grows_decoded | simp add: same_frame_def)+

lemma sim_decoded:
  assumes "agrees K n n' s c" "decoder K = p"
  shows "simk K (decoded p w s) (core_decoded p w c)
    (\<lambda>r t i c'. r = Inr i \<and> agrees K n n' t c' \<and> m_registers t = m_registers s)"
proof -
  have sub: "m_decoded_instruction_cache s w = Some i \<Longrightarrow> p w = Some i"
    "c_decoded_instruction_cache c w = Some i \<Longrightarrow> p w = Some i" for i
    using assms by (auto simp: agrees_def map_le_def dom_def)
  show ?thesis
    using assms(1) sub
    by (cases "p w"; cases "m_decoded_instruction_cache s w"; cases "c_decoded_instruction_cache c w")
      (auto simp: decoded_def core_decoded_def simr_def agrees_def assms(2) map_le_def)
qed

lemma sim_decoded_then:
  assumes "agrees K n n' s c" "decoder K = p" "\<And>i t c'. agrees K n n' t c' \<Longrightarrow> m_registers t = m_registers s \<Longrightarrow> Q (Inr i) t (g i c') c'"
  shows "simk K (decoded p w s) (Option.bind (core_decoded p w c) (\<lambda>x. Some (g (fst x) (snd x), snd x))) Q"
  using sim_decoded [OF assms(1,2)] assms(3) by (fastforce simp: simr_def)

lemma sim_fetch_user:
  assumes "agrees K n n' s c" "replay_mode K = UserMode" "decoder K = p"
  shows "simk K (minimal_fetch e p s) (ok_of (core_fetch_user e p c))
    (\<lambda>r t f c'. same_trap r (fetch_error f) \<and> agrees K n n' t c' \<and> m_registers t = m_registers s \<and>
      (case r of Inr i \<Rightarrow> fetch_instruction f = Some i | Inl _ \<Rightarrow> True))"
proof (cases "fetch (m_program s) (m_pc s)")
  case (Some i)
  moreover have "c_program c = m_program s" "c_pc c = m_pc s"
    using assms(1) by (simp_all add: agrees_def)
  ultimately show ?thesis
    using assms(1) by (simp add: minimal_fetch_def core_fetch_user_def simr_def same_trap_def)
next
  case None
  have same: "c_program c = m_program s" "c_pc c = m_pc s"
    using assms(1) by (simp_all add: agrees_def)
  show ?thesis
    unfolding minimal_fetch_word [OF None] core_fetch_user_def core_mr_instr_def same None option.case Let_def
      outcome_unfolds core_decoded_def [symmetric]
  proof (rule simk_minimal_prot_check [OF assms(1,2)], goal_cases)
    case (1 t)
    show ?case
      by (rule grows_fetch_word)
  next
    case (2 rec t c')
    then have t: "agrees K n n' (t\<lparr>m_memory := mem\<rparr>) c'" "m_pc t = m_pc s" for mem
      by simp_all
    show ?case
      apply (simp only: outcome_unfolds prod.case option.case simp_thms if_False fetch_word_def)
      apply (rule simr_pure_left, rule simk_push [OF t(1)])
      apply (rule reads.step_rules grows_decoded | simp; fail)+
      subgoal premises prems for x b c''
      proof -
        have pc: "c_pc c'' = m_pc s"
          using agrees_pc [OF prems(2)] t(2) by simp
        show ?thesis
          by (cases "is_multiple_of (m_pc s) 4"; simp add: pc t(2) simr_None)
            (rule sim_decoded_then [OF prems(2) assms(3)]; simp add: same_trap_def 2(2))
      qed
      done
  next
    case (3 rec code t c')
    then show ?case
      by (simp add: simr_def same_trap_def)
  qed
qed

subsection \<open>Traps\<close>

lemma grows_mw: "grows s (ctx_mw_without_prot s a v)" "grows s (ctx_mr_without_prot s a)"
  by (rule reads.access_steps)+

lemma simi_interrupt:
  assumes "agrees K (p, t) (p, t) s c"
  shows "simi K t (handle_interrupt s i) (core_trap c (Some (PagePermissionViolation (trap_code i))))"
proof (cases "trap_context (m_program s)")
  case None
  then show ?thesis by (simp add: handle_interrupt_def simi_def)
next
  case (Some ctx)
  have prog: "c_program c = m_program s"
    using assms by (simp add: agrees_def)
  show ?thesis
  proof (rule simi_simk)
    have "simk K (do {
        (npc, s1) \<leftarrow> ctx_mr_without_prot s ctx;
        (_, s3) \<leftarrow> ctx_mw_without_prot (s1\<lparr>m_next_pc := npc\<rparr>) (ctx + 8) (trap_code i);
        (_, s4) \<leftarrow> ctx_mw_without_prot s3 (ctx + 16) (m_pc s3);
        Some ((), s4)
      }) (do {
        (h, c1) \<leftarrow> core_mr_without_prot c ctx;
        (code, c3) \<leftarrow> core_mw_without_prot (c1\<lparr>c_next_pc := rd_value h\<rparr>) (ctx + 8);
        assert_that (wr_value code = trap_code i);
        (r, c4) \<leftarrow> core_mw_without_prot c3 (ctx + 16);
        Some ((), c4)
      }) (\<lambda>_ s _ c. agrees_at K t s c)"
    proof (rule simr_bind [OF sim_mr [OF assms]], goal_cases)
      case (1 npc s1)
      show ?case
        by (rule reads.op_steps reads.step_rules | simp add: same_frame_def)+
    next
      case (2 npc s1 h c1)
      then have ag: "agrees K (npc, t) (npc, t) (s1\<lparr>m_next_pc := npc\<rparr>) (c1\<lparr>c_next_pc := npc\<rparr>)" "rd_value h = npc"
        using agrees_next_pc(2) [OF agrees_next_pc(1)] by auto
      show ?case
        unfolding prod.case ag(2)
      proof (rule simr_bind [OF sim_mw [OF ag(1)]], goal_cases)
        case (1 u s2)
        show ?case
          by (rule reads.op_steps reads.step_rules | simp add: same_frame_def)+
      next
        case (2 u s3 code c3)
        then show ?case
          unfolding prod.case
          by (intro simr_assert_right simr_bind [OF sim_mw]) (auto simp: steps_def intro!: simr_Some)
      qed
    qed
    then show "simk K (with_unit (handle_interrupt s i))
        (with_unit (ok_of (core_trap c (Some (PagePermissionViolation (trap_code i)))))) (\<lambda>_ s _ c. agrees_at K t s c)"
      by (simp add: handle_interrupt_def core_trap_def core_handle_error_def Some prog Let_def case_prod_unfold)
  qed
qed
end
