(* ===== verification/Replay_Ecall.thy ===== *)
theory Replay_Ecall
  imports Replay_Instructions
begin

text \<open>
  The instruction \<open>ECALL\<close> under replay, around the handlers of \<open>Replay_Syscalls\<close>: the registers it reads
  and writes, the clock, and what the two machines do after a trap and after \<open>SIG_RETURN\<close>.
\<close>

subsection \<open>System calls\<close>

text \<open>When the core VM replays a system call: not the entry into an unconstrained block, which it skips as a
  whole; \<open>SIG_RETURN\<close> only in user mode, since in supervisor mode the core VM reads one word more; the
  arguments that the core VM checks and the minimal executor does not; and, in user mode, a register
  \<open>X5\<close> that holds the number of the call only, because after a trap the core VM has cleared its upper
  half.\<close>

definition ecall_ok :: "ExecutionMode \<Rightarrow> MinimalExecutor \<Rightarrow> bool" where
  "ecall_ok mode s \<longleftrightarrow> (case from_u32 (ucast (ctx_rr s X5)) of None \<Rightarrow> True | Some code \<Rightarrow>
     code \<noteq> ENTER_UNCONSTRAINED \<and> arguments_ok code (ctx_rr s X10) (ctx_rr s X11) \<and>
     (code = SIG_RETURN \<longrightarrow> mode = UserMode) \<and> (mode = UserMode \<longrightarrow> ctx_rr s X5 = ucast (syscall_num code)))"

lemma agrees_rw_right:
  assumes "agrees K n n' s c" "ctx_rr s r = v" "r \<noteq> X0"
  shows "agrees K n n' s (snd (core_rw c r v))"
  using agrees_rw_self [OF assms(1), of r] agrees_register [OF assms(1,3)] assms(2) by simp

lemma ecall_user_supervisor:
  assumes "from_u32 (ucast (ctx_rr s X5)) \<noteq> Some SIG_RETURN"
  shows "minimal_execute_ecall E s i = do {
    (r, t) \<leftarrow> execute_ecall_user E s i;
    (case r of Inl _ \<Rightarrow> None | Inr _ \<Rightarrow> Some t)
  }"
proof (cases "from_u32 (ucast (ctx_rr s X5)) :: SyscallCode option")
  case None
  then show ?thesis by (simp add: minimal_execute_ecall_def execute_ecall_user_def)
next
  case (Some code)
  with assms show ?thesis
    by (auto simp: minimal_execute_ecall_def execute_ecall_user_def try_then_def Let_def split: Option.bind_splits sum.splits)
qed


text \<open>What the two machines do with the result of the handler.\<close>

definition ecall_finished :: "SyscallCode \<Rightarrow> (Interrupt + u64 option) \<Rightarrow> MinimalExecutor \<Rightarrow> (Interrupt + unit) \<times> MinimalExecutor" where
  "ecall_finished code r s = (case r of
      Inl i \<Rightarrow> (Inl i, s)
    | Inr opt \<Rightarrow> (Inr (), handle_ecall_special_cases
        (ctx_rw s X5 (case opt of Some v \<Rightarrow> v | None \<Rightarrow> ucast (syscall_num code))) code))"

lemma trace_reads_special [simp]: "trace_reads (handle_ecall_special_cases s code) = trace_reads s"
  by (simp add: handle_ecall_special_cases_def)

lemma trace_reads_ecall_finished [simp]: "trace_reads (snd (ecall_finished code r s)) = trace_reads s"
  by (simp add: ecall_finished_def split: sum.split)

lemma last_error_ecall_finished [simp]:
  "last_error (m_memory (snd (ecall_finished code r s))) = last_error (m_memory s)"
  by (simp add: ecall_finished_def handle_ecall_special_cases_def ctx_rw_def split: sum.split)

lemma execute_ecall_user_eq:
  assumes "from_u32 (ucast (ctx_rr s X5)) = Some code" "code \<noteq> SIG_RETURN" "code \<noteq> EXIT_UNCONSTRAINED"
    "m_maybe_unconstrained s = None"
  shows "execute_ecall_user E s i = do {
    assert_that (is_ecall_instruction i);
    (r, s1) \<leftarrow> ecall_dispatch E (s\<lparr>m_next_clk := m_next_clk s + 256\<rparr>) code (ctx_rr s X10) (ctx_rr s X11);
    Some (ecall_finished code r s1)
  }"
  using assms
  by (auto simp: execute_ecall_user_def ecall_handler_def ecall_finished_def is_unconstrained_def try_then_def
      ctx_rr_def Let_def split: Option.bind_splits sum.splits)

lemma agrees_ecall_finished:
  assumes "agrees K (p, t + 256) (after_handler code (p, t)) s c" "code \<noteq> EXIT_UNCONSTRAINED"
  shows "agrees_at K (t + 256) (snd (ecall_finished code (Inr opt) s))
    ((snd (core_rw c X5 (case opt of Some v \<Rightarrow> v | None \<Rightarrow> ucast (syscall_num code))))\<lparr>c_next_clk := t + 256\<rparr>)"
proof -
  let ?v = "case opt of Some v \<Rightarrow> v | None \<Rightarrow> ucast (syscall_num code)"
  let ?p = "if code = HALT then HALT_PC else p"
  have "agrees K (p, t + 256) (?p, t) s c"
    using assms(1) by (simp add: after_handler_def split: if_splits)
  from agrees_rw [OF this, of X5 ?v]
  have "agrees K (?p, t + 256) (?p, t) (handle_ecall_special_cases (ctx_rw s X5 ?v) code) (snd (core_rw c X5 ?v))"
    using assms(2) agrees_next_pc(1) by (auto simp: handle_ecall_special_cases_def)
  from agrees_next_pc(4) [OF this] show ?thesis
    by (auto simp: ecall_finished_def)
qed

lemma agrees_ecall_trapped:
  assumes "agrees K (p, t + 256) (p, t) s c" "ctx_rr s X5 = v"
  shows "agrees_at K (t + 256) s ((snd (core_rw c X5 v))\<lparr>c_next_clk := t + 256\<rparr>)"
  using agrees_next_pc(4) [OF agrees_rw_right [OF assms]] by auto

lemma sim_ecall:
  assumes ag: "agrees K (p, t) (p, t) s c" and inv: "executor_inv s" and ok: "ecall_ok (replay_mode K) s"
    and code: "from_u32 (ucast (ctx_rr s X5)) = Some code" "code \<noteq> SIG_RETURN"
  shows "simk K (execute_ecall_user E s i) (core_execute_ecall (abi E) (core_runtime (abi E)) c i)
    (\<lambda>r s' x c'. last_error (m_memory s') = None \<longrightarrow>
      same_trap r (ec_error x) \<and> ((isl r \<longrightarrow> replay_mode K = UserMode) \<longrightarrow> agrees_at K (t + 256) s' c'))"
proof (cases "code = EXIT_UNCONSTRAINED")
  case True
  with ag code show ?thesis
    by (simp add: execute_ecall_user_def ecall_handler_def ecall_dispatch_def exit_unconstrained_def agrees_def
        try_then_def simr_None)
next
  case False
  let ?s1 = "s\<lparr>m_next_clk := m_next_clk s + 256\<rparr>" and ?a = "ctx_rr s X10" and ?b = "ctx_rr s X11"
  let ?c2 = "snd (core_rr (snd (core_rr c X11 C_position)) X10 B_position)"
  have nx: "m_next_clk s = t" "m_maybe_unconstrained s = None" "c_next_clk c = t"
    using ag by (simp_all add: agrees_def)
  have ag1: "agrees K (p, t + 256) (p, t) ?s1 ?c2"
    using agrees_next_pc(3) [OF ag, of "t + 256"] nx by simp
  have inv1: "executor_inv ?s1"
    using inv by (simp add: executor_inv_def)
  have ok1: "code \<noteq> ENTER_UNCONSTRAINED" "arguments_ok code ?a ?b"
    "replay_mode K = UserMode \<Longrightarrow> ctx_rr s X5 = ucast (syscall_num code)"
    using ok code by (simp_all add: ecall_ok_def)
  have code1: "from_u32 (ucast (ctx_rr ?s1 X5)) = Some code"
    using code by (simp add: ctx_rr_def)
  note sim = sim_dispatch [OF ag1 inv1 code1 ok1(1,2), of E]
  have vals: "mr_value (c_registers c 5) = ctx_rr s X5" "mr_value (c_registers c 10) = ctx_rr s X10"
    "mr_value (c_registers c 11) = ctx_rr s X11"
    using agrees_register [OF ag, of X5] agrees_register [OF ag, of X10] agrees_register [OF ag, of X11] by simp_all
  show ?thesis
    unfolding simr_def execute_ecall_user_eq [OF code False nx(2)]
  proof (intro allI impI)
    fix r s'
    assume run: "assert_that (is_ecall_instruction i) \<bind> (\<lambda>_. ecall_dispatch E ?s1 code ?a ?b \<bind>
        (\<lambda>(r, s1). Some (ecall_finished code r s1))) = Some (r, s')"
      and pre: "prefix (trace_reads s') (chunk_reads K)"
    then obtain r0 s2 where i: "is_ecall_instruction i" and d: "ecall_dispatch E ?s1 code ?a ?b = Some (r0, s2)"
      and r: "ecall_finished code r0 s2 = (r, s')"
      by (auto split: Option.bind_splits)
    have s': "s' = snd (ecall_finished code r0 s2)" "r = fst (ecall_finished code r0 s2)"
      using r by simp_all
    with sim d pre obtain r' c3 where core: "vm_dispatch (abi E) (core_runtime (abi E)) ?c2 code ?a ?b = Some (r', c3)"
      and rep: "last_error (m_memory s2) = None \<longrightarrow> replayed K (p, t + 256) (after_handler code (p, t)) r0 s2 r' c3"
      by (auto simp: simr_def replayed_or_failed_def)
    define a where "a = (case r' of Inr (Some v) \<Rightarrow> v | _ \<Rightarrow> ucast (syscall_num code))"
    define c4 where "c4 = reset_clk (core_runtime (abi E)) c3 (c_clk ?c2)"
    have exec: "\<exists>x. core_execute_ecall (abi E) (core_runtime (abi E)) c i =
        Some (x, (snd (core_rw c4 X5 a))\<lparr>c_next_clk := c_next_clk c3 + 256\<rparr>) \<and>
        ec_error x = (case r' of Inl err \<Rightarrow> Some err | Inr _ \<Rightarrow> None)"
      using code i ok1(1) core
      by (cases r') (simp_all add: core_execute_ecall_def sp1_ecall_handler_def vals case_prod_unfold Let_def a_def c4_def
          reset_clk_def core_runtime_def split: option.split)
    have rest: "same_trap r (case r' of Inl err \<Rightarrow> Some err | Inr _ \<Rightarrow> None) \<and>
        ((isl r \<longrightarrow> replay_mode K = UserMode) \<longrightarrow>
         agrees_at K (t + 256) s' ((snd (core_rw c4 X5 a))\<lparr>c_next_clk := c_next_clk c3 + 256\<rparr>))"
      if "last_error (m_memory s') = None"
    proof -
      have same: "same_result r0 r'" and ag3: "agrees K (p, t + 256) (after_handler code (p, t)) s2 c4"
        and clk: "c_next_clk c3 = t"
        using rep that s' by (auto simp: replayed_def c4_def) (auto simp: agrees_def after_handler_def split: if_splits)
      show ?thesis
      proof (cases r0)
        case (Inl j)
        then have "code \<noteq> HALT" "ctx_rr s2 X5 = ctx_rr s X5"
          using d trap_keeps_dispatch [of ?s1 E code ?a ?b]
          by (auto simp: ecall_dispatch_def trap_keeps_def ctx_rr_def)
        with Inl same ag3 agrees_ecall_trapped [of K p t s2 c4] ok1(3) clk s' show ?thesis
          by (auto simp: same_trap_def same_result_def ecall_finished_def after_handler_def a_def)
      next
        case (Inr opt)
        with same have "r' = Inr opt" "a = (case opt of Some v \<Rightarrow> v | None \<Rightarrow> ucast (syscall_num code))"
          by (simp_all add: same_result_def a_def split: option.split)
        with Inr agrees_ecall_finished [OF ag3 False, of opt] clk s' show ?thesis
          by (simp add: same_trap_def ecall_finished_def)
      qed
    qed
    with exec show "\<exists>x c'. core_execute_ecall (abi E) (core_runtime (abi E)) c i = Some (x, c') \<and>
        (last_error (m_memory s') = None \<longrightarrow>
          same_trap r (ec_error x) \<and> ((isl r \<longrightarrow> replay_mode K = UserMode) \<longrightarrow> agrees_at K (t + 256) s' c'))"
      by auto
  qed
qed

text \<open>\<open>SIG_RETURN\<close> in user mode.\<close>

lemma foldl_rw_other: "r \<notin> set rs \<Longrightarrow> ctx_rr (foldl (\<lambda>s (r, v). ctx_rw s r v) s (zip rs vs)) r = ctx_rr s r"
proof (induction rs arbitrary: s vs)
  case (Cons q rs)
  then show ?case
    by (cases vs) (auto simp: ctx_rr_def ctx_rw_def)
qed simp

lemma foldl_rw_value:
  "distinct rs \<Longrightarrow> j < length rs \<Longrightarrow> length vs = length rs \<Longrightarrow>
    ctx_rr (foldl (\<lambda>s (r, v). ctx_rw s r v) s (zip rs vs)) (rs ! j) = vs ! j"
proof (induction rs arbitrary: s vs j)
  case (Cons q rs)
  then obtain v vs' where vs: "vs = v # vs'"
    by (cases vs) auto
  with Cons show ?case
    by (cases j) (simp_all add: foldl_rw_other, simp add: ctx_rr_def ctx_rw_def)
qed simp

lemma sig_return_result:
  assumes "minimal_sig_return s a b = Some (r, t)"
  shows "r = Inr (Some (ctx_rr t X5))"
proof -
  from assms obtain vs s1 where "length vs = 31" "r = Inr (Some (vs ! 4))"
    "t = foldl (\<lambda>s (r, v). ctx_rw s r v) (bump_memory_clk s1) (zip (drop (Suc 0) all_registers) vs)"
    by (auto simp: minimal_sig_return_def Let_def split: Option.bind_splits)
  with foldl_rw_value [of "drop (Suc 0) all_registers" 4 vs "bump_memory_clk s1"] show ?thesis
    by (simp add: all_registers_def)
qed

lemma execute_ecall_sig_return:
  assumes "from_u32 (ucast (ctx_rr s X5)) = Some SIG_RETURN" "m_maybe_unconstrained s = None"
    "execute_ecall_user E s i = Some (r, s')"
  obtains v s1 s2 where "is_ecall_instruction i" "ctx_mr_without_prot s (ctx_rr s X10) = Some (v, s1)"
    "minimal_sig_return (s1\<lparr>m_next_pc := v, m_next_clk := m_next_clk s1 + 256\<rparr>) (ctx_rr s X10) (ctx_rr s X11) =
      Some (Inr (Some (ctx_rr s2 X5)), s2)"
    "r = Inr ()" "s' = ctx_rw s2 X5 (ctx_rr s2 X5)"
proof -
  from assms(1,3) obtain v s1 where 1: "is_ecall_instruction i" "ctx_mr_without_prot s (ctx_rr s X10) = Some (v, s1)"
    and rest: "try_then (ecall_handler E (s1\<lparr>m_next_pc := v, m_next_clk := m_next_clk s1 + 256\<rparr>) SIG_RETURN)
      (\<lambda>v s3. Some (Inr (), handle_ecall_special_cases (ctx_rw s3 X5 v) SIG_RETURN)) = Some (r, s')"
    by (auto simp: execute_ecall_user_def Let_def split: Option.bind_splits)
  have same: "m_registers s1 = m_registers s" "m_maybe_unconstrained s1 = None"
    using 1(2) assms(2) by (auto simp: ctx_mr_without_prot_def trace_push_def split: Option.bind_splits option.splits)
  let ?s = "s1\<lparr>m_next_pc := v, m_next_clk := m_next_clk s1 + 256\<rparr>"
  from rest obtain r0 s2 where 2: "minimal_sig_return ?s (ctx_rr s X10) (ctx_rr s X11) = Some (r0, s2)"
    by (auto simp: ecall_handler_def ecall_dispatch_def try_then_def ctx_rr_def same Let_def split: Option.bind_splits)
  note r0 = sig_return_result [OF 2]
  have "r = Inr ()" "s' = ctx_rw s2 X5 (ctx_rr s2 X5)"
    using rest 2 r0
    by (auto simp: ecall_handler_def ecall_dispatch_def try_then_def same is_unconstrained_def ctx_rr_def
        handle_ecall_special_cases_def Let_def split: Option.bind_splits)
  with that 1 2 r0 show thesis
    by simp
qed

lemma executor_inv_mr:
  assumes "executor_inv s" "ctx_mr_without_prot s a = Some (v, t)"
  shows "executor_inv t"
proof -
  from assms(2) obtain w mem f where mem: "limited_get_mut (m_memory s) a f = Some (w, mem)"
    "trace_push (s\<lparr>m_memory := mem\<rparr>) w = Some t"
    by (auto simp: ctx_mr_without_prot_def split: Option.bind_splits)
  from mem(1) executor_inv_mem [OF assms(1), of "M_get_mut a f" mem] have "executor_inv (s\<lparr>m_memory := mem\<rparr>)"
    by simp
  with mem(2) show ?thesis
    by (auto simp: trace_push_def executor_inv_def split: option.splits Option.bind_splits)
qed

lemma sim_ecall_sig_return:
  assumes ag: "agrees K (p, t) (p, t) s c" and inv: "executor_inv s" and ok: "ecall_ok (replay_mode K) s"
    and code: "from_u32 (ucast (ctx_rr s X5)) = Some SIG_RETURN"
  shows "simk K (execute_ecall_user E s i) (core_execute_ecall (abi E) (core_runtime (abi E)) c i)
    (\<lambda>r s' x c'. last_error (m_memory s') = None \<longrightarrow>
      same_trap r (ec_error x) \<and> ((isl r \<longrightarrow> replay_mode K = UserMode) \<longrightarrow> agrees_at K (t + 256) s' c'))"
  unfolding simr_def
proof (intro allI impI)
  fix r s'
  assume run: "execute_ecall_user E s i = Some (r, s')" and pre: "prefix (trace_reads s') (chunk_reads K)"
  have nx: "m_next_clk s = t" "m_maybe_unconstrained s = None" "c_next_clk c = t"
    using ag by (simp_all add: agrees_def)
  from execute_ecall_sig_return [OF code nx(2) run] obtain v s1 s2
    where i: "is_ecall_instruction i" and mr: "ctx_mr_without_prot s (ctx_rr s X10) = Some (v, s1)"
      and sr: "minimal_sig_return (s1\<lparr>m_next_pc := v, m_next_clk := m_next_clk s1 + 256\<rparr>) (ctx_rr s X10) (ctx_rr s X11) =
        Some (Inr (Some (ctx_rr s2 X5)), s2)"
      and r: "r = Inr ()" "s' = ctx_rw s2 X5 (ctx_rr s2 X5)" .
  have vals: "mr_value (c_registers c 5) = ctx_rr s X5" "mr_value (c_registers c 10) = ctx_rr s X10"
    "mr_value (c_registers c 11) = ctx_rr s X11"
    using agrees_register [OF ag, of X5] agrees_register [OF ag, of X10] agrees_register [OF ag, of X11] by simp_all
  have ok1: "ctx_rr s X10 mod 8 = 0" "ctx_rr s X11 = 0"
    using ok code by (simp_all add: ecall_ok_def arguments_ok_def)
  define c3 where "c3 = snd (core_rw (snd (core_rr (snd (core_rr c X11 C_position)) X10 B_position)) X5 (ctx_rr s X5))"
  have ag3: "agrees K (p, t) (p, t) s c3"
    unfolding c3_def using ag by (intro agrees_rw_right) simp_all
  let ?s1 = "s1\<lparr>m_next_pc := v, m_next_clk := m_next_clk s1 + 256\<rparr>"
  have "prefix (trace_reads s1) (trace_reads s2)"
    using reads.dispatch_steps [of ?s1 E SIG_RETURN "ctx_rr s X10" "ctx_rr s X11"] sr
    by (simp add: ecall_dispatch_def steps_def)
  then have pre1: "prefix (trace_reads s1) (chunk_reads K)" and pre2: "prefix (trace_reads s2) (chunk_reads K)"
    using pre r(2) by (auto intro: prefix_order.trans)
  from sim_mr [OF ag3] mr pre1 obtain rec c4 where c4: "core_mr_without_prot c3 (ctx_rr s X10) = Some (rec, c4)"
    "rd_value rec = v" "agrees K (p, t) (p, t) s1 c4"
    unfolding simr_def by blast
  have "m_next_clk s1 = t"
    using c4(3) by (simp add: agrees_def)
  then have ag5: "agrees K (v, t + 256) (v, t) ?s1 (c4\<lparr>c_next_pc := v\<rparr>)"
    using agrees_next_pc(2) [OF agrees_next_pc(3) [OF agrees_next_pc(1) [OF c4(3)]]] by simp
  have inv5: "executor_inv ?s1"
    using executor_inv_mr [OF inv mr] by (simp add: executor_inv_def)
  from sim_sig_return [OF ag5 inv5 ok1, of "abi E"] sr pre2 obtain r' c6
    where c6: "ok_handled (vm_sig_return (core_runtime (abi E)) (c4\<lparr>c_next_pc := v\<rparr>) (ctx_rr s X10) (ctx_rr s X11)) = Some (r', c6)"
      and rep: "replayed_or_failed K (v, t + 256) (v, t) (Inr (Some (ctx_rr s2 X5))) s2 r' c6"
    unfolding simr_def by blast
  let ?c7 = "(reset_clk (core_runtime (abi E)) c6 (c_clk c4))\<lparr>c_next_clk := c_next_clk c6 + 256\<rparr>"
  have "\<exists>x. core_execute_ecall (abi E) (core_runtime (abi E)) c i = Some (x, ?c7) \<and> ec_error x = None"
    using code i c6 c4(1,2)
    by (simp add: core_execute_ecall_def sp1_ecall_handler_def vm_dispatch_def vals case_prod_unfold Let_def
        c3_def [symmetric] reset_clk_def core_runtime_def)
  moreover have "agrees_at K (t + 256) s' ?c7" if "last_error (m_memory s') = None"
  proof -
    have "s' = s2"
      using r(2) by (simp add: ctx_rw_def ctx_rr_def)
    with that rep have *: "agrees K (v, t + 256) (v, t) s' (reset_clk (core_runtime (abi E)) c6 (c_clk c4))" "c_next_clk c6 = t"
      by (auto simp: replayed_or_failed_def replayed_def) (simp add: agrees_def)
    from agrees_next_pc(4) [OF *(1), of "t + 256"] show ?thesis
      unfolding *(2) by blast
  qed
  ultimately show "\<exists>x c'. core_execute_ecall (abi E) (core_runtime (abi E)) c i = Some (x, c') \<and>
      (last_error (m_memory s') = None \<longrightarrow>
        same_trap r (ec_error x) \<and> ((isl r \<longrightarrow> replay_mode K = UserMode) \<longrightarrow> agrees_at K (t + 256) s' c'))"
    using r(1) by (auto simp: same_trap_def)
qed

lemma sim_execute_ecall:
  assumes "agrees K (p, t) (p, t) s c" "executor_inv s" "ecall_ok (replay_mode K) s"
  shows "simk K (execute_ecall_user E s i) (core_execute_ecall (abi E) (core_runtime (abi E)) c i)
    (\<lambda>r s' x c'. last_error (m_memory s') = None \<longrightarrow>
      same_trap r (ec_error x) \<and> ((isl r \<longrightarrow> replay_mode K = UserMode) \<longrightarrow> agrees_at K (t + 256) s' c'))"
proof (cases "from_u32 (ucast (ctx_rr s X5)) :: SyscallCode option")
  case None
  then show ?thesis by (simp add: execute_ecall_user_def simr_None)
next
  case (Some code)
  then show ?thesis
    using sim_ecall [OF assms Some] sim_ecall_sig_return [OF assms] by (cases "code = SIG_RETURN") simp_all
qed

end
