(* ===== verification/Minimal_Runs.thy ===== *)
theory Minimal_Runs
  imports Step_Relation
begin

text \<open>
  Whole runs of the minimal executor: it is created from a program, given inputs, and asked for one
  chunk after the other; its memory may be inspected in between. The inductive predicate \<open>reached\<close> holds of the
  states in which a client of \<open>MinimalExecutor\<close> can find it, after a chunk that was completed and after one that
  failed. The other public methods do not change the state, except \<open>reset\<close>, which panics. The properties
  are the invariant of those states, that a chunk only extends what it has recorded, and when a chunk ends
  with a memory error.
\<close>

subsection \<open>States a client can observe\<close>

inductive reached :: "externs \<Rightarrow> MinimalExecutor \<Rightarrow> bool" for E where
  new: "new_with_limit mode program max_trace_size memory_limit = Some s \<Longrightarrow> reached E s"
| input: "reached E s \<Longrightarrow> reached E (with_input bytes s)"
| peeked: "reached E s \<Longrightarrow> get_memory_value s a = Some (v, t) \<Longrightarrow> reached E t"
| chunk: "reached E s \<Longrightarrow> try_execute_chunk E fuel s = Some (Ok (trace, t)) \<Longrightarrow> reached E t"
| failed: "reached E s \<Longrightarrow> try_execute_chunk E fuel s = Some (Err (err, t)) \<Longrightarrow> reached E t"

text \<open>A program that only halts, for the concrete runs below.\<close>

definition halt_program :: Program where
  "halt_program = \<lparr>instructions = [\<lparr>opcode = ECALL, op_a = 5, op_b = 10, op_c = 11, imm_b = False, imm_c = False\<rparr>],
     pc_start_abs = 0x78000000, pc_base = 0x78000000, trap_context = None, page_prot_image = [],
     memory_image = [], enable_untrusted_programs = False, untrusted_memory = None\<rparr>"

definition no_externs :: externs where
  "no_externs = \<lparr>abi = \<lparr>PF_NONE = 0, PF_X = 1, PF_W = 2, PF_R = 4\<rparr>, process_instruction = (\<lambda>_. None),
     keccakf = id, poseidon2_permute = id, affine_add = (\<lambda>_ _ _. None), affine_double = (\<lambda>_ _. None),
     ed25519_decompress = (\<lambda>_. None), hook = (\<lambda>_ _. None), profiler_symbols_ok = (\<lambda>_. False),
     profiler_addresses_ok = (\<lambda>_. False), dump_elf = (\<lambda>s. Some (m_memory s))\<rparr>"

text \<open>A program that loads one word and halts.\<close>

definition load_program :: Program where
  "load_program = halt_program\<lparr>instructions :=
     \<lparr>opcode = LD, op_a = 6, op_b = 0, op_c = 0x100, imm_b = False, imm_c = True\<rparr> # instructions halt_program\<rparr>"

subsection \<open>The invariant\<close>

lemma insert_image_ops:
  "insert_image img mem = mem_ops_exec (map (\<lambda>(a, v). M_insert a \<lparr>clk = 0, value = v\<rparr>) img) mem"
proof -
  have none: "foldl (\<lambda>m (addr, v). do { mem \<leftarrow> m; limited_insert mem addr \<lparr>clk = 0, value = v\<rparr> }) None img = None" for img
    by (induction img) auto
  have "foldl (\<lambda>m (addr, v). do { mem \<leftarrow> m; limited_insert mem addr \<lparr>clk = 0, value = v\<rparr> }) (Some mem) img =
      mem_ops_exec (map (\<lambda>(a, v). M_insert a \<lparr>clk = 0, value = v\<rparr>) img) mem" for mem
  proof (induction img arbitrary: mem)
    case (Cons av img)
    then show ?case
      by (cases av; cases "limited_insert mem (fst av) \<lparr>clk = 0, value = snd av\<rparr>") (simp_all add: none)
  qed simp
  then show ?thesis
    by (simp add: insert_image_def)
qed

lemma new_inv:
  assumes "new_with_limit mode program mts limit = Some s"
  shows "executor_inv s"
proof -
  from assms obtain mem where mem: "insert_image (memory_image program) (limited_new_owned limit) = Some mem"
    and s: "m_memory s = mem" "m_maybe_unconstrained s = None"
    by (auto simp: new_with_limit_def Let_def split: Option.bind_splits)
  have "executor_inv (s\<lparr>m_memory := limited_new_owned limit\<rparr>)"
    using s limited_inv_new by (simp add: executor_inv_def limited_new_owned_def cow_new_owned_def)
  from executor_inv_mems [OF this, of _ mem] mem have "executor_inv (s\<lparr>m_memory := mem\<rparr>)"
    by (simp add: insert_image_ops)
  with s show ?thesis
    by (simp add: executor_inv_def)
qed

lemma start_chunk_traces:
  "start_chunk s = Some s1 \<Longrightarrow> s1 = s\<lparr>m_traces := m_traces s1\<rparr>"
  by (auto simp: start_chunk_def Let_def split: if_splits Option.bind_splits option.splits)

lemma stop_zero: "stop_after_instruction s = Some (stop, t) \<Longrightarrow> m_registers t 0 = 0"
  by (auto simp: stop_after_instruction_def post_instruction_update_def Let_def split: Option.bind_splits)

lemma execute_instruction_zero: "execute_instruction E s = Some (stop, t) \<Longrightarrow> m_registers t 0 = 0"
  by (cases "m_mode s")
    (auto simp: execute_instruction_def execute_instruction_supervisor_def execute_instruction_user_def Let_def
      split: Option.bind_splits dest!: stop_zero)

lemma chunk_loop_zero: "chunk_loop E fuel s = Some (Ok t) \<Longrightarrow> m_registers t 0 = 0"
proof (induction fuel arbitrary: s)
  case (Suc fuel)
  then show ?case
    by (auto split: option.splits if_splits dest: execute_instruction_zero)
qed simp

lemma chunk_loop_failed:
  "chunk_loop E fuel s = Some (Err (e, t)) \<Longrightarrow> m_registers t 0 = 0 \<and> last_error (m_memory t) = Some e"
proof (induction fuel arbitrary: s)
  case (Suc fuel)
  then show ?case
    by (auto split: option.splits if_splits dest: execute_instruction_zero)
qed simp

lemma executed_chunk:
  assumes "try_execute_chunk E fuel s = Some (Ok (trace, t))"
  obtains "trace = None" "t = s" "is_done s" "last_error (m_memory s) = None"
  | s1 s2 where "start_chunk s = Some s1" "chunk_loop E fuel s1 = Some (Ok s2)"
    "(trace, t) = finish_chunk s2" "\<not> is_done s" "last_error (m_memory s) = None"
proof (cases "is_done s")
  case True
  with assms that(1) show thesis
    by (auto simp: try_execute_chunk_def split: option.splits)
next
  case False
  with assms obtain s1 r where 1: "start_chunk s = Some s1" "chunk_loop E fuel s1 = Some r"
    "and_then r (\<lambda>s2. Ok (finish_chunk s2)) = Ok (trace, t)" "last_error (m_memory s) = None"
    by (auto simp: try_execute_chunk_def split: option.splits)
  then obtain s2 where "r = Ok s2" "finish_chunk s2 = (trace, t)"
    by (cases r) auto
  with 1 False that(2) show thesis
    by simp
qed

lemma failed_chunk:
  assumes "try_execute_chunk E fuel s = Some (Err (e, t))"
  obtains "t = s" "last_error (m_memory s) = Some e"
  | s1 where "start_chunk s = Some s1" "chunk_loop E fuel s1 = Some (Err (e, t))"
proof (cases "last_error (m_memory s)")
  case None
  with assms obtain s1 r where 1: "start_chunk s = Some s1" "chunk_loop E fuel s1 = Some r"
    "and_then r (\<lambda>s2. Ok (finish_chunk s2)) = Err (e, t)"
    by (auto simp: try_execute_chunk_def split: option.splits if_splits)
  then have "r = Err (e, t)"
    by (cases r) auto
  with 1 that(2) show thesis
    by simp
next
  case (Some err)
  with assms that(1) show thesis
    by (simp add: try_execute_chunk_def)
qed

text \<open>A trace is left over only by a chunk that has failed.\<close>

definition traces_inv :: "MinimalExecutor \<Rightarrow> bool" where
  "traces_inv s \<longleftrightarrow> m_traces s = None \<or> last_error (m_memory s) \<noteq> None"

lemma start_chunk_inv: "start_chunk s = Some s1 \<Longrightarrow> executor_inv s \<Longrightarrow> executor_inv s1"
  by (drule start_chunk_traces, erule ssubst) (simp add: executor_inv_def)

lemma reached_inv:
  assumes "reached E s" "dump_only_reads E"
  shows "executor_inv s \<and> m_registers s 0 = 0 \<and> traces_inv s"
  using assms
proof induction
  case (new mode program mts limit s)
  then show ?case
    using new_inv by (auto simp: new_with_limit_def Let_def traces_inv_def split: Option.bind_splits)
next
  case (input s bytes)
  then show ?case
    by (simp add: with_input_def executor_inv_def traces_inv_def)
next
  case (peeked s a v t)
  then obtain mem where mem: "t = s\<lparr>m_memory := mem\<rparr>" "mem_op_exec (M_get a) (m_memory s) = Some mem"
    by (auto simp: get_memory_value_def split: Option.bind_splits)
  with peeked executor_inv_mem [of s "M_get a" mem] mem_op_exec_error [of "m_memory s" _ "M_get a"] show ?case
    by (auto simp: traces_inv_def)
next
  case (chunk s fuel trace t)
  from chunk.hyps(2) show ?case
  proof (cases rule: executed_chunk)
    case 1
    with chunk show ?thesis by simp
  next
    case (2 s1 s2)
    have "executor_inv s1"
      using start_chunk_inv [OF 2(1)] chunk by simp
    with invariant.chunk_loop_steps [OF 2(2)] chunk.prems chunk_loop_zero [OF 2(2)] 2(3) show ?thesis
      by (simp add: finish_chunk_def executor_inv_def traces_inv_def)
  qed
next
  case (failed s fuel err t)
  from failed.hyps(2) show ?case
  proof (cases rule: failed_chunk)
    case 1
    with failed show ?thesis by simp
  next
    case (2 s1)
    have "executor_inv s1"
      using start_chunk_inv [OF 2(1)] failed by simp
    with invariant.chunk_loop_error_steps [OF 2(2)] failed.prems chunk_loop_failed [OF 2(2)] show ?thesis
      by (simp add: traces_inv_def)
  qed
qed

lemma reached_no_trace:
  assumes "reached E s" "dump_only_reads E" "try_execute_chunk E fuel s = Some (Ok r)"
  shows "m_traces s = None"
  using reached_inv [OF assms(1,2)] assms(3)
  by (auto simp: traces_inv_def try_execute_chunk_def split: option.splits)

text \<open>(C3) In every state in which a client finds the executor, also after a chunk that has failed, the memory
  keeps its invariant (the pages are consistent, and the count of the limiter is the number of words
  written), it is in copy-on-write mode exactly inside an unconstrained block, and the register \<open>X0\<close> is
  zero. No trace is left over from the previous chunk, unless that chunk has failed with a memory error:
  then the executor is stuck, and every request for a chunk returns the error and changes nothing.\<close>

theorem executor_invariant:
  assumes "reached E s" "dump_only_reads E"
  shows "executor_inv s \<and> m_registers s 0 = 0 \<and>
    (m_traces s = None \<or> (\<exists>e. \<forall>fuel. try_execute_chunk E fuel s = Some (Err (e, s))))"
  using reached_inv [OF assms] by (auto simp: traces_inv_def try_execute_chunk_def)

lemma no_externs_dump: "dump_only_reads no_externs"
  unfolding dump_only_reads_def
proof (intro allI impI)
  fix s mem
  assume "dump_elf no_externs s = Some mem"
  then have "mem_ops_exec (map M_get []) (m_memory s) = Some mem"
    by (simp add: no_externs_def)
  then show "\<exists>addrs. mem_ops_exec (map M_get addrs) (m_memory s) = Some mem" ..
qed

lemma from_u32_HALT: "from_u32 0 = Some HALT"
  by code_simp

lemmas run_defs = new_with_limit_def halt_program_def insert_image_def try_execute_chunk_def is_done_def
  start_chunk_def trace_capacity_def new_buffer_def finish_chunk_def
  execute_instruction_def execute_instruction_supervisor_def fetch_def vec_get_def is_instruction_defs
  minimal_execute_ecall_def from_u32_HALT ecall_handler_def ecall_dispatch_def is_unconstrained_def
  try_then_def ctx_rr_def ctx_rw_def handle_ecall_special_cases_def stop_after_instruction_def
  post_instruction_update_def check_trace_buffer_exceeded_def num_mem_reads_def

text \<open>One chunk of the program that halts.\<close>

lemma halt_run:
  "\<exists>s b t. new_with_limit SupervisorMode halt_program (Some 100) None = Some s \<and>
     try_execute_chunk no_externs 1 s = Some (Ok (Some b, t)) \<and> m_pc t = 1 \<and> m_clk t = 265 \<and>
     h_clk_end b = 265 \<and> buf_reads b = [] \<and> m_traces t = None"
  by (simp add: run_defs limited_new_owned_def)

subsection \<open>The header of a chunk\<close>

definition same_header :: "MinimalExecutor \<Rightarrow> MinimalExecutor \<Rightarrow> bool" where
  "same_header s t \<longleftrightarrow>
    map_option (\<lambda>b. (h_start_registers b, h_pc_start b, h_clk_start b)) (m_traces t) =
    map_option (\<lambda>b. (h_start_registers b, h_pc_start b, h_clk_start b)) (m_traces s)"

interpretation header: step_relation E same_header
  by unfold_locales
    (auto simp: same_header_def same_frame_def trace_push_def trace_extend_def Let_def enter_unconstrained_def
      exit_unconstrained_def split: option.splits Option.bind_splits)

lemma start_chunk_header:
  "start_chunk s = Some s1 \<Longrightarrow> m_traces s = None \<Longrightarrow> m_traces s1 \<noteq> None \<Longrightarrow>
    \<exists>b. m_traces s1 = Some b \<and> h_start_registers b = m_registers s \<and> h_pc_start b = m_pc s \<and> h_clk_start b = m_clk s"
  by (auto simp: start_chunk_def Let_def split: if_splits Option.bind_splits)

lemma chunk_header:
  assumes "m_traces s = None" "try_execute_chunk E fuel s = Some (Ok (Some b, t))"
  shows "h_start_registers b = m_registers s \<and> h_pc_start b = m_pc s \<and> h_clk_start b = m_clk s \<and>
    h_clk_end b = m_clk t \<and> h_global_clk_end b = m_global_clk t \<and> m_traces t = None \<and>
    m_program t = m_program s \<and> m_mode t = m_mode s \<and> m_max_trace_size t = m_max_trace_size s"
  using assms(2)
proof (cases rule: executed_chunk)
  case (2 s1 s2)
  then obtain b2 where b2: "m_traces s2 = Some b2"
    "b = b2\<lparr>h_clk_end := m_clk s2, h_global_clk_end := m_global_clk s2\<rparr>" "t = s2\<lparr>m_traces := None\<rparr>"
    by (cases "m_traces s2") (auto simp: finish_chunk_def)
  have opts: "same_options s1 s2"
    by (rule options.chunk_loop_steps [OF 2(2)])
  then obtain b1 where b1: "m_traces s1 = Some b1" "h_start_registers b1 = m_registers s" "h_pc_start b1 = m_pc s"
    "h_clk_start b1 = m_clk s"
    using start_chunk_header [OF 2(1) assms(1)] b2(1) by (auto simp: same_options_def)
  have "same_header s1 s2"
    by (rule header.chunk_loop_steps [OF 2(2)])
  moreover have "m_program s1 = m_program s \<and> m_mode s1 = m_mode s \<and> m_max_trace_size s1 = m_max_trace_size s"
    by (subst start_chunk_traces [OF 2(1)], subst (2) start_chunk_traces [OF 2(1)],
        subst (3) start_chunk_traces [OF 2(1)]) simp
  ultimately show ?thesis
    using b1 b2 opts by (simp add: same_header_def same_options_def)
qed simp

text \<open>(C4) The header of a chunk describes the states at its two ends: the registers, the program
  counter and the clock at its start, and both clocks at its end. Hence consecutive chunks fit
  together: the next one starts at the clock where this one ends, with the program counter and the
  registers the executor has then. The program, the mode and the trace size do not change.\<close>

theorem chunks_fit_together:
  assumes "reached E s" "dump_only_reads E"
    "try_execute_chunk E fuel s = Some (Ok (Some b, t))" "try_execute_chunk E fuel' t = Some (Ok (Some b', u))"
  shows "h_start_registers b = m_registers s \<and> h_pc_start b = m_pc s \<and> h_clk_start b = m_clk s \<and>
    h_clk_end b = h_clk_start b' \<and> h_pc_start b' = m_pc t \<and> h_start_registers b' = m_registers t \<and>
    h_clk_end b' = m_clk u \<and> h_global_clk_end b' = m_global_clk u \<and>
    m_program u = m_program s \<and> m_mode u = m_mode s \<and> m_max_trace_size u = m_max_trace_size s"
proof -
  have "m_traces s = None"
    by (rule reached_no_trace [OF assms(1-3)])
  from chunk_header [OF this assms(3)] chunk_header [OF _ assms(4)] show ?thesis
    by simp
qed

text \<open>Two chunks of the program that loads a word: the first one is complete after the load, since it may
  hold a single read.\<close>

lemma first_word:
  "\<exists>m. limited_get_mut (limited_new_owned limit) 0x100 f = Some (default_MemValue, m) \<and> limited_inv m \<and>
     last_error m = (case limit of None \<Rightarrow> None | Some l \<Rightarrow> if 8 \<le> unat l then None else Some TooMuchMemory)"
proof -
  let ?new = "limited_new_owned limit"
  have new: "cow_bottom (lm_memory ?new) = None" "last_error ?new = None" "cow_abs (lm_memory ?new) = Map.empty"
    by (simp_all add: limited_new_owned_def cow_new_owned_def)
  have w: "word_addr 0x100"
    by (simp add: word_addr_def in_memory_def)
  with new have ok: "access_ok ?new 0x100"
    by (simp add: access_ok_def)
  obtain m where m: "limited_get_mut ?new 0x100 f = Some (default_MemValue, m)" "limited_inv m" "limit_step ?new m"
    by (rule limited_get_mut_abs [OF limited_inv_new ok, of f]) (simp add: new)
  show ?thesis
  proof (cases limit)
    case None
    with m have "last_error m = None"
      by (cases "limiter m") (simp_all add: limit_step_def limited_new_owned_def new_limiter_def)
    with m None show ?thesis by simp
  next
    case (Some l)
    have "unat (l div 8) = unat l div 8"
      by (simp add: unat_div)
    moreover have "limit_of (limiter ?new) = Some (l div 8)"
      by (simp add: Some limited_new_owned_def new_limiter_def)
    ultimately have "last_error m = (if 8 \<le> unat l then None else Some TooMuchMemory)"
      using mem_ops_exec_limit [OF limited_inv_new new(1) _ new(2), of "l div 8" "[M_get_mut 0x100 f]"] m(1) w new(3)
      by (simp add: Suc_le_eq div_greater_zero_iff)
    with m Some show ?thesis by simp
  qed
qed

lemma load_run:
  "\<exists>s b t b' u. new_with_limit SupervisorMode load_program (Some 1) None = Some s \<and>
     try_execute_chunk no_externs 1 s = Some (Ok (Some b, t)) \<and> try_execute_chunk no_externs 1 t = Some (Ok (Some b', u)) \<and>
     buf_reads b = [default_MemValue] \<and> buf_reads b' = [] \<and> h_clk_start b' = 9 \<and> m_pc u = 1"
proof -
  obtain m where m: "limited_get_mut (limited_new_owned None) 0x100 (\<lambda>v. v\<lparr>clk := 2\<rparr>) = Some (default_MemValue, m)"
    "last_error m = None"
    using first_word [of None "\<lambda>v. v\<lparr>clk := 2\<rparr>"] by auto
  have "last_error (limited_new_owned None) = None"
    by (simp add: limited_new_owned_def)
  then show ?thesis
    by (simp add: run_defs load_program_def m minimal_execute_load_def operand_view_defs from_u8_def 
        trace_push_constrained_def trace_push_def trace_extend_def load_value_def default_MemValue_def)
qed

theorem chunks_fit_together_witness:
  "\<exists>s b t b' u. new_with_limit SupervisorMode load_program (Some 1) None = Some s \<and>
     try_execute_chunk no_externs 1 s = Some (Ok (Some b, t)) \<and> try_execute_chunk no_externs 1 t = Some (Ok (Some b', u)) \<and>
     buf_reads b = [default_MemValue] \<and> h_clk_start b = m_clk s \<and> h_clk_end b = h_clk_start b' \<and> m_pc u = 1"
proof -
  obtain s b t b' u where run: "new_with_limit SupervisorMode load_program (Some 1) None = Some s"
    "try_execute_chunk no_externs 1 s = Some (Ok (Some b, t))" "try_execute_chunk no_externs 1 t = Some (Ok (Some b', u))"
    "buf_reads b = [default_MemValue]" "m_pc u = 1"
    using load_run by blast
  from chunks_fit_together [OF reached.new [OF run(1)] no_externs_dump run(2,3)] run show ?thesis
    by blast
qed

text \<open>With no room for a single word, the load fails, and leaves the trace of its chunk behind.\<close>

lemma failed_run:
  "\<exists>s t. new_with_limit SupervisorMode load_program (Some 100) (Some 0) = Some s \<and>
     try_execute_chunk no_externs 1 s = Some (Err (TooMuchMemory, t)) \<and> m_traces t \<noteq> None"
proof -
  obtain m where m: "limited_get_mut (limited_new_owned (Some 0)) 0x100 (\<lambda>v. v\<lparr>clk := 2\<rparr>) = Some (default_MemValue, m)"
    "last_error m = Some TooMuchMemory"
    using first_word [of "Some 0" "\<lambda>v. v\<lparr>clk := 2\<rparr>"] by auto
  have "last_error (limited_new_owned (Some 0)) = None"
    by (simp add: limited_new_owned_def)
  then show ?thesis
    by (simp add: run_defs load_program_def m minimal_execute_load_def operand_view_defs from_u8_def
        trace_push_constrained_def trace_push_def trace_extend_def load_value_def default_MemValue_def
        word_le_nat_alt)
qed

theorem executor_invariant_witness:
  "(\<exists>t. reached no_externs t \<and> m_pc t = 1 \<and> executor_inv t \<and> m_registers t 0 = 0 \<and> m_traces t = None) \<and>
   (\<exists>t. reached no_externs t \<and> m_traces t \<noteq> None \<and> executor_inv t \<and> m_registers t 0 = 0 \<and>
     (\<exists>e. \<forall>fuel. try_execute_chunk no_externs fuel t = Some (Err (e, t))))"
proof (rule conjI)
  obtain s b t where run: "new_with_limit SupervisorMode halt_program (Some 100) None = Some s"
    "try_execute_chunk no_externs 1 s = Some (Ok (Some b, t))" "m_pc t = 1" "m_traces t = None"
    using halt_run by blast
  have "reached no_externs t"
    by (rule reached.chunk [OF reached.new [OF run(1)] run(2)])
  from executor_invariant [OF this no_externs_dump] this run(3,4)
  show "\<exists>t. reached no_externs t \<and> m_pc t = 1 \<and> executor_inv t \<and> m_registers t 0 = 0 \<and> m_traces t = None"
    by blast
next
  obtain s t where run: "new_with_limit SupervisorMode load_program (Some 100) (Some 0) = Some s"
    "try_execute_chunk no_externs 1 s = Some (Err (TooMuchMemory, t))" "m_traces t \<noteq> None"
    using failed_run by blast
  have "reached no_externs t"
    by (rule reached.failed [OF reached.new [OF run(1)] run(2)])
  from executor_invariant [OF this no_externs_dump] this run(3)
  show "\<exists>t. reached no_externs t \<and> m_traces t \<noteq> None \<and> executor_inv t \<and> m_registers t 0 = 0 \<and>
      (\<exists>e. \<forall>fuel. try_execute_chunk no_externs fuel t = Some (Err (e, t)))"
    by blast
qed

subsection \<open>Memory errors\<close>

text \<open>Executing instructions as long as none of them completes the chunk or leaves an error.\<close>

fun instructions_run :: "externs \<Rightarrow> nat \<Rightarrow> MinimalExecutor \<Rightarrow> MinimalExecutor option" where
  "instructions_run E 0 s = Some s"
| "instructions_run E (Suc k) s = do {
     (stop, s1) \<leftarrow> execute_instruction E s;
     assert_that (\<not> stop \<and> last_error (m_memory s1) = None);
     instructions_run E k s1
   }"

lemma chunk_loop_error:
  assumes "chunk_loop E fuel s = Some (Err (e, u))"
  shows "\<exists>k t. k < fuel \<and> instructions_run E k s = Some t \<and> execute_instruction E t = Some (False, u) \<and>
    last_error (m_memory u) = Some e"
  using assms
proof (induction fuel arbitrary: s)
  case (Suc fuel)
  then obtain s1 where s1: "execute_instruction E s = Some (False, s1)"
    by (auto split: option.splits if_splits)
  show ?case
  proof (cases "last_error (m_memory s1)")
    case None
    with Suc.prems s1 have "chunk_loop E fuel s1 = Some (Err (e, u))"
      by simp
    from Suc.IH [OF this] obtain k t where "k < fuel" "instructions_run E k s1 = Some t"
      "execute_instruction E t = Some (False, u)" "last_error (m_memory u) = Some e"
      by blast
    with s1 None show ?thesis
      by (intro exI [of _ "Suc k"] exI [of _ t]) simp
  next
    case (Some err)
    with Suc.prems s1 show ?thesis
      by (intro exI [of _ 0] exI [of _ s]) simp
  qed
qed simp

text \<open>(C5) A chunk fails with a memory error exactly at the first instruction after which the memory has
  an error that did not complete the chunk: all the instructions before it left no error, and the state that
  the caller is left with is the one after that instruction. The error is final: every later instruction
  keeps it, and asking for another chunk returns it again, with the state unchanged.\<close>

theorem chunk_error_is_first:
  assumes "chunk_loop E fuel s = Some (Err (e, u))" "dump_only_reads E"
  shows "\<exists>k t. k < fuel \<and> instructions_run E k s = Some t \<and> execute_instruction E t = Some (False, u) \<and>
    last_error (m_memory u) = Some e \<and>
    (\<forall>stop v. execute_instruction E u = Some (stop, v) \<longrightarrow> last_error (m_memory v) = Some e) \<and>
    (\<forall>fuel. try_execute_chunk E fuel u = Some (Err (e, u)))"
proof -
  from chunk_loop_error [OF assms(1)] obtain k t where u: "k < fuel" "instructions_run E k s = Some t"
    "execute_instruction E t = Some (False, u)" "last_error (m_memory u) = Some e"
    by blast
  have "last_error (m_memory v) = Some e" if "execute_instruction E u = Some (stop, v)" for stop v
    using errors.execute_instruction_steps [of E u] that assms(2) u(4)
    by (simp add: steps_def keeps_error_def)
  moreover have "try_execute_chunk E fuel u = Some (Err (e, u))" for fuel
    using u(4) by (simp add: try_execute_chunk_def)
  ultimately show ?thesis
    using u by blast
qed

theorem chunk_error_is_first_witness:
  "\<exists>s t. new_with_limit SupervisorMode load_program None (Some 0) = Some s \<and>
     chunk_loop no_externs 1 s = Some (Err (TooMuchMemory, t)) \<and>
     try_execute_chunk no_externs 2 t = Some (Err (TooMuchMemory, t)) \<and> last_error (m_memory t) = Some TooMuchMemory"
proof -
  obtain m where m: "limited_get_mut (limited_new_owned (Some 0)) 0x100 (\<lambda>v. v\<lparr>clk := 2\<rparr>) = Some (default_MemValue, m)"
    "last_error m = Some TooMuchMemory"
    using first_word [of "Some 0" "\<lambda>v. v\<lparr>clk := 2\<rparr>"] by auto
  have "\<exists>s t. new_with_limit SupervisorMode load_program None (Some 0) = Some s \<and>
      chunk_loop no_externs 1 s = Some (Err (TooMuchMemory, t))"
    by (simp add: run_defs load_program_def m minimal_execute_load_def operand_view_defs from_u8_def
        trace_push_constrained_def trace_push_def load_value_def default_MemValue_def)
  then obtain s t where s: "new_with_limit SupervisorMode load_program None (Some 0) = Some s"
    "chunk_loop no_externs 1 s = Some (Err (TooMuchMemory, t))"
    by blast
  from chunk_error_is_first [OF s(2) no_externs_dump] s show ?thesis
    by blast
qed

subsection \<open>What is recorded\<close>

text \<open>(C6) Recording is append-only: while a chunk is executed, no read recorded before is lost or
  changed, and tracing is neither switched on nor off.\<close>

theorem recording_is_append_only:
  assumes "chunk_loop E fuel s = Some (Ok t)"
  shows "\<exists>vs. trace_reads t = trace_reads s @ vs \<and> (m_traces t = None \<longleftrightarrow> m_traces s = None)"
  using reads.chunk_loop_steps [OF assms] options.chunk_loop_steps [OF assms]
  by (auto simp: prefix_def same_options_def)

theorem recording_is_append_only_witness:
  "\<exists>s t. chunk_loop no_externs 1 s = Some (Ok t) \<and> trace_reads s = [] \<and> trace_reads t = [default_MemValue] \<and>
     prefix (trace_reads s) (trace_reads t)"
proof -
  obtain m where m: "limited_get_mut (limited_new_owned None) 0x100 (\<lambda>v. v\<lparr>clk := 2\<rparr>) = Some (default_MemValue, m)"
    using first_word [of None "\<lambda>v. v\<lparr>clk := 2\<rparr>"] by auto
  have "\<exists>s0 s t. new_with_limit SupervisorMode load_program (Some 1) None = Some s0 \<and> start_chunk s0 = Some s \<and>
      chunk_loop no_externs 1 s = Some (Ok t) \<and> trace_reads s = [] \<and> trace_reads t = [default_MemValue]"
    by (simp add: run_defs load_program_def m minimal_execute_load_def operand_view_defs from_u8_def
        trace_push_constrained_def trace_push_def trace_extend_def load_value_def default_MemValue_def
        trace_reads_def)
  then obtain s t where st: "chunk_loop no_externs 1 s = Some (Ok t)" "trace_reads s = []"
    "trace_reads t = [default_MemValue]"
    by blast
  have "prefix (trace_reads s) (trace_reads t)"
    using recording_is_append_only [OF st(1)] by (auto simp: prefix_def)
  with st show ?thesis
    by blast
qed

end
