(* ===== verification/Replay_Step.thy ===== *)
theory Replay_Step
  imports Replay_Ecall Minimal_Runs
begin

text \<open>
  One instruction of the minimal executor and the step of the core VM that replays it: \<open>boundary_step\<close>
  for the instructions the prover sees, and \<open>block_body\<close> for those of an unconstrained block, which the
  core VM passes over.
\<close>

subsection \<open>One instruction\<close>

text \<open>The instruction that an executor executes next, and when the core VM replays it: its operands have one
  of the forms the transpiler produces, in user mode its memory access is aligned, and a system call
  satisfies \<open>ecall_ok\<close> or enters an unconstrained block.\<close>

definition fetched :: "externs \<Rightarrow> MinimalExecutor \<Rightarrow> Instruction option" where
  "fetched E s = (case m_mode s of
      SupervisorMode \<Rightarrow> fetch (m_program s) (m_pc s)
    | UserMode \<Rightarrow> (case minimal_fetch (abi E) (process_instruction E)
          (s\<lparr>m_next_pc := m_pc s + PC_INC, m_next_clk := m_clk s + CLK_INC\<rparr>) of
        Some (Inr i, _) \<Rightarrow> Some i
      | _ \<Rightarrow> None))"

definition enters :: "MinimalExecutor \<Rightarrow> Instruction \<Rightarrow> bool" where
  "enters s i \<longleftrightarrow> is_ecall_instruction i \<and> from_u32 (ucast (ctx_rr s X5)) = Some ENTER_UNCONSTRAINED"

definition instruction_ok :: "ExecutionMode \<Rightarrow> MinimalExecutor \<Rightarrow> Instruction \<Rightarrow> bool" where
  "instruction_ok mode s i \<longleftrightarrow> \<not> (imm_b i \<and> \<not> imm_c i) \<and> (mode = UserMode \<longrightarrow> access_aligned s i) \<and>
    (is_ecall_instruction i \<longrightarrow> \<not> enters s i \<longrightarrow> ecall_ok mode s)"

definition simf :: "replay \<Rightarrow> u64 \<Rightarrow> MinimalExecutor option \<Rightarrow> (ExecutionError, CoreVM) outcome \<Rightarrow> bool" where
  "simf K k ms co \<longleftrightarrow> (\<forall>s. ms = Some s \<longrightarrow> prefix (trace_reads s) (chunk_reads K) \<longrightarrow>
     last_error (m_memory s) = None \<longrightarrow> (\<exists>c t. co = Ok c \<and> t \<in> {k + 8, k + 264} \<and> agrees_at K t s c))"

lemma simf_simi: "simi K (k + 8) ms co \<Longrightarrow> simf K k ms co"
  unfolding simi_def simf_def by blast

lemma simf_if:
  "(b \<Longrightarrow> simf K k m c) \<Longrightarrow> (\<not> b \<Longrightarrow> simf K k m' c') \<Longrightarrow> simf K k (if b then m else m') (if b then c else c')"
  by simp

lemma simf_None: "simf K k None co"
  by (simp add: simf_def)

lemma simf_ecall_supervisor:
  assumes ag: "agrees K (p, k + 8) (p, k + 8) s c" and "executor_inv s" and ok: "ecall_ok (replay_mode K) s"
    and mode: "replay_mode K = SupervisorMode"
  shows "simf K k (minimal_execute_ecall E s i) (core_ecall (abi E) c i)"
  unfolding simf_def
proof (intro allI impI)
  fix s'
  assume run: "minimal_execute_ecall E s i = Some s'" and pre: "prefix (trace_reads s') (chunk_reads K)"
    and err: "last_error (m_memory s') = None"
  have "from_u32 (ucast (ctx_rr s X5)) \<noteq> Some SIG_RETURN"
    using ok mode by (auto simp: ecall_ok_def)
  with run obtain u where run': "execute_ecall_user E s i = Some (Inr u, s')"
    by (auto simp: ecall_user_supervisor split: Option.bind_splits sum.splits)
  from sim_execute_ecall [OF assms(1-3), of E i] run' pre err obtain x c'
    where "core_execute_ecall (abi E) (core_runtime (abi E)) c i = Some (x, c')"
      "same_trap (Inr u :: Interrupt + unit) (ec_error x)" "agrees_at K (k + 8 + 256) s' c'"
    unfolding simr_def by fastforce
  then show "\<exists>c' t. core_ecall (abi E) c i = Ok c' \<and> t \<in> {k + 8, k + 264} \<and> agrees_at K t s' c'"
    by (auto simp: core_ecall_def core_trap_def same_trap_def add.assoc)
qed

lemma simf_supervisor:
  assumes ag: "agrees K (p, k + 8) (p, k + 8) s c" and "executor_inv s" "m_registers s 0 = 0"
    and ok: "instruction_ok (replay_mode K) s i" "\<not> enters s i" and mode: "replay_mode K = SupervisorMode"
  shows "simf K k
    (if is_alu_instruction i then minimal_execute_alu s i
       else if is_memory_load_instruction i then minimal_execute_load s i
       else if is_memory_store_instruction i then minimal_execute_store s i
       else if is_branch_instruction i then minimal_execute_branch s i
       else if is_jump_instruction i then minimal_execute_jump s i
       else if is_utype_instruction i then minimal_execute_utype s i
       else if is_ecall_instruction i then minimal_execute_ecall E s i
       else None)
    (core_instruction_supervisor (abi E) c i)"
  unfolding core_instruction_supervisor_def match_opcode_cases
  using ok
  by (intro simf_if simf_None simf_simi [OF simi_alu [OF ag assms(3)]] simf_simi [OF simi_load [OF ag assms(3)]]
      simf_simi [OF simi_store [OF ag assms(3)]] simf_simi [OF simi_branch [OF ag assms(3)]]
      simf_simi [OF simi_jump [OF ag assms(3)]] simf_simi [OF simi_utype [OF ag]]
      simf_ecall_supervisor [OF ag assms(2) _ mode])
    (simp_all add: instruction_ok_def)


text \<open>User mode. First what happens after a trap.\<close>

definition interrupted :: "u64 \<Rightarrow> Interrupt + unit \<Rightarrow> MinimalExecutor \<Rightarrow> MinimalExecutor option" where
  "interrupted original_clk r s1 = (case r of
      Inr _ \<Rightarrow> Some s1
    | Inl interrupt \<Rightarrow> do {
        s3 \<leftarrow> handle_interrupt (s1\<lparr>m_clk := original_clk\<rparr>) interrupt;
        Some (s3\<lparr>m_clk := m_clk s1\<rparr>)
      })"

lemma interrupted_prefix: "interrupted o' r s = Some t \<Longrightarrow> prefix (trace_reads s) (trace_reads t)"
  using reads.user_instruction_steps(3) [of "s\<lparr>m_clk := o'\<rparr>"]
  by (auto simp: interrupted_def steps_state_def split: sum.splits Option.bind_splits)

lemma interrupted_error: "interrupted o' r s = Some t \<Longrightarrow> last_error (m_memory t) = None \<Longrightarrow> last_error (m_memory s) = None"
  using errors.user_instruction_steps(3) [of no_externs "s\<lparr>m_clk := o'\<rparr>"] no_externs_dump
  by (cases "last_error (m_memory s)")
    (auto simp: interrupted_def steps_state_def keeps_error_def split: sum.splits Option.bind_splits)

lemma simf_interrupted:
  assumes "agrees_at K t s c" "same_trap r err" "t \<in> {k + 8, k + 264}"
  shows "simf K k (interrupted o' r s) (core_trap c err)"
proof (cases r)
  case (Inr u)
  with assms show ?thesis
    by (auto simp: interrupted_def core_trap_def same_trap_def simf_def)
next
  case (Inl i)
  from assms(1) obtain p where "agrees K (p, t) (p, t) (s\<lparr>m_clk := o'\<rparr>) c"
    by auto
  from simi_interrupt [OF this, of i] have *: "simi K t (handle_interrupt (s\<lparr>m_clk := o'\<rparr>) i)
      (core_trap c (Some (PagePermissionViolation (trap_code i))))" .
  show ?thesis
    unfolding simf_def
  proof (intro allI impI)
    fix s'
    assume "interrupted o' r s = Some s'" and pre: "prefix (trace_reads s') (chunk_reads K)"
    with Inl obtain s3 where "handle_interrupt (s\<lparr>m_clk := o'\<rparr>) i = Some s3" "s' = s3\<lparr>m_clk := m_clk s\<rparr>"
      by (auto simp: interrupted_def split: Option.bind_splits)
    with * pre obtain c' where "core_trap c (Some (PagePermissionViolation (trap_code i))) = Ok c'" "agrees_at K t s' c'"
      by (auto simp: simi_def)
    with Inl assms(2,3) show "\<exists>c' t. core_trap c err = Ok c' \<and> t \<in> {k + 8, k + 264} \<and> agrees_at K t s' c'"
      by (auto simp: same_trap_def)
  qed
qed

lemma simf_then_interrupted:
  assumes "simk K m (ok_of co) (\<lambda>r s x c. last_error (m_memory s) = None \<longrightarrow> same_trap r (err x) \<and> agrees_at K t s c)"
    "t \<in> {k + 8, k + 264}"
  shows "simf K k (Option.bind m (\<lambda>(r, s1). interrupted o' r s1)) (and_then co (\<lambda>(x, c1). core_trap c1 (err x)))"
  unfolding simf_def
proof (intro allI impI)
  fix s'
  assume run: "Option.bind m (\<lambda>(r, s1). interrupted o' r s1) = Some s'"
    and pre: "prefix (trace_reads s') (chunk_reads K)" and no_err: "last_error (m_memory s') = None"
  then obtain r s1 where s1: "m = Some (r, s1)" "interrupted o' r s1 = Some s'"
    by (auto split: Option.bind_splits)
  from interrupted_prefix [OF s1(2)] pre have "prefix (trace_reads s1) (chunk_reads K)"
    by (rule prefix_order.trans)
  with assms(1) s1(1) interrupted_error [OF s1(2) no_err] obtain x c1
    where c1: "co = Ok (x, c1)" "same_trap r (err x)" "agrees_at K t s1 c1"
    unfolding simr_def by fastforce
  from simf_interrupted [OF c1(3,2) assms(2), of o'] s1(2) pre no_err c1(1)
  show "\<exists>c t. and_then co (\<lambda>(x, c1). core_trap c1 (err x)) = Ok c \<and> t \<in> {k + 8, k + 264} \<and> agrees_at K t s' c"
    by (simp add: simf_def)
qed

lemma bind_if: "Option.bind (if b then m else m') f = (if b then Option.bind m f else Option.bind m' f)"
  by simp

lemma to_checked_interrupted: "Option.bind (to_checked m) (\<lambda>(r, s1). interrupted o' r s1) = m"
  by (cases m) (simp_all add: to_checked_def interrupted_def)

lemma simf_user:
  assumes ag: "agrees K (p, k + 8) (p, k + 8) s c" and "executor_inv s" "m_registers s 0 = 0"
    and ok: "instruction_ok (replay_mode K) s i" "\<not> enters s i" and mode: "replay_mode K = UserMode"
  shows "simf K k (Option.bind
    (if is_alu_instruction i then to_checked (minimal_execute_alu s i)
       else if is_memory_load_instruction i then execute_load_user (abi E) s i
       else if is_memory_store_instruction i then execute_store_user (abi E) s i
       else if is_branch_instruction i then to_checked (minimal_execute_branch s i)
       else if is_jump_instruction i then to_checked (minimal_execute_jump s i)
       else if is_utype_instruction i then to_checked (minimal_execute_utype s i)
       else if is_ecall_instruction i then execute_ecall_user E s i
       else None) (\<lambda>(r, s1). interrupted o' r s1))
    (core_instruction_user (abi E) c i)"
proof -
  have al: "access_aligned s i"
    using ok mode by (simp add: instruction_ok_def)
  have load: "simf K k (Option.bind (execute_load_user (abi E) s i) (\<lambda>(r, s1). interrupted o' r s1))
      (and_then (core_execute_load_user (abi E) c i) (\<lambda>(r, c1). core_trap c1 (ld_error r)))"
    if "is_memory_load_instruction i"
    by (rule simf_then_interrupted, rule simr_weaken [OF sim_load_user [OF ag assms(3) mode al]])
      (use that in \<open>auto simp: is_instruction_defs is_load_def\<close>)
  have store: "simf K k (Option.bind (execute_store_user (abi E) s i) (\<lambda>(r, s1). interrupted o' r s1))
      (and_then (core_execute_store_user (abi E) c i) (\<lambda>(r, c1). core_trap c1 (st_error r)))"
    if "is_memory_store_instruction i"
    by (rule simf_then_interrupted, rule simr_weaken [OF sim_store_user [OF ag assms(3) mode al]])
      (use that in \<open>auto simp: is_instruction_defs is_store_def\<close>)
  have ecall: "simf K k (Option.bind (execute_ecall_user E s i) (\<lambda>(r, s1). interrupted o' r s1)) (core_ecall (abi E) c i)"
    if "ecall_ok (replay_mode K) s"
    unfolding core_ecall_def
    by (rule simf_then_interrupted, unfold ok_of_simps, rule simr_weaken [OF sim_execute_ecall [OF ag assms(2) that]])
      (auto simp: mode add.assoc)
  show ?thesis
    unfolding core_instruction_user_def match_opcode_cases bind_if to_checked_interrupted
    using ok
    by (intro simf_if simf_None simf_simi [OF simi_alu [OF ag assms(3)]] load store
        simf_simi [OF simi_branch [OF ag assms(3)]] simf_simi [OF simi_jump [OF ag assms(3)]]
        simf_simi [OF simi_utype [OF ag]] ecall)
      (simp_all add: instruction_ok_def simf_None)
qed

text \<open>The state in which an instruction is executed.\<close>

abbreviation before :: "MinimalExecutor \<Rightarrow> MinimalExecutor" where
  "before s \<equiv> s\<lparr>m_next_pc := m_pc s + PC_INC, m_next_clk := m_clk s + CLK_INC\<rparr>"

text \<open>An instruction of each machine up to the update at its end.\<close>

definition minimal_body :: "externs \<Rightarrow> MinimalExecutor \<Rightarrow> MinimalExecutor option" where
  "minimal_body E s = (case m_mode s of
      SupervisorMode \<Rightarrow> do {
        i \<leftarrow> fetch (m_program s) (m_pc s);
        (if is_alu_instruction i then minimal_execute_alu (before s) i
         else if is_memory_load_instruction i then minimal_execute_load (before s) i
         else if is_memory_store_instruction i then minimal_execute_store (before s) i
         else if is_branch_instruction i then minimal_execute_branch (before s) i
         else if is_jump_instruction i then minimal_execute_jump (before s) i
         else if is_utype_instruction i then minimal_execute_utype (before s) i
         else if is_ecall_instruction i then minimal_execute_ecall E (before s) i
         else None)
      }
    | UserMode \<Rightarrow> do {
        (r, s1) \<leftarrow> try_then (minimal_fetch (abi E) (process_instruction E) (before s)) (\<lambda>i s1.
          if is_alu_instruction i then to_checked (minimal_execute_alu s1 i)
          else if is_memory_load_instruction i then execute_load_user (abi E) s1 i
          else if is_memory_store_instruction i then execute_store_user (abi E) s1 i
          else if is_branch_instruction i then to_checked (minimal_execute_branch s1 i)
          else if is_jump_instruction i then to_checked (minimal_execute_jump s1 i)
          else if is_utype_instruction i then to_checked (minimal_execute_utype s1 i)
          else if is_ecall_instruction i then execute_ecall_user E s1 i
          else None);
        interrupted (m_clk s) r s1
      })"

lemma execute_instruction_body: "execute_instruction E s = Option.bind (minimal_body E s) stop_after_instruction"
  by (cases "m_mode s")
    (simp_all add: execute_instruction_def execute_instruction_supervisor_def execute_instruction_user_def
      minimal_body_def Let_def interrupted_def case_prod_unfold cong: sum.case_cong)

definition core_body :: "elf_abi \<Rightarrow> (u32 \<Rightarrow> Instruction option) \<Rightarrow> CoreVM \<Rightarrow> (ExecutionError, CoreVM) outcome" where
  "core_body e decode c = (case c_mode c of
      SupervisorMode \<Rightarrow> and_then (unwrap (core_fetch_supervisor c)) (core_instruction_supervisor e c)
    | UserMode \<Rightarrow> and_then (core_fetch_user e decode c) (\<lambda>(f, c1).
        (case fetch_error f of
          Some err \<Rightarrow> core_trap c1 (Some err)
        | None \<Rightarrow> and_then (unwrap (fetch_instruction f)) (core_instruction_user e c1))))"

lemma and_then_assoc: "and_then (and_then m f) g = and_then m (\<lambda>x. and_then (f x) g)"
  by (cases m) simp_all

lemma core_step_body: "core_step e decode c = and_then (core_body e decode c) (\<lambda>c1. Ok (advance c1))"
proof (cases "c_mode c")
  case SupervisorMode
  then show ?thesis
    by (simp add: core_step_def core_body_def and_then_assoc)
next
  case UserMode
  have arms: "(case fetch_error f of
      Some err \<Rightarrow> and_then (core_handle_error c1 err) (\<lambda>(_, c2). Ok (advance c2))
    | None \<Rightarrow> and_then (unwrap (fetch_instruction f)) (\<lambda>i.
        and_then (core_instruction_user e c1 i) (\<lambda>c2. Ok (advance c2)))) =
    and_then (case fetch_error f of
        Some err \<Rightarrow> core_trap c1 (Some err)
      | None \<Rightarrow> and_then (unwrap (fetch_instruction f)) (core_instruction_user e c1)) (\<lambda>c1. Ok (advance c1))" for f c1
    by (cases "fetch_error f") (simp_all add: core_trap_def and_then_assoc case_prod_unfold)
  show ?thesis
    by (simp only: core_step_def core_body_def UserMode ExecutionMode.case and_then_assoc arms)
      (simp only: case_prod_unfold and_then_assoc arms)
qed

text \<open>The dispatch of user mode, for the instruction that was fetched.\<close>

definition user_dispatch :: "externs \<Rightarrow> Instruction \<Rightarrow> MinimalExecutor \<Rightarrow> unit checked" where
  "user_dispatch E i s1 =
    (if is_alu_instruction i then to_checked (minimal_execute_alu s1 i)
     else if is_memory_load_instruction i then execute_load_user (abi E) s1 i
     else if is_memory_store_instruction i then execute_store_user (abi E) s1 i
     else if is_branch_instruction i then to_checked (minimal_execute_branch s1 i)
     else if is_jump_instruction i then to_checked (minimal_execute_jump s1 i)
     else if is_utype_instruction i then to_checked (minimal_execute_utype s1 i)
     else if is_ecall_instruction i then execute_ecall_user E s1 i
     else None)"

lemma grows_user_dispatch: "grows s (user_dispatch E i s)"
  unfolding user_dispatch_def
  by (rule reads.steps_if reads.steps_None reads.user_instruction_steps(1,2) reads.execute_ecall_steps(2)
      reads.instruction_steps [THEN reads.steps_to_checked])+

lemma ok_registers:
  assumes "m_registers t = m_registers s"
  shows "instruction_ok mode t i = instruction_ok mode s i" "enters t i = enters s i"
proof -
  have "ctx_rr t = ctx_rr s"
    using assms by (simp add: ctx_rr_def fun_eq_iff)
  then show "instruction_ok mode t i = instruction_ok mode s i" "enters t i = enters s i"
    by (simp_all only: instruction_ok_def enters_def access_aligned_def ecall_ok_def)
qed

lemma ok_before [simp]: "instruction_ok mode (before s) i = instruction_ok mode s i" "enters (before s) i = enters s i"
  by (rule ok_registers; simp)+

lemma simf_user_body:
  assumes ag: "agrees K (p, k + 8) (p, k + 8) s c" and inv: "executor_inv s" "m_registers s 0 = 0"
    and ok: "\<And>i t. minimal_fetch (abi E) (process_instruction E) s = Some (Inr i, t) \<Longrightarrow>
      instruction_ok (replay_mode K) s i \<and> \<not> enters s i"
    and dec: "decoder K = process_instruction E" and mode: "replay_mode K = UserMode"
  shows "simf K k
    (Option.bind (try_then (minimal_fetch (abi E) (process_instruction E) s) (user_dispatch E))
      (\<lambda>(r, s1). interrupted o' r s1))
    (and_then (core_fetch_user (abi E) (process_instruction E) c) (\<lambda>(f, c1).
        (case fetch_error f of
          Some err \<Rightarrow> core_trap c1 (Some err)
        | None \<Rightarrow> and_then (unwrap (fetch_instruction f)) (core_instruction_user (abi E) c1))))"
  unfolding simf_def
proof (intro allI impI)
  fix s'
  assume run: "Option.bind (try_then (minimal_fetch (abi E) (process_instruction E) s) (user_dispatch E))
      (\<lambda>(r, s1). interrupted o' r s1) = Some s'"
    and pre: "prefix (trace_reads s') (chunk_reads K)" and err: "last_error (m_memory s') = None"
  then obtain r0 s1 where f: "minimal_fetch (abi E) (process_instruction E) s = Some (r0, s1)"
    by (auto simp: try_then_def split: Option.bind_splits)
  have grows: "prefix (trace_reads s1) (trace_reads s')"
    using run f grows_user_dispatch [of s1 E] interrupted_prefix
    by (auto simp: try_then_def steps_def split: Option.bind_splits sum.splits) (blast intro: prefix_order.trans)
  then have "prefix (trace_reads s1) (chunk_reads K)"
    using pre by (rule prefix_order.trans)
  with sim_fetch_user [OF ag mode dec, of "abi E"] f obtain fr c1
    where c1: "core_fetch_user (abi E) (process_instruction E) c = Ok (fr, c1)" "same_trap r0 (fetch_error fr)"
      "agrees K (p, k + 8) (p, k + 8) s1 c1" "m_registers s1 = m_registers s"
      "case r0 of Inr i \<Rightarrow> fetch_instruction fr = Some i | Inl _ \<Rightarrow> True"
    unfolding simr_def by fastforce
  have inv1: "executor_inv s1"
    using invariant.user_instruction_steps(4) [of no_externs s "abi E" "process_instruction E"] f inv(1) no_externs_dump
    by (simp add: steps_def)
  show "\<exists>c' t. and_then (core_fetch_user (abi E) (process_instruction E) c) (\<lambda>(f, c1).
        (case fetch_error f of
          Some err \<Rightarrow> core_trap c1 (Some err)
        | None \<Rightarrow> and_then (unwrap (fetch_instruction f)) (core_instruction_user (abi E) c1))) = Ok c' \<and>
      t \<in> {k + 8, k + 264} \<and> agrees_at K t s' c'"
  proof (cases r0)
    case (Inl i)
    have "simf K k (interrupted o' (Inl i) s1) (core_trap c1 (fetch_error fr))"
      by (rule simf_interrupted) (use Inl c1 in \<open>auto simp: same_trap_def\<close>)
    with run f Inl pre err c1 show ?thesis
      by (simp add: try_then_def simf_def same_trap_def)
  next
    case (Inr i)
    have "simf K k (Option.bind (user_dispatch E i s1) (\<lambda>(r, s1). interrupted o' r s1)) (core_instruction_user (abi E) c1 i)"
      unfolding user_dispatch_def
      by (rule simf_user [OF c1(3) inv1]) (use c1(4) inv(2) ok f Inr mode ok_registers [OF c1(4)] in auto)
    with run f Inr pre err c1 show ?thesis
      by (simp add: try_then_def simf_def same_trap_def)
  qed
qed

lemma simf_body:
  assumes ag: "agrees K (p, k + 8) (p, k + 8) (before s) c" and inv: "executor_inv s" "m_registers s 0 = 0"
    and ok: "\<And>i. fetched E s = Some i \<Longrightarrow> instruction_ok (replay_mode K) s i \<and> \<not> enters s i"
    and dec: "decoder K = process_instruction E"
  shows "simf K k (minimal_body E s) (core_body (abi E) (process_instruction E) c)"
proof -
  have same: "m_mode s = replay_mode K" "c_mode c = replay_mode K" "c_program c = m_program s" "c_pc c = m_pc s"
    using ag by (simp_all add: agrees_def)
  have inv0: "executor_inv (before s)" "m_registers (before s) 0 = 0"
    using inv by (simp_all add: executor_inv_def)
  show ?thesis
  proof (cases "replay_mode K")
    case SupervisorMode
    then show ?thesis
      using simf_supervisor [OF ag inv0 _ _ SupervisorMode, of _ E] ok same
      by (cases "fetch (m_program s) (m_pc s)")
        (simp_all add: minimal_body_def core_body_def core_fetch_supervisor_def fetched_def simf_None)
  next
    case UserMode
    have "simf K k
        (Option.bind (try_then (minimal_fetch (abi E) (process_instruction E) (before s)) (user_dispatch E))
          (\<lambda>(r, s1). interrupted (m_clk s) r s1))
        (core_body (abi E) (process_instruction E) c)"
      unfolding core_body_def same(2) UserMode ExecutionMode.case
      by (rule simf_user_body [OF ag inv0 _ dec UserMode]) (use ok same UserMode in \<open>auto simp: fetched_def\<close>)
    then show ?thesis
      unfolding minimal_body_def same(1) UserMode ExecutionMode.case user_dispatch_def [abs_def] .
  qed
qed

subsection \<open>Between two instructions\<close>

definition boundary :: "replay \<Rightarrow> MinimalExecutor \<Rightarrow> CoreVM \<Rightarrow> bool" where
  "boundary K s c \<longleftrightarrow> m_registers s 0 = 0 \<and> c_clk c = m_clk s \<and>
    (\<exists>n. agrees K n (m_pc s + PC_INC, m_clk s + CLK_INC) s c)"

lemma boundary_before:
  assumes "boundary K s c"
  shows "agrees K (m_pc s + PC_INC, m_clk s + 8) (m_pc s + PC_INC, m_clk s + 8) (before s) c"
proof -
  from assms obtain p t where "agrees K (p, t) (m_pc s + PC_INC, m_clk s + CLK_INC) s c"
    by (auto simp: boundary_def)
  from agrees_next_pc(3) [OF agrees_next_pc(1) [OF this]] show ?thesis
    by simp
qed

lemma boundary_after:
  assumes "agrees K (p, t) (p, t) s c"
  shows "boundary K (post_instruction_update s) (snd (advance c)) \<and> m_clk (post_instruction_update s) = t \<and>
    m_pc (post_instruction_update s) = p"
  using assms by (auto simp: boundary_def agrees_def post_instruction_update_def advance_def Let_def trace_reads_def)

lemma stop_after_state: "stop_after_instruction s = Some (stop, t) \<Longrightarrow> t = post_instruction_update s"
  by (auto simp: stop_after_instruction_def Let_def split: Option.bind_splits)

lemma stop_after_memory [simp]: "m_memory (post_instruction_update s) = m_memory s"
  "trace_reads (post_instruction_update s) = trace_reads s"
  "m_maybe_unconstrained (post_instruction_update s) = m_maybe_unconstrained s"
  by (simp_all add: post_instruction_update_def trace_reads_def)

lemma boundary_step:
  assumes b: "boundary K s c" and inv: "executor_inv s"
    and ok: "\<And>i. fetched E s = Some i \<Longrightarrow> instruction_ok (replay_mode K) s i \<and> \<not> enters s i"
    and dec: "decoder K = process_instruction E"
    and run: "execute_instruction E s = Some (stop, s1)"
    and pre: "prefix (trace_reads s1) (chunk_reads K)" and err: "last_error (m_memory s1) = None"
  shows "\<exists>c1. core_step (abi E) (process_instruction E) c = Ok (advance c1) \<and> boundary K s1 (snd (advance c1)) \<and>
    m_clk s1 \<in> {m_clk s + 8, m_clk s + 264}"
proof -
  from run obtain s' where s': "minimal_body E s = Some s'" "stop_after_instruction s' = Some (stop, s1)"
    by (auto simp: execute_instruction_body split: Option.bind_splits)
  note s1 = stop_after_state [OF s'(2)]
  have "m_registers s 0 = 0"
    using b by (simp add: boundary_def)
  from simf_body [OF boundary_before [OF b] inv this ok dec] s' pre err s1 obtain c1 t
    where "core_body (abi E) (process_instruction E) c = Ok c1" "t \<in> {m_clk s + 8, m_clk s + 264}" "agrees_at K t s' c1"
    unfolding simf_def by auto
  with boundary_after s1 show ?thesis
    by (auto simp: core_step_body)
qed

subsection \<open>Unconstrained blocks\<close>

text \<open>The core VM passes over a block with the step that replays the entry. \<open>exited\<close> is the state that the
  minimal executor will have after the block.\<close>

definition exited :: "UnconstrainedCtx \<Rightarrow> MinimalExecutor \<Rightarrow> MinimalExecutor" where
  "exited u s = s\<lparr>m_registers := (u_registers u)(5 := 0, 0 := 0), m_pc := u_pc u + PC_INC,
     m_clk := u_clk u + (CLK_INC + 256), m_maybe_unconstrained := None\<rparr>"

definition in_block :: "replay \<Rightarrow> MinimalExecutor \<Rightarrow> CoreVM \<Rightarrow> bool" where
  "in_block K s c \<longleftrightarrow> (\<exists>u. m_maybe_unconstrained s = Some u \<and> boundary K (exited u s) c)"

text \<open>What the instructions in a block leave alone.\<close>

definition block_same :: "MinimalExecutor \<Rightarrow> MinimalExecutor \<Rightarrow> bool" where
  "block_same s t \<longleftrightarrow> m_maybe_unconstrained t = m_maybe_unconstrained s \<and> m_exit_code t = m_exit_code s \<and>
    m_public_value_digest t = m_public_value_digest s \<and>
    (m_maybe_unconstrained s \<noteq> None \<longrightarrow> m_traces t = m_traces s) \<and>
    m_decoded_instruction_cache t = m_decoded_instruction_cache s"

lemma block_same_trans: "block_same s t \<Longrightarrow> block_same t u \<Longrightarrow> block_same s u"
  by (simp add: block_same_def)

lemma block_push: "trace_push_constrained s v = Some t \<Longrightarrow> block_same s t"
  by (auto simp: block_same_def trace_push_constrained_def trace_push_def split: if_splits option.splits Option.bind_splits)

lemma block_instructions:
  "minimal_execute_alu s i = Some t \<Longrightarrow> block_same s t" "minimal_execute_branch s i = Some t \<Longrightarrow> block_same s t"
  "minimal_execute_jump s i = Some t \<Longrightarrow> block_same s t" "minimal_execute_utype s i = Some t \<Longrightarrow> block_same s t"
  by (auto simp: minimal_execute_alu_def minimal_execute_branch_def minimal_execute_jump_def minimal_execute_utype_def
      reg_set_def ctx_rw_def block_same_def Let_def split: Option.bind_splits if_splits)

lemma block_load: "minimal_execute_load s i = Some t \<Longrightarrow> block_same s t"
  by (auto simp: minimal_execute_load_def ctx_rw_def Let_def split: Option.bind_splits
      dest!: block_push) (simp_all add: block_same_def)

lemma block_store: "minimal_execute_store s i = Some t \<Longrightarrow> block_same s t"
  by (auto simp: minimal_execute_store_def mem_read_untracked_def Let_def split: Option.bind_splits
      dest!: block_push) (simp_all add: block_same_def)

lemma block_prot_check: "minimal_prot_check e s a bm k = Some (r, t) \<Longrightarrow> block_same s t"
  by (auto simp: minimal_prot_check_def minimal_pr_def Let_def split: Option.bind_splits prod.splits option.splits
      dest!: block_push) (simp_all add: block_same_def)

lemma block_write: "minimal_write E s a b = Some (r, t) \<Longrightarrow> block_same s t"
  by (auto simp: minimal_write_def ctx_mr_slice_no_trace_def Let_def block_same_def split: Option.bind_splits if_splits)


text \<open>The instruction that leaves the block.\<close>

definition leaves :: "UnconstrainedCtx \<Rightarrow> MinimalExecutor \<Rightarrow> MinimalExecutor \<Rightarrow> bool" where
  "leaves u s t \<longleftrightarrow> m_maybe_unconstrained t = None \<and> m_registers t = (u_registers u)(5 := 0) \<and>
    m_next_pc t = u_pc u + PC_INC \<and> m_next_clk t = u_clk u + (CLK_INC + 256) \<and>
    m_exit_code t = m_exit_code s \<and> m_public_value_digest t = m_public_value_digest s \<and> m_traces t = m_traces s \<and>
    m_decoded_instruction_cache t = m_decoded_instruction_cache s"

lemma block_handler:
  assumes "m_maybe_unconstrained s = Some u" "ecall_handler E s code = Some (r, t)"
  shows "code = WRITE \<and> block_same s t \<or>
    code = EXIT_UNCONSTRAINED \<and> r = Inr 0 \<and> exit_unconstrained s = Some t"
proof -
  from assms have "code = WRITE \<or> code = EXIT_UNCONSTRAINED"
    by (auto simp: ecall_handler_def is_unconstrained_def Let_def split: Option.bind_splits)
  then show ?thesis
  proof
    assume code: "code = WRITE"
    with assms(2) obtain r0 where "minimal_write E s (ctx_rr s X10) (ctx_rr s X11) = Some (r0, t)"
      by (auto simp: ecall_handler_def ecall_dispatch_def try_then_def Let_def split: Option.bind_splits sum.splits)
    with code block_write show ?thesis
      by blast
  next
    assume "code = EXIT_UNCONSTRAINED"
    with assms(2) show ?thesis
      by (auto simp: ecall_handler_def ecall_dispatch_def try_then_def Let_def split: Option.bind_splits)
  qed
qed

lemma leaves_exit:
  assumes "m_maybe_unconstrained s = Some u" "exit_unconstrained s = Some t"
  shows "leaves u s (handle_ecall_special_cases (ctx_rw t X5 0) EXIT_UNCONSTRAINED)"
  using assms by (auto simp: exit_unconstrained_def leaves_def handle_ecall_special_cases_def ctx_rw_def
      split: Option.bind_splits)

lemma block_ecall:
  assumes "m_maybe_unconstrained s = Some u"
  shows "minimal_execute_ecall E s i = Some t \<Longrightarrow> block_same s t \<or> leaves u s t"
    "execute_ecall_user E s i = Some (r, t) \<Longrightarrow> block_same s t \<or> r = Inr () \<and> leaves u s t"
proof -
  have wr: "block_same s (handle_ecall_special_cases (ctx_rw t X5 v) WRITE)" if "block_same (s\<lparr>m_next_clk := k\<rparr>) t" for k t v
    using that by (simp add: block_same_def handle_ecall_special_cases_def ctx_rw_def)
  show "block_same s t \<or> leaves u s t" if run: "minimal_execute_ecall E s i = Some t"
  proof -
    from run obtain code r s2 where 1: "ecall_handler E (if code \<noteq> EXIT_UNCONSTRAINED then s\<lparr>m_next_clk := m_next_clk s + 256\<rparr> else s) code = Some (Inr r, s2)"
      "t = handle_ecall_special_cases (ctx_rw s2 X5 r) code"
      by (auto simp: minimal_execute_ecall_def Let_def split: Option.bind_splits sum.splits)
    have "m_maybe_unconstrained (if code \<noteq> EXIT_UNCONSTRAINED then s\<lparr>m_next_clk := m_next_clk s + 256\<rparr> else s) = Some u"
      using assms by simp
    from block_handler [OF this 1(1)] 1(2) wr leaves_exit [OF assms] show ?thesis
      by auto
  qed
  show "block_same s t \<or> r = Inr () \<and> leaves u s t" if run: "execute_ecall_user E s i = Some (r, t)"
  proof -
    from run obtain code where code: "from_u32 (ucast (ctx_rr s X5)) = Some code"
      by (auto simp: execute_ecall_user_def split: Option.bind_splits)
    have False if "code = SIG_RETURN"
    proof -
      from run code that obtain v s1 r0 s2 where 1: "ctx_mr_without_prot s (ctx_rr s X10) = Some (v, s1)"
        "ecall_handler E (s1\<lparr>m_next_pc := v, m_next_clk := m_next_clk s1 + 256\<rparr>) SIG_RETURN = Some (r0, s2)"
        by (auto simp: execute_ecall_user_def try_then_def Let_def split: Option.bind_splits)
      then have "m_maybe_unconstrained (s1\<lparr>m_next_pc := v, m_next_clk := m_next_clk s1 + 256\<rparr>) = Some u"
        using assms by (auto simp: ctx_mr_without_prot_def trace_push_def split: Option.bind_splits option.splits)
      from block_handler [OF this 1(2)] show False
        by simp
    qed
    then have ne: "code \<noteq> SIG_RETURN"
      by blast
    let ?s = "if code \<noteq> EXIT_UNCONSTRAINED then s\<lparr>m_next_clk := m_next_clk s + 256\<rparr> else s"
    from run code ne obtain r0 s2 where h: "ecall_handler E ?s code = Some (r0, s2)"
      and t: "(case r0 of Inl i \<Rightarrow> (Inl i, s2) | Inr v \<Rightarrow> (Inr (), handle_ecall_special_cases (ctx_rw s2 X5 v) code)) = (r, t)"
      by (auto simp: execute_ecall_user_def try_then_def Let_def split: Option.bind_splits sum.splits)
    have "m_maybe_unconstrained ?s = Some u"
      using assms by simp
    from block_handler [OF this h] show ?thesis
    proof (elim disjE conjE)
      assume c: "code = WRITE" "block_same ?s s2"
      show ?thesis
        using t c wr [of "m_next_clk s + 256" s2] by (auto simp: block_same_def split: sum.splits)
    next
      assume "code = EXIT_UNCONSTRAINED" "r0 = Inr 0" "exit_unconstrained ?s = Some s2"
      with t leaves_exit [OF assms] show ?thesis
        by auto
    qed
  qed
qed

text \<open>An instruction in a block, up to the traps and the cache of decoded instructions.\<close>

definition block_instr :: "(u32 \<Rightarrow> Instruction option) \<Rightarrow> MinimalExecutor \<Rightarrow> MinimalExecutor \<Rightarrow> bool" where
  "block_instr p s t \<longleftrightarrow> m_maybe_unconstrained t = m_maybe_unconstrained s \<and> m_exit_code t = m_exit_code s \<and>
    m_public_value_digest t = m_public_value_digest s \<and>
    (m_decoded_instruction_cache s \<subseteq>\<^sub>m p \<longrightarrow> m_decoded_instruction_cache t \<subseteq>\<^sub>m p)"

lemma block_instr_trans: "block_instr p s t \<Longrightarrow> block_instr p t u \<Longrightarrow> block_instr p s u"
  by (simp add: block_instr_def)

lemma block_same_instr: "block_same s t \<Longrightarrow> block_instr p s t"
  by (simp add: block_same_def block_instr_def)

lemma block_instr_before [simp]: "block_instr p (before s) t = block_instr p s t"
  by (simp add: block_instr_def)

lemma map_le_insert: "f \<subseteq>\<^sub>m g \<Longrightarrow> g x = Some y \<Longrightarrow> f(x \<mapsto> y) \<subseteq>\<^sub>m g"
  by (simp add: map_le_def)

lemma block_fetch: "minimal_fetch e p s = Some (r, t) \<Longrightarrow> block_instr p s t"
proof (cases "fetch (m_program s) (m_pc s)")
  case None
  assume run: "minimal_fetch e p s = Some (r, t)"
  then obtain r1 s1 where s1: "minimal_prot_check e s (m_pc s AND NOT 7) (PROT_READ e OR PROT_EXEC e) 0 = Some (r1, s1)"
    "t = s1 \<or> fetch_word p (m_pc s AND NOT 7) s1 = Some (r, t)"
    by (auto simp: minimal_fetch_word [OF None] try_then_def split: Option.bind_splits sum.splits)
  have "block_instr p s1 t" if "fetch_word p w s1 = Some (r, t)" for w
  proof -
    from that obtain s2 mem v w' where 2: "trace_push_constrained (s1\<lparr>m_memory := mem\<rparr>) v = Some s2" "decoded p w' s2 = Some (r, t)"
      by (auto simp: fetch_word_def split: Option.bind_splits)
    from 2(2) have "block_instr p s2 t"
      by (auto simp: decoded_def block_instr_def map_le_insert split: option.splits Option.bind_splits)
    moreover have "block_instr p s1 s2"
      using block_same_instr [OF block_push [OF 2(1)], of p] by (simp add: block_instr_def)
    ultimately show ?thesis
      by (blast intro: block_instr_trans)
  qed
  with s1(2) block_same_instr [OF block_prot_check [OF s1(1)], of p] show ?thesis
    by (auto intro: block_instr_trans)
next
  case (Some i)
  moreover assume "minimal_fetch e p s = Some (r, t)"
  ultimately show ?thesis
    by (simp add: minimal_fetch_def block_instr_def)
qed

lemma block_interrupted: "interrupted o' r s = Some t \<Longrightarrow> block_instr p s t"
  by (auto simp: interrupted_def handle_interrupt_def ctx_mr_without_prot_def ctx_mw_without_prot_def trace_push_def
      block_instr_def Let_def split: sum.splits Option.bind_splits option.splits)

lemma block_user_access:
  "execute_load_user e s i = Some (r, t) \<Longrightarrow> block_same s t" "execute_store_user e s i = Some (r, t) \<Longrightarrow> block_same s t"
  by (auto simp: execute_load_user_def execute_store_user_def try_then_def Let_def
      split: Option.bind_splits sum.splits dest!: block_prot_check block_load block_store) (blast intro: block_same_trans)+

lemma block_dispatch:
  assumes "m_maybe_unconstrained s = Some u" "user_dispatch E i s = Some (r, t)"
  shows "block_same s t \<or> r = Inr () \<and> leaves u s t"
  using assms(2) block_ecall(2) [OF assms(1)]
  by (auto simp: user_dispatch_def to_checked_def split: if_splits Option.bind_splits
      dest: block_instructions block_load block_store block_user_access)

text \<open>A whole instruction in a block. In supervisor mode it records nothing.\<close>

definition left :: "(u32 \<Rightarrow> Instruction option) \<Rightarrow> UnconstrainedCtx \<Rightarrow> MinimalExecutor \<Rightarrow> MinimalExecutor \<Rightarrow> bool" where
  "left p u s t \<longleftrightarrow> m_maybe_unconstrained t = None \<and> m_registers t = (u_registers u)(5 := 0) \<and>
    m_next_pc t = u_pc u + PC_INC \<and> m_next_clk t = u_clk u + (CLK_INC + 256) \<and>
    m_exit_code t = m_exit_code s \<and> m_public_value_digest t = m_public_value_digest s \<and>
    (m_decoded_instruction_cache s \<subseteq>\<^sub>m p \<longrightarrow> m_decoded_instruction_cache t \<subseteq>\<^sub>m p)"

lemma leaves_left: "block_instr p s s1 \<Longrightarrow> leaves u s1 t \<Longrightarrow> left p u s t"
  by (simp add: block_instr_def leaves_def left_def)

lemma block_supervisor:
  assumes u: "m_maybe_unconstrained s = Some u" and mode: "m_mode s = SupervisorMode" and run: "minimal_body E s = Some t"
  shows "block_same s t \<or> leaves u s t"
proof -
  have u': "m_maybe_unconstrained (before s) = Some u"
    using u by simp
  have "block_same (before s) t \<or> leaves u (before s) t"
    using run mode block_ecall(1) [OF u']
    by (auto simp: minimal_body_def split: if_splits Option.bind_splits
        dest: block_instructions block_load block_store)
  then show ?thesis
    by (simp add: block_same_def leaves_def)
qed

lemma block_user:
  assumes u: "m_maybe_unconstrained s = Some u" and mode: "m_mode s = UserMode" and run: "minimal_body E s = Some t"
  shows "block_instr (process_instruction E) s t \<or> left (process_instruction E) u s t"
proof -
  let ?p = "process_instruction E"
  from run mode obtain r0 s1 where f: "minimal_fetch (abi E) ?p (before s) = Some (r0, s1)"
    by (auto simp: minimal_body_def try_then_def split: Option.bind_splits)
  have b1: "block_instr ?p s s1"
    using block_fetch [OF f] by simp
  then have u1: "m_maybe_unconstrained s1 = Some u"
    using u by (simp add: block_instr_def)
  show ?thesis
  proof (cases r0)
    case (Inl i)
    with run mode f have "interrupted (m_clk s) (Inl i) s1 = Some t"
      by (simp add: minimal_body_def try_then_def)
    with b1 show ?thesis
      by (blast intro: block_instr_trans block_interrupted)
  next
    case (Inr i)
    with run mode f obtain r s2 where s2: "user_dispatch E i s1 = Some (r, s2)" "interrupted (m_clk s) r s2 = Some t"
      by (auto simp: minimal_body_def try_then_def user_dispatch_def [symmetric] split: Option.bind_splits)
    from block_dispatch [OF u1 s2(1)] show ?thesis
    proof
      assume "block_same s1 s2"
      with b1 s2(2) show ?thesis
        by (blast intro: block_instr_trans block_interrupted block_same_instr)
    next
      assume "r = Inr () \<and> leaves u s1 s2"
      with s2(2) b1 show ?thesis
        by (auto simp: interrupted_def intro: leaves_left)
    qed
  qed
qed

lemma block_body:
  assumes u: "m_maybe_unconstrained s = Some u" and run: "minimal_body E s = Some t"
  shows "block_instr (process_instruction E) s t \<or> left (process_instruction E) u s t"
    "m_mode s = SupervisorMode \<Longrightarrow> trace_reads t = trace_reads s"
proof -
  show "block_instr (process_instruction E) s t \<or> left (process_instruction E) u s t"
    using block_supervisor [OF u _ run] block_user [OF u _ run]
    by (cases "m_mode s") (auto intro: block_same_instr simp: leaves_def left_def)
  show "trace_reads t = trace_reads s" if "m_mode s = SupervisorMode"
    using block_supervisor [OF u that run] u by (auto simp: block_same_def leaves_def trace_reads_def)
qed

end
