(* ===== verification/Replay.thy ===== *)
theory Replay
  imports Replay_Step
begin

text \<open>
  The core VM replays a chunk of the minimal executor.
\<close>

subsection \<open>Entering and leaving a block\<close>

lemma boundary_fields:
  assumes "boundary K s c" "m_registers t = m_registers s" "m_clk t = m_clk s" "m_pc t = m_pc s"
    "same_options s t" "trace_reads t = trace_reads s" "m_maybe_unconstrained t = m_maybe_unconstrained s"
    "m_exit_code t = m_exit_code s" "m_public_value_digest t = m_public_value_digest s"
    "m_decoded_instruction_cache t \<subseteq>\<^sub>m decoder K"
  shows "boundary K t c"
  using assms by (auto simp: boundary_def agrees_def same_options_def)

lemma from_u32_ENTER: "code = ENTER_UNCONSTRAINED \<Longrightarrow> code \<noteq> SIG_RETURN \<and> code \<noteq> EXIT_UNCONSTRAINED \<and> code \<noteq> HALT"
  by simp

lemma enter_ecall:
  assumes ag: "agrees K (m_pc s + PC_INC, m_clk s + 8) (m_pc s + PC_INC, m_clk s + 8) s c"
    and en: "enters s i" and run: "execute_ecall_user E s i = Some (r, t)"
  shows "r = Inr () \<and> (\<exists>c'. core_ecall e c i = Ok c' \<and> in_block K (post_instruction_update t) (snd (advance c')) \<and>
    c_clk (snd (advance c')) = m_clk s + 264)"
proof -
  have none: "m_maybe_unconstrained s = None"
    using ag by (simp add: agrees_def)
  let ?u = "\<lparr>u_registers = m_registers s, u_pc = m_pc s, u_clk = m_clk s\<rparr>"
  let ?s = "s\<lparr>m_next_clk := m_next_clk s + 256, m_maybe_unconstrained := Some ?u,
    m_memory := limited_copy_on_write (m_memory s), m_page_prots := prot_copy_on_write (m_page_prots s)\<rparr>"
  have t: "r = Inr ()" "t = ctx_rw ?s X5 1"
    using run en none
    by (auto simp: execute_ecall_user_def enters_def ecall_handler_def ecall_dispatch_def enter_unconstrained_def
        is_unconstrained_def try_then_def handle_ecall_special_cases_def Let_def split: Option.bind_splits)
  have x5: "mr_value (c_registers c (reg_idx X5)) = ctx_rr s X5"
    using ag by (simp add: agrees_def ctx_rr_def)
  let ?c = "(snd (core_rw (snd (core_rr (snd (core_rr c X11 C_position)) X10 B_position)) X5 0))
    \<lparr>c_next_clk := c_next_clk c + 256\<rparr>"
  have "core_ecall e c i = Ok ?c"
    using en x5
    by (simp add: core_ecall_def core_execute_ecall_def enters_def core_runtime_def core_trap_def Let_def
        core_rr_def core_rw_def)
  moreover have "boundary K (exited ?u (post_instruction_update t)) (snd (advance ?c))"
    using ag t(2)
    by (auto simp: boundary_def agrees_def exited_def advance_def core_rr_def core_rw_def post_instruction_update_def
        ctx_rw_def Let_def trace_reads_def)
  moreover have "c_clk (snd (advance ?c)) = m_clk s + 264"
    using ag by (simp add: agrees_def advance_def core_rr_def core_rw_def Let_def)
  moreover have "m_maybe_unconstrained (post_instruction_update t) = Some ?u"
    by (simp add: t(2) ctx_rw_def)
  ultimately show ?thesis
    unfolding in_block_def using t(1) by blast
qed

lemma push_clk: "trace_push_constrained s v = Some t \<Longrightarrow> m_clk t = m_clk s \<and> m_pc t = m_pc s"
  by (auto simp: trace_push_constrained_def trace_push_def split: option.splits Option.bind_splits if_splits)

lemma prot_check_clk: "minimal_prot_check e s a b k = Some (r, t) \<Longrightarrow> m_clk t = m_clk s \<and> m_pc t = m_pc s"
  by (auto simp: minimal_prot_check_def minimal_pr_def Let_def split: Option.bind_splits prod.splits option.splits
      dest!: push_clk)

lemma fetch_word_clk: "fetch_word p a s = Some (r, t) \<Longrightarrow> m_clk t = m_clk s \<and> m_pc t = m_pc s"
  by (auto simp: fetch_word_def decoded_def split: Option.bind_splits option.splits dest!: push_clk)

lemma fetch_clk: "minimal_fetch e p s = Some (r, t) \<Longrightarrow> m_clk t = m_clk s \<and> m_pc t = m_pc s"
proof (cases "fetch (m_program s) (m_pc s)")
  case None
  assume "minimal_fetch e p s = Some (r, t)"
  then show ?thesis
    by (auto simp: minimal_fetch_word [OF None] try_then_def split: Option.bind_splits sum.splits
        dest!: prot_check_clk fetch_word_clk)
qed (simp add: minimal_fetch_def)

lemma enter_step:
  assumes b: "boundary K s c" and fe: "fetched E s = Some i" and en: "enters s i"
    and dec: "decoder K = process_instruction E"
    and run: "execute_instruction E s = Some (stop, s1)"
    and pre: "prefix (trace_reads s1) (chunk_reads K)"
  shows "\<exists>c1. core_step (abi E) (process_instruction E) c = Ok (advance c1) \<and> in_block K s1 (snd (advance c1)) \<and>
    c_clk (snd (advance c1)) = c_clk c + 264"
proof -
  let ?p = "process_instruction E"
  note ag = boundary_before [OF b]
  from run obtain t where t: "minimal_body E s = Some t" "stop_after_instruction t = Some (stop, s1)"
    by (auto simp: execute_instruction_body split: Option.bind_splits)
  note s1 = stop_after_state [OF t(2)]
  have clk: "c_clk c = m_clk s" and mode: "c_mode c = m_mode s" "m_mode s = replay_mode K"
    and prog: "c_program c = m_program s" "c_pc c = m_pc s"
    using b by (auto simp: boundary_def agrees_def)
  have ecall: "is_ecall_instruction i" "\<not> is_alu_instruction i" "\<not> is_memory_load_instruction i"
    "\<not> is_memory_store_instruction i" "\<not> is_branch_instruction i" "\<not> is_jump_instruction i" "\<not> is_utype_instruction i"
    using en by (simp_all add: enters_def is_instruction_defs)
  have "\<exists>c1. core_body (abi E) ?p c = Ok c1 \<and> in_block K (post_instruction_update t) (snd (advance c1)) \<and>
    c_clk (snd (advance c1)) = c_clk c + 264"
  proof (cases "m_mode s")
    case SupervisorMode
    have ne: "from_u32 (ucast (ctx_rr (before s) X5)) \<noteq> Some SIG_RETURN"
      using en by (simp add: enters_def ctx_rr_def)
    from SupervisorMode fe t(1) ecall have "minimal_execute_ecall E (before s) i = Some t"
      by (simp add: minimal_body_def fetched_def)
    then obtain r where "execute_ecall_user E (before s) i = Some (r, t)"
      by (auto simp: ecall_user_supervisor [OF ne] split: Option.bind_splits sum.splits)
    moreover have "enters (before s) i" "agrees K (m_pc (before s) + PC_INC, m_clk (before s) + 8)
        (m_pc (before s) + PC_INC, m_clk (before s) + 8) (before s) c"
      using en ag by simp_all
    ultimately have "\<exists>c'. core_ecall (abi E) c i = Ok c' \<and> in_block K (post_instruction_update t) (snd (advance c')) \<and>
        c_clk (snd (advance c')) = m_clk (before s) + 264"
      using enter_ecall by blast
    with SupervisorMode fe ecall mode prog clk show ?thesis
      by (simp add: core_body_def fetched_def core_fetch_supervisor_def core_instruction_supervisor_def match_opcode_cases)
  next
    case UserMode
    from UserMode fe obtain s2 where s2: "minimal_fetch (abi E) ?p (before s) = Some (Inr i, s2)"
      by (auto simp: fetched_def split: option.splits sum.splits)
    with UserMode t(1) ecall obtain r s3 where s3: "execute_ecall_user E s2 i = Some (r, s3)"
      "interrupted (m_clk s) r s3 = Some t"
      by (auto simp: minimal_body_def try_then_def split: Option.bind_splits)
    have "prefix (trace_reads s2) (trace_reads s3)"
      using reads.execute_ecall_steps(2) [of s2 E i] s3(1) by (simp add: steps_def)
    moreover have "prefix (trace_reads s3) (trace_reads t)"
      by (rule interrupted_prefix [OF s3(2)])
    ultimately have "prefix (trace_reads s2) (chunk_reads K)"
      using pre s1 by (auto intro: prefix_order.trans)
    with sim_fetch_user [OF ag _ dec, of "abi E"] mode UserMode s2 obtain f c2
      where c2: "core_fetch_user (abi E) ?p c = Ok (f, c2)" "fetch_error f = None" "fetch_instruction f = Some i"
        "agrees K (m_pc s + PC_INC, m_clk s + 8) (m_pc s + PC_INC, m_clk s + 8) s2 c2"
        "m_registers s2 = m_registers s"
      unfolding simr_def by (fastforce simp: same_trap_def)
    have same: "m_clk s2 = m_clk s" "m_pc s2 = m_pc s"
      using fetch_clk [OF s2] by simp_all
    have "enters s2 i"
      using en ok_registers(2) [OF c2(5)] by simp
    moreover have "agrees K (m_pc s2 + PC_INC, m_clk s2 + 8) (m_pc s2 + PC_INC, m_clk s2 + 8) s2 c2"
      using c2(4) same by simp
    ultimately have "r = Inr () \<and> (\<exists>c'. core_ecall (abi E) c2 i = Ok c' \<and>
        in_block K (post_instruction_update s3) (snd (advance c')) \<and> c_clk (snd (advance c')) = m_clk s2 + 264)"
      using enter_ecall s3(1) by blast
    with UserMode mode c2 s3(2) ecall clk same show ?thesis
      by (auto simp: core_body_def core_instruction_user_def match_opcode_cases interrupted_def)
  qed
  then show ?thesis
    using s1 by (auto simp: core_step_body)
qed

lemma block_step:
  assumes b: "in_block K s c" and dec: "decoder K = process_instruction E"
    and run: "execute_instruction E s = Some (stop, s1)"
    and user: "m_mode s = UserMode \<Longrightarrow> trace_reads s1 = trace_reads s"
  shows "in_block K s1 c \<or> boundary K s1 c"
proof -
  from b obtain u where u: "m_maybe_unconstrained s = Some u" "boundary K (exited u s) c"
    by (auto simp: in_block_def)
  from run obtain t where t: "minimal_body E s = Some t" "stop_after_instruction t = Some (stop, s1)"
    by (auto simp: execute_instruction_body split: Option.bind_splits)
  note s1 = stop_after_state [OF t(2)]
  have opts: "same_options s s1"
    using options.execute_instruction_steps [of s E] run by (simp add: steps_def)
  have reads: "trace_reads s1 = trace_reads s"
    using user block_body(2) [OF u(1) t(1)] s1 by (cases "m_mode s") simp_all
  have cache: "m_decoded_instruction_cache s \<subseteq>\<^sub>m process_instruction E"
    using u(2) dec by (auto simp: boundary_def agrees_def exited_def)
  from block_body(1) [OF u(1) t(1)] show ?thesis
  proof
    assume "block_instr (process_instruction E) s t"
    then have "boundary K (exited u s1) c" "m_maybe_unconstrained s1 = Some u"
      using opts reads cache dec u(1) s1
      by (auto intro!: boundary_fields [OF u(2)] simp: exited_def block_instr_def same_options_def
          post_instruction_update_def trace_reads_def)
    then show ?thesis
      by (auto simp: in_block_def)
  next
    assume "left (process_instruction E) u s t"
    then have "boundary K s1 c"
      using opts reads cache dec s1
      by (auto intro!: boundary_fields [OF u(2)] simp: exited_def left_def same_options_def
          post_instruction_update_def trace_reads_def fun_upd_twist)
    then show ?thesis ..
  qed
qed

subsection \<open>A chunk\<close>

text \<open>When the core VM replays a run: each instruction outside a block satisfies \<open>instruction_ok\<close>, and in user
  mode no instruction of a block records a read (fetching an instruction from memory there does not, a
  trap does).\<close>

definition replay_ok :: "externs \<Rightarrow> MinimalExecutor \<Rightarrow> bool" where
  "replay_ok E s \<longleftrightarrow> (case m_maybe_unconstrained s of
      None \<Rightarrow> (case fetched E s of Some i \<Rightarrow> instruction_ok (m_mode s) s i | None \<Rightarrow> True)
    | Some _ \<Rightarrow> m_mode s = UserMode \<longrightarrow>
        (case execute_instruction E s of Some (_, t) \<Rightarrow> trace_reads t = trace_reads s | None \<Rightarrow> True))"

primrec chunk_ok :: "externs \<Rightarrow> nat \<Rightarrow> MinimalExecutor \<Rightarrow> bool" where
  "chunk_ok E 0 s \<longleftrightarrow> True"
| "chunk_ok E (Suc n) s \<longleftrightarrow> replay_ok E s \<and>
    (case execute_instruction E s of Some (stop, t) \<Rightarrow> stop \<or> chunk_ok E n t | None \<Rightarrow> True)"

text \<open>Steps of the core VM before which it is not done.\<close>

primrec core_run :: "elf_abi \<Rightarrow> (u32 \<Rightarrow> Instruction option) \<Rightarrow> nat \<Rightarrow> CoreVM \<Rightarrow> CoreVM \<Rightarrow> bool" where
  "core_run e p 0 c c' \<longleftrightarrow> c' = c"
| "core_run e p (Suc n) c c' \<longleftrightarrow> c_pc c \<noteq> HALT_PC \<and> (\<exists>c1. core_step e p c = Ok (advance c1) \<and>
    c_clk (snd (advance c1)) \<in> {c_clk c + 8, c_clk c + 264} \<and> c_clk_end (snd (advance c1)) = c_clk_end c \<and>
    core_run e p n (snd (advance c1)) c')"

lemma clk_grows:
  fixes a b :: u64
  assumes "b \<in> {a + 8, a + 264}" "unat a + 264 * Suc n < 2 ^ 64"
  shows "unat a < unat b \<and> unat b + 264 * n < 2 ^ 64"
proof -
  have "unat b \<in> {unat a + 8, unat a + 264}"
    using assms by (auto simp: unat_plus_if_size word_size)
  with assms(2) show ?thesis by auto
qed

lemma core_run_loop:
  assumes "core_run e p (Suc n) c c'" "unat (c_clk c) + 264 * Suc n < 2 ^ 64" "c_clk_end c = c_clk c'"
  shows "core_loop e p (Suc n) c = Some (Ok (if c_pc c' = HALT_PC then Done True else TraceEnd, c')) \<and>
    unat (c_clk c) < unat (c_clk c')"
  using assms
proof (induction n arbitrary: c)
  case 0
  then show ?case
    using clk_grows [of _ _ 0] by (auto simp: advance_def is_trace_end_def Let_def)
next
  case (Suc n)
  then obtain c1 where c1: "core_step e p c = Ok (advance c1)"
    "c_clk (snd (advance c1)) \<in> {c_clk c + 8, c_clk c + 264}" "c_clk_end (snd (advance c1)) = c_clk_end c"
    "core_run e p (Suc n) (snd (advance c1)) c'"
    by (auto simp del: core_run.simps(2) simp: core_run.simps(2) [of _ _ "Suc n"])
  note clk = clk_grows [OF c1(2) Suc.prems(2)]
  from Suc.IH [OF c1(4)] clk c1(3) Suc.prems(3)
  have IH: "core_loop e p (Suc n) (snd (advance c1)) = Some (Ok (if c_pc c' = HALT_PC then Done True else TraceEnd, c'))"
    "unat (c_clk (snd (advance c1))) < unat (c_clk c')"
    by simp_all
  have "c_pc (snd (advance c1)) \<noteq> HALT_PC"
    using c1(4) by simp
  moreover have "c_clk_end (snd (advance c1)) \<noteq> c_clk (snd (advance c1))"
    using IH(2) c1(3) Suc.prems(3) by auto
  ultimately have "fst (advance c1) = Done False"
    by (simp add: advance_def is_trace_end_def Let_def)
  with IH c1(1) clk show ?case
    by (cases "advance c1") (simp del: core_loop.simps(2) add: core_loop.simps(2) [of _ _ "Suc n"])
qed

lemma boundary_constrained: "boundary K s c \<Longrightarrow> m_maybe_unconstrained s = None \<and> c_clk_end c = end_clk K \<and> c_pc c = m_pc s \<and>
    c_clk c = m_clk s \<and> m_mode s = replay_mode K"
  by (auto simp: boundary_def agrees_def)

lemma in_block_end: "in_block K s c \<Longrightarrow> c_clk_end c = end_clk K \<and> m_maybe_unconstrained s \<noteq> None"
  by (auto simp: in_block_def dest: boundary_constrained)

lemma step_related:
  assumes b: "boundary K s c" and inv: "executor_inv s" and ok: "replay_ok E s"
    and dec: "decoder K = process_instruction E"
    and run: "execute_instruction E s = Some (stop, s1)"
    and pre: "prefix (trace_reads s1) (chunk_reads K)" and err: "last_error (m_memory s1) = None"
  shows "\<exists>c1. core_step (abi E) (process_instruction E) c = Ok (advance c1) \<and>
    (boundary K s1 (snd (advance c1)) \<or> in_block K s1 (snd (advance c1))) \<and>
    c_clk (snd (advance c1)) \<in> {c_clk c + 8, c_clk c + 264}"
proof (cases "\<exists>i. fetched E s = Some i \<and> enters s i")
  case True
  then show ?thesis
    using enter_step [OF b _ _ dec run pre] by blast
next
  case False
  have ok': "instruction_ok (replay_mode K) s i \<and> \<not> enters s i" if "fetched E s = Some i" for i
    using ok that False boundary_constrained [OF b] by (auto simp: replay_ok_def)
  from boundary_step [OF b inv ok' dec run pre err] obtain c1
    where c1: "core_step (abi E) (process_instruction E) c = Ok (advance c1)" "boundary K s1 (snd (advance c1))"
      "m_clk s1 \<in> {m_clk s + 8, m_clk s + 264}"
    by blast
  then show ?thesis
    using boundary_constrained [OF b] boundary_constrained [OF c1(2)] by auto
qed

lemma replays:
  assumes "chunk_loop E fuel s = Some (Ok s2)" "chunk_ok E fuel s" "executor_inv s"
    "boundary K s c \<and> m_pc s \<noteq> HALT_PC \<or> in_block K s c"
    and dec: "decoder K = process_instruction E" and E: "dump_only_reads E"
    and final: "prefix (trace_reads s2) (chunk_reads K)" "last_error (m_memory s2) = None" "m_maybe_unconstrained s2 = None"
  shows "\<exists>n c2. n \<le> fuel \<and> core_run (abi E) (process_instruction E) n c c2 \<and> boundary K s2 c2 \<and> (boundary K s c \<longrightarrow> 0 < n)"
  using assms(1-4)
proof (induction fuel arbitrary: s c)
  case (Suc fuel)
  let ?run = "core_run (abi E) (process_instruction E)"
  from Suc.prems(1) obtain stop s1 where step: "execute_instruction E s = Some (stop, s1)"
    by (auto split: option.splits)
  have ok: "replay_ok E s" "stop \<or> chunk_ok E fuel s1"
    using Suc.prems(2) step by auto
  have loop: "stop \<and> s1 = s2 \<or> \<not> stop \<and> last_error (m_memory s1) = None \<and> chunk_loop E fuel s1 = Some (Ok s2)"
    using Suc.prems(1) step by (auto split: if_splits option.splits)
  have inv1: "executor_inv s1"
    using invariant.execute_instruction_steps [of E s] step E Suc.prems(3) by (simp add: steps_def)
  have err: "last_error (m_memory s1) = None"
    using loop final(2) by auto
  have pre: "prefix (trace_reads s1) (chunk_reads K)"
    using loop final(1) reads.chunk_loop_steps [of E fuel s1 s2] by (auto intro: prefix_order.trans)
  have running: "m_pc s1 \<noteq> HALT_PC" if "\<not> stop"
    using step that
    by (auto simp: execute_instruction_body stop_after_instruction_def is_done_def Let_def split: Option.bind_splits)
  have rest: "\<exists>n c2. n \<le> fuel \<and> ?run n c1 c2 \<and> boundary K s2 c2" if "boundary K s1 c1 \<or> in_block K s1 c1" for c1
  proof (cases stop)
    case True
    with loop that final(3) in_block_end [of K s2 c1] have "boundary K s2 c1"
      by auto
    then show ?thesis
      by (intro exI [of _ 0] exI [of _ c1]) simp
  next
    case False
    with Suc.IH [of s1 c1] loop ok inv1 that running show ?thesis
      by blast
  qed
  show ?case
  proof (cases "boundary K s c")
    case True
    then have pc: "m_pc s \<noteq> HALT_PC"
      using Suc.prems(4) boundary_constrained [OF True] in_block_end by blast
    from step_related [OF True Suc.prems(3) ok(1) dec step pre err] obtain c1
      where c1: "core_step (abi E) (process_instruction E) c = Ok (advance c1)"
        "boundary K s1 (snd (advance c1)) \<or> in_block K s1 (snd (advance c1))"
        "c_clk (snd (advance c1)) \<in> {c_clk c + 8, c_clk c + 264}"
      by blast
    from rest [OF c1(2)] obtain n c2 where "n \<le> fuel" "?run n (snd (advance c1)) c2" "boundary K s2 c2"
      by blast
    moreover have "c_clk_end (snd (advance c1)) = c_clk_end c" "c_pc c \<noteq> HALT_PC"
      using c1(2) boundary_constrained [OF True] boundary_constrained [of K s1] in_block_end [of K s1] pc by auto
    ultimately show ?thesis
      using c1 by (intro exI [of _ "Suc n"] exI [of _ c2]) auto
  next
    case False
    with Suc.prems(4) have b: "in_block K s c"
      by blast
    have "trace_reads s1 = trace_reads s" if "m_mode s = UserMode"
      using ok(1) that step in_block_end [OF b] by (auto simp: replay_ok_def)
    from rest [of c] block_step [OF b dec step this] False show ?thesis
      by (metis le_SucI)
  qed
qed simp

text \<open>The replay of the chunk in \<open>b\<close> that the executor records from \<open>s\<close> on.\<close>

definition replay_of :: "externs \<Rightarrow> MinimalExecutor \<Rightarrow> TraceChunkBuffer \<Rightarrow> replay" where
  "replay_of E s b = \<lparr>decoder = process_instruction E, chunk_reads = buf_reads b, replay_mode = m_mode s,
     end_clk = h_clk_end b, digest_words = {i. m_public_value_digest s i = 0}, exit_known = (m_exit_code s = 0)\<rparr>"

lemma boundary_start:
  assumes "start_chunk s = Some s1" "m_traces s = None" "m_traces s1 \<noteq> None"
    "m_registers s 0 = 0" "m_maybe_unconstrained s = None"
    "m_decoded_instruction_cache s \<subseteq>\<^sub>m process_instruction E"
    "h_start_registers b = m_registers s" "h_pc_start b = m_pc s" "h_clk_start b = m_clk s"
    "core_new (m_mode s) (chunk_of_buffer b) (m_program s) retained = Some c"
  shows "boundary (replay_of E s b) s1 c"
proof -
  from assms(1-3) obtain b1 where s1: "s1 = s\<lparr>m_traces := Some b1\<rparr>" "buf_reads b1 = []"
    by (auto simp: start_chunk_def new_buffer_def Let_def split: if_splits Option.bind_splits)
  have "array32 (map (m_registers s) [0..<32]) i = m_registers s i" if "i < 32" for i
    using that by (simp add: array32_def)
  with assms(4-) s1 show ?thesis
    by (auto simp: boundary_def agrees_def replay_of_def core_new_def chunk_of_buffer_def trace_reads_def Let_def
        simp del: upt_rec_numeral split: Option.bind_splits)
qed

text \<open>What a client that records a chunk in \<open>b\<close>, from \<open>s\<close> to \<open>t\<close>, and a core VM created from the chunk have in
  common before and after the loop.\<close>

lemma recorded_run:
  assumes s: "reached E s" "dump_only_reads E" "m_maybe_unconstrained s = None"
      "m_decoded_instruction_cache s \<subseteq>\<^sub>m process_instruction E"
    and run: "start_chunk s = Some s1" "try_execute_chunk E fuel s = Some (Ok (Some b, t))"
    and new: "core_new (m_mode s) (chunk_of_buffer b) (m_program s) retained = Some c"
  obtains s2 where "chunk_loop E fuel s1 = Some (Ok s2)" "t = s2\<lparr>m_traces := None\<rparr>" "trace_reads s2 = buf_reads b"
    "boundary (replay_of E s b) s1 c" "executor_inv s1" "trace_reads s1 = []"
    "s1 = s\<lparr>m_traces := m_traces s1\<rparr>" "m_pc s \<noteq> HALT_PC" "h_clk_end b = m_clk t"
proof -
  have inv: "executor_inv s" "m_registers s 0 = 0" "m_traces s = None"
    using reached_inv [OF s(1,2)] reached_no_trace [OF s(1,2) run(2)] by simp_all
  note header = chunk_header [OF inv(3) run(2)]
  from run(2) obtain s2 where s2: "chunk_loop E fuel s1 = Some (Ok s2)" "(Some b, t) = finish_chunk s2" "\<not> is_done s"
    by (cases rule: executed_chunk) (use run(1) in auto)
  then have tr: "m_traces s2 \<noteq> None" "t = s2\<lparr>m_traces := None\<rparr>" "trace_reads s2 = buf_reads b"
    by (cases "m_traces s2"; auto simp: finish_chunk_def trace_reads_def)+
  have traced: "m_traces s1 \<noteq> None"
    using options.chunk_loop_steps [OF s2(1)] tr(1) by (auto simp: same_options_def)
  then have start: "boundary (replay_of E s b) s1 c"
    using boundary_start [OF run(1) inv(3) _ inv(2) s(3,4) _ _ _ new] header by simp
  have inv1: "executor_inv s1"
    by (rule start_chunk_inv [OF run(1) inv(1)])
  have "trace_reads s1 = []"
    using run(1) inv(3) traced
    by (auto simp: start_chunk_def new_buffer_def trace_reads_def Let_def split: if_splits Option.bind_splits)
  moreover have "m_pc s \<noteq> HALT_PC" "h_clk_end b = m_clk t"
    using s2(3) header by (simp_all add: is_done_def)
  ultimately show ?thesis
    using that [OF s2(1) tr(2,3) start inv1 _ start_chunk_traces [OF run(1)]] by blast
qed

text \<open>(C1) The core VM replays every chunk that the minimal executor records. Let the executor be in a
  state that a client can observe, outside an unconstrained block and not exited, and let it record a
  chunk that ends outside a block and without a memory error. Then a core VM that is created from the
  chunk alone, with neither memory nor inputs, runs to the end of the chunk without a panic or an error, in
  at most as many steps as the executor needed, and
  stops for the right reason. It has used up the recorded reads and agrees with the executor on the
  registers, the program counter, the clock, the exit code and the digest words that were committed in
  this chunk. \<open>chunk_ok\<close> excludes the instructions on which the two machines differ.\<close>

theorem core_vm_replays_chunk:
  assumes s: "reached E s" "dump_only_reads E" "m_maybe_unconstrained s = None" "m_exit_code s = 0"
      "m_decoded_instruction_cache s \<subseteq>\<^sub>m process_instruction E"
    and run: "start_chunk s = Some s1" "chunk_ok E fuel s1" "try_execute_chunk E fuel s = Some (Ok (Some b, t))"
    and t: "m_maybe_unconstrained t = None" "last_error (m_memory t) = None"
    and clk: "unat (m_clk s) + 264 * fuel < 2 ^ 64"
    and new: "core_new (m_mode s) (chunk_of_buffer b) (m_program s) retained = Some c"
  shows "\<exists>c2. core_loop (abi E) (process_instruction E) fuel c =
      Some (Ok (if is_done t then Done True else TraceEnd, c2)) \<and>
    c_mem_reads c2 = [] \<and> (\<forall>i < 32. mr_value (c_registers c2 i) = m_registers t i) \<and>
    c_pc c2 = m_pc t \<and> c_clk c2 = m_clk t \<and> c_exit_code c2 = m_exit_code t \<and>
    (\<forall>i. m_public_value_digest s i = 0 \<longrightarrow> c_public_value_digest c2 i = m_public_value_digest t i)"
proof -
  let ?K = "replay_of E s b"
  obtain s2 where s2: "chunk_loop E fuel s1 = Some (Ok s2)" and tr: "t = s2\<lparr>m_traces := None\<rparr>" "trace_reads s2 = buf_reads b"
    and start: "boundary ?K s1 c" and inv: "executor_inv s1" "trace_reads s1 = []" and s1: "s1 = s\<lparr>m_traces := m_traces s1\<rparr>"
    and ends: "m_pc s \<noteq> HALT_PC" "h_clk_end b = m_clk t"
    by (rule recorded_run [OF s(1,2,3,5) run(1,3) new])
  have s1_eqs: "m_pc s1 = m_pc s" "m_clk s1 = m_clk s"
    by (subst s1, simp)+
  have "boundary ?K s1 c \<and> m_pc s1 \<noteq> HALT_PC \<or> in_block ?K s1 c"
    using start ends(1) s1_eqs by simp
  moreover have "prefix (trace_reads s2) (chunk_reads ?K)" "decoder ?K = process_instruction E"
    "last_error (m_memory s2) = None" "m_maybe_unconstrained s2 = None"
    using tr t by (simp_all add: replay_of_def)
  ultimately obtain n c2 where n: "n \<le> fuel" "core_run (abi E) (process_instruction E) n c c2" "boundary ?K s2 c2" "0 < n"
    using replays [OF s2 run(2) inv(1)] s(2) start by blast
  then obtain m k where m: "n = Suc m" "fuel = Suc m + k"
    by (metis gr0_implies_Suc le_iff_add)
  have clocks: "c_clk_end c = c_clk c2" "unat (c_clk c) + 264 * Suc m < 2 ^ 64"
    using boundary_constrained [OF start] boundary_constrained [OF n(3)] ends(2) tr(1) s1_eqs(2) clk m
    by (simp_all add: replay_of_def)
  from core_run_loop [OF _ clocks(2,1)] n(2) m
  have "core_loop (abi E) (process_instruction E) fuel c = Some (Ok (if c_pc c2 = HALT_PC then Done True else TraceEnd, c2))"
    using core_loop_more_fuel by metis
  moreover have "mr_value (c_registers c2 i) = m_registers t i" if "i < 32" for i
    using that n(3) tr(1) by (cases "i = 0") (auto simp: boundary_def agrees_def)
  moreover have "c_mem_reads c2 = []" "c_pc c2 = m_pc t" "c_clk c2 = m_clk t" "c_exit_code c2 = m_exit_code t"
    "m_public_value_digest s i = 0 \<longrightarrow> c_public_value_digest c2 i = m_public_value_digest t i" for i
    using n(3) tr s(4) by (auto simp: boundary_def agrees_def replay_of_def)
  ultimately show ?thesis
    by (auto simp: is_done_def)
qed

text \<open>A chunk with the whole program that loads a word and halts.\<close>

lemma load_halt_run:
  "\<exists>s s1 b t c. new_with_limit SupervisorMode load_program (Some 100) None = Some s \<and> start_chunk s = Some s1 \<and>
     chunk_ok no_externs (Suc (Suc 0)) s1 \<and> try_execute_chunk no_externs (Suc (Suc 0)) s = Some (Ok (Some b, t)) \<and>
     core_new (m_mode s) (chunk_of_buffer b) (m_program s) [] = Some c \<and> buf_reads b = [default_MemValue] \<and>
     m_maybe_unconstrained s = None \<and> m_exit_code s = 0 \<and>
     m_decoded_instruction_cache s \<subseteq>\<^sub>m process_instruction no_externs \<and>
     m_maybe_unconstrained t = None \<and> last_error (m_memory t) = None \<and> m_clk s = 1 \<and> m_pc t = 1 \<and> m_clk t = 273"
proof -
  obtain m where m: "limited_get_mut (limited_new_owned None) 0x100 (\<lambda>v. v\<lparr>clk := 2\<rparr>) = Some (default_MemValue, m)"
    "last_error m = None"
    using first_word [of None "\<lambda>v. v\<lparr>clk := 2\<rparr>"] by auto
  have "last_error (limited_new_owned None) = None"
    by (simp add: limited_new_owned_def)
  then show ?thesis
    by (simp add: run_defs load_program_def m minimal_execute_load_def operand_view_defs from_u8_def
        trace_push_constrained_def trace_push_def trace_extend_def load_value_def default_MemValue_def
        core_new_def chunk_of_buffer_def replay_ok_def fetched_def instruction_ok_def enters_def ecall_ok_def
        arguments_ok_def) (simp add: word_le_nat_alt)
qed

theorem core_vm_replays_chunk_witness:
  "\<exists>s b t c c2. new_with_limit SupervisorMode load_program (Some 100) None = Some s \<and>
     try_execute_chunk no_externs (Suc (Suc 0)) s = Some (Ok (Some b, t)) \<and>
     core_new SupervisorMode (chunk_of_buffer b) load_program [] = Some c \<and> buf_reads b = [default_MemValue] \<and>
     core_loop (abi no_externs) (process_instruction no_externs) (Suc (Suc 0)) c = Some (Ok (Done True, c2)) \<and>
     c_mem_reads c2 = [] \<and> c_pc c2 = m_pc t \<and> c_clk c2 = 273"
proof -
  from load_halt_run obtain s s1 b t c where run: "new_with_limit SupervisorMode load_program (Some 100) None = Some s"
    "start_chunk s = Some s1" "chunk_ok no_externs (Suc (Suc 0)) s1"
    "try_execute_chunk no_externs (Suc (Suc 0)) s = Some (Ok (Some b, t))"
    "core_new (m_mode s) (chunk_of_buffer b) (m_program s) [] = Some c" "buf_reads b = [default_MemValue]"
    "m_maybe_unconstrained s = None" "m_exit_code s = 0"
    "m_decoded_instruction_cache s \<subseteq>\<^sub>m process_instruction no_externs"
    "m_maybe_unconstrained t = None" "last_error (m_memory t) = None" "m_clk s = 1" "m_pc t = 1" "m_clk t = 273"
    by blast
  have "unat (m_clk s) + 264 * Suc (Suc 0) < 2 ^ 64"
    by (simp add: run)
  moreover have mode: "m_mode s = SupervisorMode" "m_program s = load_program"
    using run(1) by (auto simp: new_with_limit_def Let_def split: Option.bind_splits)
  moreover have "is_done t"
    by (simp add: is_done_def run)
  ultimately obtain c2 where "core_loop (abi no_externs) (process_instruction no_externs) (Suc (Suc 0)) c =
      Some (Ok (Done True, c2))" "c_mem_reads c2 = []" "c_pc c2 = m_pc t" "c_clk c2 = m_clk t"
    using core_vm_replays_chunk [OF reached.new [OF run(1)] no_externs_dump run(7-9) run(2-4,10,11) _ run(5)]
    by (auto simp del: core_loop.simps)
  with run(1,4,5,6,14) mode show ?thesis
    by (intro exI [of _ s] exI [of _ b] exI [of _ t] exI [of _ c] exI [of _ c2]) (simp del: core_loop.simps)
qed

end
