(* ===== verification/Replay_Path.thy ===== *)
theory Replay_Path
  imports Replay
begin

text \<open>
  The run of a chunk as a sequence of states of the minimal executor, one for each instruction that the core
  VM executes: between two of them lies one instruction outside an unconstrained block, or the instruction
  that enters a block and the whole block. Every core VM that agrees with the first of two neighbours makes
  one step to agree with the second, whatever else it has recorded or will read. The shards of a chunk are
  pieces of this sequence.
\<close>

subsection \<open>From one boundary to the next\<close>

definition advances :: "externs \<Rightarrow> MinimalExecutor \<Rightarrow> MinimalExecutor \<Rightarrow> bool" where
  "advances E s t \<longleftrightarrow> m_pc s \<noteq> HALT_PC \<and> m_program t = m_program s \<and> prefix (trace_reads s) (trace_reads t) \<and>
    (\<forall>K c. decoder K = process_instruction E \<longrightarrow> boundary K s c \<longrightarrow> prefix (trace_reads t) (chunk_reads K) \<longrightarrow>
      (\<exists>c1. core_step (abi E) (process_instruction E) c = Ok (advance c1) \<and> boundary K t (snd (advance c1)) \<and>
        m_clk t \<in> {m_clk s + 8, m_clk s + 264}))"

primrec boundary_path :: "externs \<Rightarrow> MinimalExecutor \<Rightarrow> MinimalExecutor list \<Rightarrow> bool" where
  "boundary_path E s [] \<longleftrightarrow> True"
| "boundary_path E s (t # ts) \<longleftrightarrow> advances E s t \<and> boundary_path E t ts"

definition path_end :: "MinimalExecutor \<Rightarrow> MinimalExecutor list \<Rightarrow> MinimalExecutor" where
  "path_end s ts = last (s # ts)"

lemma path_end_simps [simp]: "path_end s [] = s" "path_end s (t # ts) = path_end t ts"
  by (simp_all add: path_end_def)

lemma path_append:
  "boundary_path E s (ts @ us) \<longleftrightarrow> boundary_path E s ts \<and> boundary_path E (path_end s ts) us"
  "path_end s (ts @ us) = path_end (path_end s ts) us"
  by (induction ts arbitrary: s) auto

lemma path_reads: "boundary_path E s ts \<Longrightarrow> prefix (trace_reads s) (trace_reads (path_end s ts))"
proof (induction ts arbitrary: s)
  case (Cons t ts)
  then show ?case
    by (auto simp: advances_def intro: prefix_order.trans)
qed simp

text \<open>The executor is in a run that ends, without error and outside a block, in \<open>z\<close>.\<close>

definition runs_to :: "externs \<Rightarrow> nat \<Rightarrow> MinimalExecutor \<Rightarrow> MinimalExecutor \<Rightarrow> bool" where
  "runs_to E fuel s z \<longleftrightarrow> chunk_loop E fuel s = Some (Ok z) \<and> chunk_ok E fuel s \<and> executor_inv s"

lemma runs_to_step:
  assumes "runs_to E fuel s z" "dump_only_reads E" "last_error (m_memory z) = None"
  obtains stop s1 fuel' where "fuel = Suc fuel'" "execute_instruction E s = Some (stop, s1)" "replay_ok E s"
    "executor_inv s1" "last_error (m_memory s1) = None" "prefix (trace_reads s) (trace_reads s1)"
    "m_program s1 = m_program s" "stop \<and> s1 = z \<or> m_pc s1 \<noteq> HALT_PC \<and> runs_to E fuel' s1 z"
proof -
  from assms(1) obtain fuel' where fuel: "fuel = Suc fuel'"
    by (cases fuel) (auto simp: runs_to_def)
  with assms(1) obtain stop s1 where step: "execute_instruction E s = Some (stop, s1)"
    by (auto simp: runs_to_def split: option.splits)
  have loop: "stop \<and> s1 = z \<or> \<not> stop \<and> last_error (m_memory s1) = None \<and> chunk_loop E fuel' s1 = Some (Ok z)"
    using assms(1) step fuel by (auto simp: runs_to_def split: if_splits option.splits)
  have inv: "executor_inv s1"
    using invariant.execute_instruction_steps [of E s] step assms(1,2) by (simp add: steps_def runs_to_def)
  have running: "m_pc s1 \<noteq> HALT_PC" if "\<not> stop"
    using step that
    by (auto simp: execute_instruction_body stop_after_instruction_def is_done_def Let_def split: Option.bind_splits)
  have "prefix (trace_reads s) (trace_reads s1)"
    using reads.execute_instruction_steps [of s E] step by (simp add: steps_def)
  moreover have "replay_ok E s" "stop \<or> chunk_ok E fuel' s1"
    using assms(1) step fuel by (auto simp: runs_to_def)
  moreover have "last_error (m_memory s1) = None"
    using loop assms(3) by auto
  moreover have "m_program s1 = m_program s"
    using options.execute_instruction_steps [of s E] step by (simp add: steps_def same_options_def)
  ultimately show ?thesis
    using that [OF fuel step] loop inv running by (auto simp: runs_to_def)
qed

lemma leave_block:
  assumes "runs_to E fuel s z" "m_maybe_unconstrained s \<noteq> None" and E: "dump_only_reads E"
    and z: "last_error (m_memory z) = None" "m_maybe_unconstrained z = None"
    and block: "\<exists>K c. in_block K s c \<and> decoder K = process_instruction E"
  shows "\<exists>t fuel'. fuel' < fuel \<and> (\<forall>K c. decoder K = process_instruction E \<longrightarrow> in_block K s c \<longrightarrow> boundary K t c) \<and>
    trace_reads t = trace_reads s \<and> m_program t = m_program s \<and> (t = z \<or> m_pc t \<noteq> HALT_PC \<and> runs_to E fuel' t z)"
  using assms(1,2) block
proof (induction fuel arbitrary: s)
  case 0
  then show ?case by (simp add: runs_to_def)
next
  case (Suc fuel)
  obtain stop s1 n where n: "Suc fuel = Suc n" and run: "execute_instruction E s = Some (stop, s1)" "replay_ok E s"
    "executor_inv s1" "last_error (m_memory s1) = None" "prefix (trace_reads s) (trace_reads s1)"
    "m_program s1 = m_program s" "stop \<and> s1 = z \<or> m_pc s1 \<noteq> HALT_PC \<and> runs_to E n s1 z"
    by (rule runs_to_step [OF Suc.prems(1) E z(1)])
  have step: "execute_instruction E s = Some (stop, s1)" "replay_ok E s" "executor_inv s1"
    "stop \<and> s1 = z \<or> m_pc s1 \<noteq> HALT_PC \<and> runs_to E fuel s1 z" "m_program s1 = m_program s"
    using n run by simp_all
  have user: "trace_reads s1 = trace_reads s" if "m_mode s = UserMode"
    using step(1,2) that Suc.prems(2) by (auto simp: replay_ok_def)
  have next_block: "in_block K s1 c \<or> boundary K s1 c" if "decoder K = process_instruction E" "in_block K s c" for K c
    using block_step [OF that(2,1) step(1) user] .
  obtain K0 c0 where K0: "in_block K0 s c0" "decoder K0 = process_instruction E"
    using Suc.prems(3) by blast
  have reads: "trace_reads s1 = trace_reads s"
  proof -
    obtain t where t: "minimal_body E s = Some t" "stop_after_instruction t = Some (stop, s1)"
      using step(1) by (auto simp: execute_instruction_body split: Option.bind_splits)
    obtain u where "m_maybe_unconstrained s = Some u"
      using Suc.prems(2) by blast
    from block_body(2) [OF this t(1)] stop_after_state [OF t(2)] user show ?thesis
      by (cases "m_mode s") simp_all
  qed
  show ?case
  proof (cases "m_maybe_unconstrained s1")
    case None
    then have "\<forall>K c. decoder K = process_instruction E \<longrightarrow> in_block K s c \<longrightarrow> boundary K s1 c"
      using next_block in_block_end by blast
    with reads step(4,5) show ?thesis
      by (intro exI [of _ s1] exI [of _ fuel]) auto
  next
    case (Some u)
    then have blk: "in_block K s1 c" if "decoder K = process_instruction E" "in_block K s c" for K c
      using next_block [OF that] boundary_constrained [of K s1 c] by auto
    have "runs_to E fuel s1 z"
      using step(4) z(2) Some by auto
    from Suc.IH [OF this] Some blk K0 obtain t fuel' where
      "fuel' < fuel" "\<forall>K c. decoder K = process_instruction E \<longrightarrow> in_block K s1 c \<longrightarrow> boundary K t c"
      "trace_reads t = trace_reads s1" "m_program t = m_program s1" "t = z \<or> m_pc t \<noteq> HALT_PC \<and> runs_to E fuel' t z"
      by blast
    with blk reads step(5) show ?thesis
      by (intro exI [of _ t] exI [of _ fuel']) auto
  qed
qed

lemma next_boundary:
  assumes run: "runs_to E fuel s z" "m_pc s \<noteq> HALT_PC" and E: "dump_only_reads E"
    and z: "last_error (m_memory z) = None" "m_maybe_unconstrained z = None"
    and K0: "decoder K0 = process_instruction E" "boundary K0 s c0" "prefix (trace_reads z) (chunk_reads K0)"
  shows "\<exists>t fuel'. fuel' < fuel \<and> advances E s t \<and> (t = z \<or> m_pc t \<noteq> HALT_PC \<and> runs_to E fuel' t z)"
proof -
  obtain stop s1 fuel' where step: "fuel = Suc fuel'" "execute_instruction E s = Some (stop, s1)" "replay_ok E s"
    "executor_inv s1" "last_error (m_memory s1) = None" "prefix (trace_reads s) (trace_reads s1)"
    "m_program s1 = m_program s" "stop \<and> s1 = z \<or> m_pc s1 \<noteq> HALT_PC \<and> runs_to E fuel' s1 z"
    by (rule runs_to_step [OF run(1) E z(1)])
  have inv: "executor_inv s"
    using run(1) by (simp add: runs_to_def)
  have related: "\<exists>c1. core_step (abi E) (process_instruction E) c = Ok (advance c1) \<and>
      (boundary K s1 (snd (advance c1)) \<or> in_block K s1 (snd (advance c1))) \<and>
      c_clk (snd (advance c1)) \<in> {m_clk s + 8, m_clk s + 264}"
    if "decoder K = process_instruction E" "boundary K s c" "prefix (trace_reads s1) (chunk_reads K)" for K c
    using step_related [OF that(2) inv step(3) that(1) step(2) that(3) step(5)] boundary_constrained [OF that(2)] by simp
  show ?thesis
  proof (cases "m_maybe_unconstrained s1")
    case None
    have "advances E s s1"
      unfolding advances_def
    proof (intro conjI allI impI)
      fix K c
      assume "decoder K = process_instruction E" "boundary K s c" "prefix (trace_reads s1) (chunk_reads K)"
      from related [OF this] obtain c1 where c1: "core_step (abi E) (process_instruction E) c = Ok (advance c1)"
        "boundary K s1 (snd (advance c1)) \<or> in_block K s1 (snd (advance c1))"
        "c_clk (snd (advance c1)) \<in> {m_clk s + 8, m_clk s + 264}"
        by blast
      have b: "boundary K s1 (snd (advance c1))"
        using c1(2) None in_block_end [of K s1 "snd (advance c1)"] by auto
      show "\<exists>c1. core_step (abi E) (process_instruction E) c = Ok (advance c1) \<and>
          boundary K s1 (snd (advance c1)) \<and> m_clk s1 \<in> {m_clk s + 8, m_clk s + 264}"
        using c1(1,3) b boundary_constrained [OF b] by (intro exI [of _ c1]) simp
    qed (use run(2) step(6,7) in simp_all)
    with step(1,8) show ?thesis
      by (intro exI [of _ s1] exI [of _ fuel']) auto
  next
    case (Some u)
    then have run1: "runs_to E fuel' s1 z"
      using step(8) z(2) by auto
    have "prefix (trace_reads s1) (trace_reads z)"
      using run1 reads.chunk_loop_steps [of E fuel' s1 z] by (simp add: runs_to_def)
    with K0(3) have "prefix (trace_reads s1) (chunk_reads K0)"
      by (rule prefix_order.trans [rotated])
    from related [OF K0(1,2) this] obtain c1 where "boundary K0 s1 c1 \<or> in_block K0 s1 c1"
      by blast
    then have "in_block K0 s1 c1"
      using Some boundary_constrained [of K0 s1 c1] by auto
    then have blk: "\<exists>K c. in_block K s1 c \<and> decoder K = process_instruction E"
      using K0(1) by blast
    from leave_block [OF run1 _ E z blk] Some obtain t fuel'' where
      t: "fuel'' < fuel'" "\<And>K c. decoder K = process_instruction E \<Longrightarrow> in_block K s1 c \<Longrightarrow> boundary K t c"
        "trace_reads t = trace_reads s1" "m_program t = m_program s1" "t = z \<or> m_pc t \<noteq> HALT_PC \<and> runs_to E fuel'' t z"
      by auto
    have "advances E s t"
      unfolding advances_def
    proof (intro conjI allI impI)
      fix K c
      assume K: "decoder K = process_instruction E" "boundary K s c" "prefix (trace_reads t) (chunk_reads K)"
      from related [OF K(1,2)] K(3) t(3) obtain c1 where c1: "core_step (abi E) (process_instruction E) c = Ok (advance c1)"
        "boundary K s1 (snd (advance c1)) \<or> in_block K s1 (snd (advance c1))"
        "c_clk (snd (advance c1)) \<in> {m_clk s + 8, m_clk s + 264}"
        by auto
      have "in_block K s1 (snd (advance c1))"
        using c1(2) Some boundary_constrained [of K s1 "snd (advance c1)"] by auto
      then have b: "boundary K t (snd (advance c1))"
        by (rule t(2) [OF K(1)])
      show "\<exists>c1. core_step (abi E) (process_instruction E) c = Ok (advance c1) \<and>
          boundary K t (snd (advance c1)) \<and> m_clk t \<in> {m_clk s + 8, m_clk s + 264}"
        using c1(1,3) b boundary_constrained [OF b] by (intro exI [of _ c1]) simp
    qed (use run(2) step(6,7) t(3,4) in simp_all)
    with t step(1) show ?thesis
      by (intro exI [of _ t] exI [of _ fuel'']) auto
  qed
qed

lemma path_exists:
  assumes "runs_to E fuel s z" "m_pc s \<noteq> HALT_PC" and E: "dump_only_reads E"
    and z: "last_error (m_memory z) = None" "m_maybe_unconstrained z = None"
    and K0: "decoder K0 = process_instruction E" "boundary K0 s c0" "prefix (trace_reads z) (chunk_reads K0)"
  shows "\<exists>ts. ts \<noteq> [] \<and> length ts \<le> fuel \<and> boundary_path E s ts \<and> path_end s ts = z"
  using assms(1,2) K0(2)
proof (induction fuel arbitrary: s c0 rule: less_induct)
  case (less fuel)
  from next_boundary [OF less.prems(1,2) E z K0(1) less.prems(3) K0(3)] obtain t fuel' where
    t: "fuel' < fuel" "advances E s t" "t = z \<or> m_pc t \<noteq> HALT_PC \<and> runs_to E fuel' t z"
    by blast
  show ?case
  proof (cases "t = z")
    case True
    with t show ?thesis
      by (intro exI [of _ "[t]"]) auto
  next
    case False
    with t(3) have run: "m_pc t \<noteq> HALT_PC" "runs_to E fuel' t z"
      by auto
    have "prefix (trace_reads t) (trace_reads z)"
      using run(2) reads.chunk_loop_steps [of E fuel' t z] by (simp add: runs_to_def)
    with K0(3) have "prefix (trace_reads t) (chunk_reads K0)"
      by (rule prefix_order.trans [rotated])
    with t(2) less.prems(3) K0(1) obtain c1 where "boundary K0 t c1"
      unfolding advances_def by blast
    from less.IH [OF t(1) run(2,1) this] obtain ts where
      "ts \<noteq> []" "length ts \<le> fuel'" "boundary_path E t ts" "path_end t ts = z"
      by blast
    with t show ?thesis
      by (intro exI [of _ "t # ts"]) auto
  qed
qed

subsection \<open>Clocks along a path\<close>

lemma path_program: "boundary_path E s ts \<Longrightarrow> m_program (path_end s ts) = m_program s"
  by (induction ts arbitrary: s) (auto simp: advances_def)

lemma path_clk:
  assumes "boundary_path E s ts" "boundary K s c" "decoder K = process_instruction E"
    "prefix (trace_reads (path_end s ts)) (chunk_reads K)" "unat (m_clk s) + 264 * length ts < 2 ^ 64"
  shows "unat (m_clk s) + 8 * length ts \<le> unat (m_clk (path_end s ts))"
    "unat (m_clk (path_end s ts)) \<le> unat (m_clk s) + 264 * length ts"
proof -
  have "unat (m_clk s) + 8 * length ts \<le> unat (m_clk (path_end s ts)) \<and>
      unat (m_clk (path_end s ts)) \<le> unat (m_clk s) + 264 * length ts"
    using assms
  proof (induction ts arbitrary: s c)
    case (Cons t ts)
    have adv: "advances E s t" and path: "boundary_path E t ts"
      using Cons.prems(1) by simp_all
    have "prefix (trace_reads t) (chunk_reads K)"
      using path_reads [OF path] Cons.prems(4) by (auto intro: prefix_order.trans)
    with adv Cons.prems(2,3) obtain c1 where c1: "boundary K t c1" "m_clk t \<in> {m_clk s + 8, m_clk s + 264}"
      unfolding advances_def by blast
    then have "unat (m_clk t) \<in> {unat (m_clk s) + 8, unat (m_clk s) + 264}"
      using Cons.prems(5) by (auto simp: unat_plus_if_size word_size)
    with Cons.IH [OF path c1(1) Cons.prems(3)] Cons.prems(4,5) show ?case
      by auto
  qed simp
  then show "unat (m_clk s) + 8 * length ts \<le> unat (m_clk (path_end s ts))"
    "unat (m_clk (path_end s ts)) \<le> unat (m_clk s) + 264 * length ts"
    by simp_all
qed

text \<open>A core VM that agrees with the start of a path, with the reads of the path, follows it to the end, and
  the loop of the core VM stops there and not before.\<close>

lemma path_core_loop:
  assumes "boundary_path E s ts" "ts \<noteq> []" "boundary K s c" "decoder K = process_instruction E"
    "prefix (trace_reads (path_end s ts)) (chunk_reads K)" "unat (m_clk s) + 264 * length ts < 2 ^ 64"
    "end_clk K = m_clk (path_end s ts)"
  shows "\<exists>c'. core_loop (abi E) (process_instruction E) (length ts) c =
      Some (Ok (if m_pc (path_end s ts) = HALT_PC then Done True else TraceEnd, c')) \<and> boundary K (path_end s ts) c' \<and>
    unat (m_clk s) < unat (m_clk (path_end s ts))"
  using assms
proof (induction ts arbitrary: s c)
  case (Cons t ts)
  let ?z = "path_end t ts"
  have adv: "advances E s t" and path: "boundary_path E t ts"
    using Cons.prems(1) by simp_all
  have "prefix (trace_reads t) (chunk_reads K)"
    using path_reads [OF path] Cons.prems(5) by (auto intro: prefix_order.trans)
  with adv Cons.prems(3,4) obtain c1 where c1: "core_step (abi E) (process_instruction E) c = Ok (advance c1)"
    "boundary K t (snd (advance c1))" "m_clk t \<in> {m_clk s + 8, m_clk s + 264}"
    unfolding advances_def by blast
  note clk = clk_grows [of "m_clk t" "m_clk s" "length ts", OF c1(3)]
  have t: "c_pc (snd (advance c1)) = m_pc t" "c_clk (snd (advance c1)) = m_clk t" "c_clk_end (snd (advance c1)) = m_clk ?z"
    using boundary_constrained [OF c1(2)] Cons.prems(7) by simp_all
  show ?case
  proof (cases "ts = []")
    case True
    with c1 t clk Cons.prems(6) show ?thesis
      by (intro exI [of _ "snd (advance c1)"]) (auto simp: advance_def is_trace_end_def Let_def)
  next
    case False
    from Cons.IH [OF path False c1(2) Cons.prems(4)] Cons.prems(5-7) clk obtain c' where
      c': "core_loop (abi E) (process_instruction E) (length ts) (snd (advance c1)) =
        Some (Ok (if m_pc ?z = HALT_PC then Done True else TraceEnd, c'))" "boundary K ?z c'" "unat (m_clk t) < unat (m_clk ?z)"
      by auto
    have "m_pc t \<noteq> HALT_PC"
      using False path by (cases ts) (simp_all add: advances_def)
    then have "fst (advance c1) = Done False"
      using t c'(3) by (auto simp: advance_def is_trace_end_def Let_def)
    with c1(1) c' clk Cons.prems(6) show ?thesis
      by (intro exI [of _ c'], cases "advance c1") auto
  qed
qed simp

end
