(* ===== verification/Air_Id.thy ===== *)
theory Air_Id
  imports Opcode Syscall_Code
begin

text \<open>
  \<open>crates/core/executor/src/air.rs\<close>: the identifiers of the tables (AIRs) of the prover, which the
  executor needs to estimate the size of a shard; the tables of costs and complexities from
  \<open>artifacts/*.json\<close>; and the table that proves an opcode (\<open>vm/shapes.rs\<close>) or a system call
  (\<open>syscall_code.rs\<close>). An identifier is represented by its discriminant, which the source gives
  explicitly; it has the name of the source, but for two names that occur elsewhere (\<open>UType_air\<close>,
  \<open>Range_air\<close>). An \<open>EnumMap\<close> from identifiers is a function; it is read at identifiers only.
\<close>

subsection \<open>Identifiers\<close>

type_synonym RiscvAirId = nat

abbreviation (input) Program :: RiscvAirId where "Program \<equiv> 0"
abbreviation (input) ShaExtend :: RiscvAirId where "ShaExtend \<equiv> 1"
abbreviation (input) ShaExtendControl :: RiscvAirId where "ShaExtendControl \<equiv> 2"
abbreviation (input) ShaExtendControlUser :: RiscvAirId where "ShaExtendControlUser \<equiv> 3"
abbreviation (input) ShaCompress :: RiscvAirId where "ShaCompress \<equiv> 4"
abbreviation (input) ShaCompressControl :: RiscvAirId where "ShaCompressControl \<equiv> 5"
abbreviation (input) ShaCompressControlUser :: RiscvAirId where "ShaCompressControlUser \<equiv> 6"
abbreviation (input) EdAddAssign :: RiscvAirId where "EdAddAssign \<equiv> 7"
abbreviation (input) EdAddAssignUser :: RiscvAirId where "EdAddAssignUser \<equiv> 8"
abbreviation (input) EdDecompress :: RiscvAirId where "EdDecompress \<equiv> 9"
abbreviation (input) EdDecompressUser :: RiscvAirId where "EdDecompressUser \<equiv> 10"
abbreviation (input) Secp256k1AddAssign :: RiscvAirId where "Secp256k1AddAssign \<equiv> 11"
abbreviation (input) Secp256k1AddAssignUser :: RiscvAirId where "Secp256k1AddAssignUser \<equiv> 12"
abbreviation (input) Secp256k1DoubleAssign :: RiscvAirId where "Secp256k1DoubleAssign \<equiv> 13"
abbreviation (input) Secp256k1DoubleAssignUser :: RiscvAirId where "Secp256k1DoubleAssignUser \<equiv> 14"
abbreviation (input) Secp256r1AddAssign :: RiscvAirId where "Secp256r1AddAssign \<equiv> 15"
abbreviation (input) Secp256r1AddAssignUser :: RiscvAirId where "Secp256r1AddAssignUser \<equiv> 16"
abbreviation (input) Secp256r1DoubleAssign :: RiscvAirId where "Secp256r1DoubleAssign \<equiv> 17"
abbreviation (input) Secp256r1DoubleAssignUser :: RiscvAirId where "Secp256r1DoubleAssignUser \<equiv> 18"
abbreviation (input) KeccakPermute :: RiscvAirId where "KeccakPermute \<equiv> 19"
abbreviation (input) KeccakPermuteControl :: RiscvAirId where "KeccakPermuteControl \<equiv> 20"
abbreviation (input) KeccakPermuteControlUser :: RiscvAirId where "KeccakPermuteControlUser \<equiv> 21"
abbreviation (input) Bn254AddAssign :: RiscvAirId where "Bn254AddAssign \<equiv> 22"
abbreviation (input) Bn254AddAssignUser :: RiscvAirId where "Bn254AddAssignUser \<equiv> 23"
abbreviation (input) Bn254DoubleAssign :: RiscvAirId where "Bn254DoubleAssign \<equiv> 24"
abbreviation (input) Bn254DoubleAssignUser :: RiscvAirId where "Bn254DoubleAssignUser \<equiv> 25"
abbreviation (input) Bls12381AddAssign :: RiscvAirId where "Bls12381AddAssign \<equiv> 26"
abbreviation (input) Bls12381AddAssignUser :: RiscvAirId where "Bls12381AddAssignUser \<equiv> 27"
abbreviation (input) Bls12381DoubleAssign :: RiscvAirId where "Bls12381DoubleAssign \<equiv> 28"
abbreviation (input) Bls12381DoubleAssignUser :: RiscvAirId where "Bls12381DoubleAssignUser \<equiv> 29"
abbreviation (input) Uint256MulMod :: RiscvAirId where "Uint256MulMod \<equiv> 30"
abbreviation (input) Uint256MulModUser :: RiscvAirId where "Uint256MulModUser \<equiv> 31"
abbreviation (input) Uint256Ops :: RiscvAirId where "Uint256Ops \<equiv> 32"
abbreviation (input) Uint256OpsUser :: RiscvAirId where "Uint256OpsUser \<equiv> 33"
abbreviation (input) Bls12381FpOpAssign :: RiscvAirId where "Bls12381FpOpAssign \<equiv> 34"
abbreviation (input) Bls12381FpOpAssignUser :: RiscvAirId where "Bls12381FpOpAssignUser \<equiv> 35"
abbreviation (input) Bls12381Fp2AddSubAssign :: RiscvAirId where "Bls12381Fp2AddSubAssign \<equiv> 36"
abbreviation (input) Bls12381Fp2AddSubAssignUser :: RiscvAirId where "Bls12381Fp2AddSubAssignUser \<equiv> 37"
abbreviation (input) Bls12381Fp2MulAssign :: RiscvAirId where "Bls12381Fp2MulAssign \<equiv> 38"
abbreviation (input) Bls12381Fp2MulAssignUser :: RiscvAirId where "Bls12381Fp2MulAssignUser \<equiv> 39"
abbreviation (input) Bn254FpOpAssign :: RiscvAirId where "Bn254FpOpAssign \<equiv> 40"
abbreviation (input) Bn254FpOpAssignUser :: RiscvAirId where "Bn254FpOpAssignUser \<equiv> 41"
abbreviation (input) Bn254Fp2AddSubAssign :: RiscvAirId where "Bn254Fp2AddSubAssign \<equiv> 42"
abbreviation (input) Bn254Fp2AddSubAssignUser :: RiscvAirId where "Bn254Fp2AddSubAssignUser \<equiv> 43"
abbreviation (input) Bn254Fp2MulAssign :: RiscvAirId where "Bn254Fp2MulAssign \<equiv> 44"
abbreviation (input) Bn254Fp2MulAssignUser :: RiscvAirId where "Bn254Fp2MulAssignUser \<equiv> 45"
abbreviation (input) Poseidon2 :: RiscvAirId where "Poseidon2 \<equiv> 46"
abbreviation (input) Poseidon2User :: RiscvAirId where "Poseidon2User \<equiv> 47"
abbreviation (input) SyscallCore :: RiscvAirId where "SyscallCore \<equiv> 48"
abbreviation (input) SyscallCoreUser :: RiscvAirId where "SyscallCoreUser \<equiv> 49"
abbreviation (input) SyscallPrecompile :: RiscvAirId where "SyscallPrecompile \<equiv> 50"
abbreviation (input) SyscallPrecompileUser :: RiscvAirId where "SyscallPrecompileUser \<equiv> 51"
abbreviation (input) DivRem :: RiscvAirId where "DivRem \<equiv> 52"
abbreviation (input) DivRemUser :: RiscvAirId where "DivRemUser \<equiv> 53"
abbreviation (input) Add :: RiscvAirId where "Add \<equiv> 54"
abbreviation (input) AddUser :: RiscvAirId where "AddUser \<equiv> 55"
abbreviation (input) Addi :: RiscvAirId where "Addi \<equiv> 56"
abbreviation (input) AddiUser :: RiscvAirId where "AddiUser \<equiv> 57"
abbreviation (input) Addw :: RiscvAirId where "Addw \<equiv> 58"
abbreviation (input) AddwUser :: RiscvAirId where "AddwUser \<equiv> 59"
abbreviation (input) Sub :: RiscvAirId where "Sub \<equiv> 60"
abbreviation (input) SubUser :: RiscvAirId where "SubUser \<equiv> 61"
abbreviation (input) Subw :: RiscvAirId where "Subw \<equiv> 62"
abbreviation (input) SubwUser :: RiscvAirId where "SubwUser \<equiv> 63"
abbreviation (input) Bitwise :: RiscvAirId where "Bitwise \<equiv> 64"
abbreviation (input) BitwiseUser :: RiscvAirId where "BitwiseUser \<equiv> 65"
abbreviation (input) Mul :: RiscvAirId where "Mul \<equiv> 66"
abbreviation (input) MulUser :: RiscvAirId where "MulUser \<equiv> 67"
abbreviation (input) ShiftRight :: RiscvAirId where "ShiftRight \<equiv> 68"
abbreviation (input) ShiftRightUser :: RiscvAirId where "ShiftRightUser \<equiv> 69"
abbreviation (input) ShiftLeft :: RiscvAirId where "ShiftLeft \<equiv> 70"
abbreviation (input) ShiftLeftUser :: RiscvAirId where "ShiftLeftUser \<equiv> 71"
abbreviation (input) Lt :: RiscvAirId where "Lt \<equiv> 72"
abbreviation (input) LtUser :: RiscvAirId where "LtUser \<equiv> 73"
abbreviation (input) LoadByte :: RiscvAirId where "LoadByte \<equiv> 74"
abbreviation (input) LoadByteUser :: RiscvAirId where "LoadByteUser \<equiv> 75"
abbreviation (input) LoadHalf :: RiscvAirId where "LoadHalf \<equiv> 76"
abbreviation (input) LoadHalfUser :: RiscvAirId where "LoadHalfUser \<equiv> 77"
abbreviation (input) LoadWord :: RiscvAirId where "LoadWord \<equiv> 78"
abbreviation (input) LoadWordUser :: RiscvAirId where "LoadWordUser \<equiv> 79"
abbreviation (input) LoadX0 :: RiscvAirId where "LoadX0 \<equiv> 80"
abbreviation (input) LoadX0User :: RiscvAirId where "LoadX0User \<equiv> 81"
abbreviation (input) LoadDouble :: RiscvAirId where "LoadDouble \<equiv> 82"
abbreviation (input) LoadDoubleUser :: RiscvAirId where "LoadDoubleUser \<equiv> 83"
abbreviation (input) StoreByte :: RiscvAirId where "StoreByte \<equiv> 84"
abbreviation (input) StoreByteUser :: RiscvAirId where "StoreByteUser \<equiv> 85"
abbreviation (input) StoreHalf :: RiscvAirId where "StoreHalf \<equiv> 86"
abbreviation (input) StoreHalfUser :: RiscvAirId where "StoreHalfUser \<equiv> 87"
abbreviation (input) StoreWord :: RiscvAirId where "StoreWord \<equiv> 88"
abbreviation (input) StoreWordUser :: RiscvAirId where "StoreWordUser \<equiv> 89"
abbreviation (input) StoreDouble :: RiscvAirId where "StoreDouble \<equiv> 90"
abbreviation (input) StoreDoubleUser :: RiscvAirId where "StoreDoubleUser \<equiv> 91"
abbreviation (input) UType_air :: RiscvAirId where "UType_air \<equiv> 92"
abbreviation (input) UTypeUser :: RiscvAirId where "UTypeUser \<equiv> 93"
abbreviation (input) Branch :: RiscvAirId where "Branch \<equiv> 94"
abbreviation (input) BranchUser :: RiscvAirId where "BranchUser \<equiv> 95"
abbreviation (input) Jal :: RiscvAirId where "Jal \<equiv> 96"
abbreviation (input) JalUser :: RiscvAirId where "JalUser \<equiv> 97"
abbreviation (input) Jalr :: RiscvAirId where "Jalr \<equiv> 98"
abbreviation (input) JalrUser :: RiscvAirId where "JalrUser \<equiv> 99"
abbreviation (input) SyscallInstrs :: RiscvAirId where "SyscallInstrs \<equiv> 100"
abbreviation (input) SyscallInstrsUser :: RiscvAirId where "SyscallInstrsUser \<equiv> 101"
abbreviation (input) MemoryBump :: RiscvAirId where "MemoryBump \<equiv> 102"
abbreviation (input) StateBump :: RiscvAirId where "StateBump \<equiv> 103"
abbreviation (input) MemoryGlobalInit :: RiscvAirId where "MemoryGlobalInit \<equiv> 104"
abbreviation (input) MemoryGlobalFinalize :: RiscvAirId where "MemoryGlobalFinalize \<equiv> 105"
abbreviation (input) MemoryLocal :: RiscvAirId where "MemoryLocal \<equiv> 106"
abbreviation (input) Global :: RiscvAirId where "Global \<equiv> 107"
abbreviation (input) Byte :: RiscvAirId where "Byte \<equiv> 108"
abbreviation (input) Range_air :: RiscvAirId where "Range_air \<equiv> 109"
abbreviation (input) AluX0 :: RiscvAirId where "AluX0 \<equiv> 110"
abbreviation (input) AluX0User :: RiscvAirId where "AluX0User \<equiv> 111"
abbreviation (input) Mprotect :: RiscvAirId where "Mprotect \<equiv> 112"
abbreviation (input) SigReturn :: RiscvAirId where "SigReturn \<equiv> 113"
abbreviation (input) InstructionDecode :: RiscvAirId where "InstructionDecode \<equiv> 114"
abbreviation (input) InstructionFetch :: RiscvAirId where "InstructionFetch \<equiv> 115"
abbreviation (input) PageProt :: RiscvAirId where "PageProt \<equiv> 116"
abbreviation (input) PageProtLocal :: RiscvAirId where "PageProtLocal \<equiv> 117"
abbreviation (input) PageProtGlobalInit :: RiscvAirId where "PageProtGlobalInit \<equiv> 118"
abbreviation (input) PageProtGlobalFinalize :: RiscvAirId where "PageProtGlobalFinalize \<equiv> 119"
abbreviation (input) TrapExec :: RiscvAirId where "TrapExec \<equiv> 120"
abbreviation (input) TrapMem :: RiscvAirId where "TrapMem \<equiv> 121"

text \<open>All the identifiers, in the order in which \<open>EnumIter\<close> and \<open>EnumMap\<close> list them.\<close>

definition air_ids :: "RiscvAirId list" where
  "air_ids = [0..<122]"

definition core_airs :: "RiscvAirId list" where
  "core_airs = [
     Add, AddUser, Addi, AddiUser, Addw, AddwUser, Sub, SubUser, Subw, SubwUser, Mul, MulUser, Bitwise,
     BitwiseUser, ShiftLeft, ShiftLeftUser, ShiftRight, ShiftRightUser, DivRem, DivRemUser, Lt, LtUser,
     UType_air, UTypeUser, MemoryLocal, MemoryBump, StateBump, LoadByte, LoadByteUser, LoadHalf,
     LoadHalfUser, LoadWord, LoadWordUser, LoadDouble, LoadDoubleUser, LoadX0, LoadX0User, StoreByte,
     StoreByteUser, StoreHalf, StoreHalfUser, StoreWord, StoreWordUser, StoreDouble, StoreDoubleUser,
     Branch, BranchUser, Jal, JalUser, Jalr, JalrUser, SyscallCore, SyscallInstrs, SyscallInstrsUser,
     Global, AluX0, AluX0User, Mprotect, InstructionDecode, InstructionFetch, PageProt, PageProtLocal,
     TrapExec, TrapMem]"

text \<open>\<open>is_core\<close>: the variants that \<open>#[subenum(CoreAirId)]\<close> marks.\<close>

definition is_core :: "RiscvAirId \<Rightarrow> bool" where
  "is_core a \<longleftrightarrow> a \<in> {
     SyscallCore, SyscallCoreUser, DivRem, DivRemUser, Add, AddUser, Addi, AddiUser, Addw, AddwUser, Sub,
     SubUser, Subw, SubwUser, Bitwise, BitwiseUser, Mul, MulUser, ShiftRight, ShiftRightUser, ShiftLeft,
     ShiftLeftUser, Lt, LtUser, LoadByte, LoadByteUser, LoadHalf, LoadHalfUser, LoadWord, LoadWordUser,
     LoadX0, LoadX0User, LoadDouble, LoadDoubleUser, StoreByte, StoreByteUser, StoreHalf, StoreHalfUser,
     StoreWord, StoreWordUser, StoreDouble, StoreDoubleUser, UType_air, UTypeUser, Branch, BranchUser, Jal,
     JalUser, Jalr, JalrUser, SyscallInstrs, SyscallInstrsUser, MemoryBump, StateBump, MemoryLocal, Global,
     AluX0, AluX0User, Mprotect, InstructionDecode, InstructionFetch, PageProt, PageProtLocal, TrapExec,
     TrapMem}"

definition is_memory :: "RiscvAirId \<Rightarrow> bool" where
  "is_memory a \<longleftrightarrow> a \<in> {
     MemoryGlobalInit, MemoryGlobalFinalize, PageProtGlobalInit, PageProtGlobalFinalize, Global}"

definition is_precompile :: "RiscvAirId \<Rightarrow> bool" where
  "is_precompile a \<longleftrightarrow> a \<in> {
     ShaExtend, ShaCompress, EdAddAssign, EdDecompress, Secp256k1AddAssign, Secp256k1DoubleAssign,
     Secp256r1AddAssign, Secp256r1DoubleAssign, KeccakPermute, Bn254AddAssign, Bn254DoubleAssign,
     Bls12381AddAssign, Bls12381DoubleAssign, Uint256MulMod, Uint256Ops, Bls12381FpOpAssign,
     Bls12381Fp2AddSubAssign, Bls12381Fp2MulAssign, Bn254FpOpAssign, Bn254Fp2AddSubAssign,
     Bn254Fp2MulAssign, Poseidon2, SigReturn}"

definition rows_per_event :: "RiscvAirId \<Rightarrow> nat" where
  "rows_per_event a = (if a = ShaCompress then 80 else if a = ShaExtend then 48
     else if a = KeccakPermute then 24 else 1)"

definition control_air_id :: "RiscvAirId \<Rightarrow> bool \<Rightarrow> RiscvAirId option" where
  "control_air_id a page_protect_enabled = (if page_protect_enabled then
       (if a = ShaCompress then Some ShaCompressControlUser
        else if a = ShaExtend then Some ShaExtendControlUser
        else if a = KeccakPermute then Some KeccakPermuteControlUser else None)
     else
       (if a = ShaCompress then Some ShaCompressControl
        else if a = ShaExtend then Some ShaExtendControl
        else if a = KeccakPermute then Some KeccakPermuteControl else None))"

subsection \<open>Costs\<close>

text \<open>The three JSON files, read into an \<open>EnumMap\<close>: each has one entry for every identifier.\<close>

definition rv64im_costs :: "RiscvAirId \<Rightarrow> nat" where
  "rv64im_costs a = (if a < 122 then [
     17, 128, 18, 66, 206, 53, 125, 1347, 1395, 1123, 1171, 1599, 1647, 1591, 1615, 1599, 1647, 1591, 1615,
     2640, 634, 682, 1599, 1647, 1591, 1615, 2399, 2447, 2391, 2415, 371, 419, 477, 597, 450, 498, 880, 928,
     1639, 1687, 306, 354, 592, 640, 1095, 1143, 348, 372, 10, 11, 10, 11, 246, 247, 33, 34, 30, 31, 36, 37,
     33, 34, 32, 33, 51, 52, 82, 83, 69, 70, 65, 66, 44, 45, 47, 48, 44, 45, 44, 45, 48, 49, 39, 40, 50, 51,
     45, 46, 44, 45, 39, 40, 31, 32, 45, 46, 31, 32, 35, 36, 65, 117, 15, 14, 30, 30, 20, 241, 13, 3, 34,
     68, 40, 660, 61, 36, 60, 10, 25, 25, 54, 84] ! a else 0)"

definition rv64im_complexity :: "RiscvAirId \<Rightarrow> nat" where
  "rv64im_complexity a = (if a < 122 then [
     0, 80, 21, 104, 300, 21, 148, 792, 875, 755, 840, 918, 1001, 904, 945, 918, 1001, 904, 945, 2859, 331,
     416, 918, 1001, 904, 945, 1374, 1457, 1356, 1397, 253, 336, 297, 508, 317, 400, 615, 698, 994, 1077,
     217, 300, 415, 498, 666, 749, 497, 538, 2, 3, 2, 3, 348, 352, 16, 20, 15, 19, 21, 25, 16, 20, 16, 20,
     20, 24, 61, 65, 78, 82, 69, 73, 42, 46, 32, 36, 33, 37, 33, 37, 35, 39, 24, 28, 32, 36, 27, 31, 27, 31,
     23, 27, 19, 23, 49, 53, 24, 28, 26, 30, 93, 135, 5, 8, 31, 31, 4, 216, 0, 0, 17, 58, 45, 411, 163, 13,
     37, 3, 28, 27, 28, 51] ! a else 0)"

definition rv64im_complexity_mprotect :: "RiscvAirId \<Rightarrow> nat" where
  "rv64im_complexity_mprotect a = (if a < 122 then [
     0, 80, 22, 104, 300, 22, 148, 793, 875, 756, 840, 919, 1001, 905, 945, 919, 1001, 905, 945, 2859, 332,
     416, 919, 1001, 905, 945, 1375, 1457, 1357, 1397, 254, 336, 298, 508, 318, 400, 616, 698, 995, 1077,
     218, 300, 416, 498, 667, 749, 498, 538, 3, 3, 3, 3, 349, 352, 17, 20, 16, 19, 22, 25, 17, 20, 17, 20,
     21, 24, 62, 65, 79, 82, 70, 73, 43, 46, 33, 36, 34, 37, 34, 37, 36, 39, 25, 28, 33, 36, 28, 31, 28, 31,
     24, 27, 20, 23, 50, 53, 25, 28, 27, 30, 94, 145, 5, 8, 31, 31, 4, 216, 0, 0, 18, 58, 50, 410, 161, 12,
     33, 2, 27, 26, 37, 60] ! a else 0)"

definition get_complexity_mapping :: "bool \<Rightarrow> RiscvAirId \<Rightarrow> nat" where
  "get_complexity_mapping mprotect = (if mprotect then rv64im_complexity_mprotect else rv64im_complexity)"

subsection \<open>The table for an opcode or a system call\<close>

definition riscv_air_id_from_opcode :: "Opcode \<Rightarrow> RiscvAirId option" where
  "riscv_air_id_from_opcode opcode = (case opcode of
      ADD \<Rightarrow> Some Add | ADDI \<Rightarrow> Some Addi | ADDW \<Rightarrow> Some Addw
      | SUB \<Rightarrow> Some Sub | SUBW \<Rightarrow> Some Subw | XOR_op \<Rightarrow> Some Bitwise
      | OR_op \<Rightarrow> Some Bitwise | AND_op \<Rightarrow> Some Bitwise | SLT \<Rightarrow> Some Lt
      | SLTU \<Rightarrow> Some Lt | MUL \<Rightarrow> Some Mul | MULH \<Rightarrow> Some Mul
      | MULHU \<Rightarrow> Some Mul | MULHSU \<Rightarrow> Some Mul | MULW \<Rightarrow> Some Mul
      | DIV \<Rightarrow> Some DivRem | DIVU \<Rightarrow> Some DivRem | REM \<Rightarrow> Some DivRem
      | REMU \<Rightarrow> Some DivRem | DIVW \<Rightarrow> Some DivRem | DIVUW \<Rightarrow> Some DivRem
      | REMW \<Rightarrow> Some DivRem | REMUW \<Rightarrow> Some DivRem | SLL \<Rightarrow> Some ShiftLeft
      | SLLW \<Rightarrow> Some ShiftLeft | SRLW \<Rightarrow> Some ShiftRight
      | SRAW \<Rightarrow> Some ShiftRight | SRL \<Rightarrow> Some ShiftRight
      | SRA \<Rightarrow> Some ShiftRight | LB \<Rightarrow> Some LoadByte | LBU \<Rightarrow> Some LoadByte
      | LH \<Rightarrow> Some LoadHalf | LHU \<Rightarrow> Some LoadHalf | LW \<Rightarrow> Some LoadWord
      | LWU \<Rightarrow> Some LoadWord | LD \<Rightarrow> Some LoadDouble | SB \<Rightarrow> Some StoreByte
      | SH \<Rightarrow> Some StoreHalf | SW \<Rightarrow> Some StoreWord
      | SD \<Rightarrow> Some StoreDouble | BEQ \<Rightarrow> Some Branch | BNE \<Rightarrow> Some Branch
      | BLT \<Rightarrow> Some Branch | BGE \<Rightarrow> Some Branch | BLTU \<Rightarrow> Some Branch
      | BGEU \<Rightarrow> Some Branch | AUIPC \<Rightarrow> Some UType_air
      | LUI \<Rightarrow> Some UType_air | JAL \<Rightarrow> Some Jal | JALR \<Rightarrow> Some Jalr
      | ECALL \<Rightarrow> Some SyscallInstrs | EBREAK \<Rightarrow> None | UNIMP \<Rightarrow> None)"

definition riscv_air_id_from_opcode_user :: "Opcode \<Rightarrow> RiscvAirId option" where
  "riscv_air_id_from_opcode_user opcode = (case opcode of
      ADD \<Rightarrow> Some AddUser | ADDI \<Rightarrow> Some AddiUser | ADDW \<Rightarrow> Some AddwUser
      | SUB \<Rightarrow> Some SubUser | SUBW \<Rightarrow> Some SubwUser
      | XOR_op \<Rightarrow> Some BitwiseUser | OR_op \<Rightarrow> Some BitwiseUser
      | AND_op \<Rightarrow> Some BitwiseUser | SLT \<Rightarrow> Some LtUser
      | SLTU \<Rightarrow> Some LtUser | MUL \<Rightarrow> Some MulUser | MULH \<Rightarrow> Some MulUser
      | MULHU \<Rightarrow> Some MulUser | MULHSU \<Rightarrow> Some MulUser
      | MULW \<Rightarrow> Some MulUser | DIV \<Rightarrow> Some DivRemUser
      | DIVU \<Rightarrow> Some DivRemUser | REM \<Rightarrow> Some DivRemUser
      | REMU \<Rightarrow> Some DivRemUser | DIVW \<Rightarrow> Some DivRemUser
      | DIVUW \<Rightarrow> Some DivRemUser | REMW \<Rightarrow> Some DivRemUser
      | REMUW \<Rightarrow> Some DivRemUser | SLL \<Rightarrow> Some ShiftLeftUser
      | SLLW \<Rightarrow> Some ShiftLeftUser | SRLW \<Rightarrow> Some ShiftRightUser
      | SRAW \<Rightarrow> Some ShiftRightUser | SRL \<Rightarrow> Some ShiftRightUser
      | SRA \<Rightarrow> Some ShiftRightUser | LB \<Rightarrow> Some LoadByteUser
      | LBU \<Rightarrow> Some LoadByteUser | LH \<Rightarrow> Some LoadHalfUser
      | LHU \<Rightarrow> Some LoadHalfUser | LW \<Rightarrow> Some LoadWordUser
      | LWU \<Rightarrow> Some LoadWordUser | LD \<Rightarrow> Some LoadDoubleUser
      | SB \<Rightarrow> Some StoreByteUser | SH \<Rightarrow> Some StoreHalfUser
      | SW \<Rightarrow> Some StoreWordUser | SD \<Rightarrow> Some StoreDoubleUser
      | BEQ \<Rightarrow> Some BranchUser | BNE \<Rightarrow> Some BranchUser
      | BLT \<Rightarrow> Some BranchUser | BGE \<Rightarrow> Some BranchUser
      | BLTU \<Rightarrow> Some BranchUser | BGEU \<Rightarrow> Some BranchUser
      | AUIPC \<Rightarrow> Some UTypeUser | LUI \<Rightarrow> Some UTypeUser
      | JAL \<Rightarrow> Some JalUser | JALR \<Rightarrow> Some JalrUser
      | ECALL \<Rightarrow> Some SyscallInstrsUser | EBREAK \<Rightarrow> None | UNIMP \<Rightarrow> None)"

definition riscv_air_id_from_opcode_flag :: "Opcode \<Rightarrow> bool \<Rightarrow> RiscvAirId option" where
  "riscv_air_id_from_opcode_flag opcode enable_untrusted_programs =
    (if enable_untrusted_programs then riscv_air_id_from_opcode_user opcode
     else riscv_air_id_from_opcode opcode)"

primrec as_air_id :: "SyscallCode \<Rightarrow> RiscvAirId option" where
    "as_air_id HALT = None" | "as_air_id WRITE = None" | "as_air_id ENTER_UNCONSTRAINED = None"
    | "as_air_id EXIT_UNCONSTRAINED = None" | "as_air_id SHA_EXTEND = Some ShaExtend"
    | "as_air_id SHA_COMPRESS = Some ShaCompress" | "as_air_id ED_ADD = Some EdAddAssign"
    | "as_air_id ED_DECOMPRESS = Some EdDecompress" | "as_air_id KECCAK_PERMUTE = Some KeccakPermute"
    | "as_air_id SECP256K1_ADD = Some Secp256k1AddAssign"
    | "as_air_id SECP256K1_DOUBLE = Some Secp256k1DoubleAssign" | "as_air_id SECP256K1_DECOMPRESS = None"
    | "as_air_id BN254_ADD = Some Bn254AddAssign" | "as_air_id BN254_DOUBLE = Some Bn254DoubleAssign"
    | "as_air_id COMMIT = None" | "as_air_id COMMIT_DEFERRED_PROOFS = None"
    | "as_air_id VERIFY_SP1_PROOF = None" | "as_air_id BLS12381_DECOMPRESS = None"
    | "as_air_id HINT_LEN = None" | "as_air_id HINT_READ = None"
    | "as_air_id UINT256_MUL = Some Uint256MulMod" | "as_air_id U256XU2048_MUL = None"
    | "as_air_id BLS12381_ADD = Some Bls12381AddAssign"
    | "as_air_id BLS12381_DOUBLE = Some Bls12381DoubleAssign"
    | "as_air_id BLS12381_FP_ADD = Some Bls12381FpOpAssign"
    | "as_air_id BLS12381_FP_SUB = Some Bls12381FpOpAssign"
    | "as_air_id BLS12381_FP_MUL = Some Bls12381FpOpAssign"
    | "as_air_id BLS12381_FP2_ADD = Some Bls12381Fp2AddSubAssign"
    | "as_air_id BLS12381_FP2_SUB = Some Bls12381Fp2AddSubAssign"
    | "as_air_id BLS12381_FP2_MUL = Some Bls12381Fp2MulAssign"
    | "as_air_id BN254_FP_ADD = Some Bn254FpOpAssign" | "as_air_id BN254_FP_SUB = Some Bn254FpOpAssign"
    | "as_air_id BN254_FP_MUL = Some Bn254FpOpAssign"
    | "as_air_id BN254_FP2_ADD = Some Bn254Fp2AddSubAssign"
    | "as_air_id BN254_FP2_SUB = Some Bn254Fp2AddSubAssign"
    | "as_air_id BN254_FP2_MUL = Some Bn254Fp2MulAssign"
    | "as_air_id SECP256R1_ADD = Some Secp256r1AddAssign"
    | "as_air_id SECP256R1_DOUBLE = Some Secp256r1DoubleAssign" | "as_air_id SECP256R1_DECOMPRESS = None"
    | "as_air_id UINT256_ADD_CARRY = Some Uint256Ops" | "as_air_id UINT256_MUL_CARRY = Some Uint256Ops"
    | "as_air_id MPROTECT = Some Mprotect" | "as_air_id POSEIDON2 = Some Poseidon2"
    | "as_air_id SIG_RETURN = Some SigReturn" | "as_air_id HINT_MPROTECT_FLUSH = None"
    | "as_air_id DUMP_ELF = None" | "as_air_id INSERT_PROFILER_SYMBOLS = None"
    | "as_air_id DELETE_PROFILER_SYMBOLS = None"

primrec as_air_id_user :: "SyscallCode \<Rightarrow> RiscvAirId option" where
    "as_air_id_user HALT = None" | "as_air_id_user WRITE = None"
    | "as_air_id_user ENTER_UNCONSTRAINED = None" | "as_air_id_user EXIT_UNCONSTRAINED = None"
    | "as_air_id_user SHA_EXTEND = Some ShaExtend" | "as_air_id_user SHA_COMPRESS = Some ShaCompress"
    | "as_air_id_user ED_ADD = Some EdAddAssignUser"
    | "as_air_id_user ED_DECOMPRESS = Some EdDecompressUser"
    | "as_air_id_user KECCAK_PERMUTE = Some KeccakPermute"
    | "as_air_id_user SECP256K1_ADD = Some Secp256k1AddAssignUser"
    | "as_air_id_user SECP256K1_DOUBLE = Some Secp256k1DoubleAssignUser"
    | "as_air_id_user SECP256K1_DECOMPRESS = None" | "as_air_id_user BN254_ADD = Some Bn254AddAssignUser"
    | "as_air_id_user BN254_DOUBLE = Some Bn254DoubleAssignUser" | "as_air_id_user COMMIT = None"
    | "as_air_id_user COMMIT_DEFERRED_PROOFS = None" | "as_air_id_user VERIFY_SP1_PROOF = None"
    | "as_air_id_user BLS12381_DECOMPRESS = None" | "as_air_id_user HINT_LEN = None"
    | "as_air_id_user HINT_READ = None" | "as_air_id_user UINT256_MUL = Some Uint256MulModUser"
    | "as_air_id_user U256XU2048_MUL = None" | "as_air_id_user BLS12381_ADD = Some Bls12381AddAssignUser"
    | "as_air_id_user BLS12381_DOUBLE = Some Bls12381DoubleAssignUser"
    | "as_air_id_user BLS12381_FP_ADD = Some Bls12381FpOpAssignUser"
    | "as_air_id_user BLS12381_FP_SUB = Some Bls12381FpOpAssignUser"
    | "as_air_id_user BLS12381_FP_MUL = Some Bls12381FpOpAssignUser"
    | "as_air_id_user BLS12381_FP2_ADD = Some Bls12381Fp2AddSubAssignUser"
    | "as_air_id_user BLS12381_FP2_SUB = Some Bls12381Fp2AddSubAssignUser"
    | "as_air_id_user BLS12381_FP2_MUL = Some Bls12381Fp2MulAssignUser"
    | "as_air_id_user BN254_FP_ADD = Some Bn254FpOpAssignUser"
    | "as_air_id_user BN254_FP_SUB = Some Bn254FpOpAssignUser"
    | "as_air_id_user BN254_FP_MUL = Some Bn254FpOpAssignUser"
    | "as_air_id_user BN254_FP2_ADD = Some Bn254Fp2AddSubAssignUser"
    | "as_air_id_user BN254_FP2_SUB = Some Bn254Fp2AddSubAssignUser"
    | "as_air_id_user BN254_FP2_MUL = Some Bn254Fp2MulAssignUser"
    | "as_air_id_user SECP256R1_ADD = Some Secp256r1AddAssignUser"
    | "as_air_id_user SECP256R1_DOUBLE = Some Secp256r1DoubleAssignUser"
    | "as_air_id_user SECP256R1_DECOMPRESS = None"
    | "as_air_id_user UINT256_ADD_CARRY = Some Uint256OpsUser"
    | "as_air_id_user UINT256_MUL_CARRY = Some Uint256OpsUser" | "as_air_id_user MPROTECT = Some Mprotect"
    | "as_air_id_user POSEIDON2 = Some Poseidon2User" | "as_air_id_user SIG_RETURN = Some SigReturn"
    | "as_air_id_user HINT_MPROTECT_FLUSH = None" | "as_air_id_user DUMP_ELF = None"
    | "as_air_id_user INSERT_PROFILER_SYMBOLS = None" | "as_air_id_user DELETE_PROFILER_SYMBOLS = None"

definition as_air_id_flag :: "SyscallCode \<Rightarrow> bool \<Rightarrow> RiscvAirId option" where
  "as_air_id_flag code enable_untrusted_programs =
    (if enable_untrusted_programs then as_air_id_user code else as_air_id code)"

end
