(* ===== verification/Compressed_Memory.thy ===== *)
theory Compressed_Memory
  imports Sp1_Prelude
begin

text \<open>
  \<open>crates/core/executor/src/vm/memory.rs\<close>: \<open>CompressedMemory\<close> and \<open>CompressedPages\<close>, which keep one bit for
  each word of the memory and one for each page of it. Both are an index vector into a list of pages of
  bits, allocated when first touched; the source has the code twice, with different constants, and here
  it has the constants as parameters: \<open>maxp\<close> slots in the index vector and \<open>nw\<close> words of 64 bits in a page.

  The locale \<open>bit_set\<close> is the contract of both: a set of keys, with the laws of insertion, lookup, listing,
  counting and union.
\<close>

subsection \<open>Pages of bits\<close>

type_synonym BitPage = "nat \<Rightarrow> u64"

definition page_new :: BitPage where
  "page_new = (\<lambda>_. 0)"

definition word_mask :: "nat \<Rightarrow> nat \<times> u64" where
  "word_mask idx = (drop_bit 6 idx, push_bit (idx AND 63) 1)"

definition page_set :: "BitPage \<Rightarrow> nat \<Rightarrow> bool \<Rightarrow> bool \<times> BitPage" where
  "page_set p idx v = (let (w, m) = word_mask idx; prev = (p w AND m \<noteq> 0)
     in (prev, p(w := if v then p w OR m else p w AND NOT m)))"

definition page_get :: "BitPage \<Rightarrow> nat \<Rightarrow> bool" where
  "page_get p idx = (let (w, m) = word_mask idx in p w AND m \<noteq> 0)"

definition trailing_zeros :: "u64 \<Rightarrow> nat" where
  "trailing_zeros w = length (takeWhile (\<lambda>i. \<not> bit w i) [0..<64])"

text \<open>The loop of \<open>iter_set_indices\<close> over one word: it reports the lowest bit and clears it.\<close>

lemma low_bit:
  fixes w :: u64
  assumes "w \<noteq> 0"
  shows "bit w (trailing_zeros w)" "i < trailing_zeros w \<Longrightarrow> \<not> bit w i" "trailing_zeros w < 64"
proof -
  obtain k where k: "bit w k"
    using assms by (auto simp: bit_eq_iff)
  then have "k < 64"
    by (auto dest: bit_imp_le_length)
  with k have ex: "\<exists>i \<in> set [0..<64]. bit w i"
    by auto
  have "takeWhile (\<lambda>i. \<not> bit w i) [0..<64] \<noteq> [0..<64]"
    using ex by (simp only: takeWhile_eq_all_conv) blast
  then have "trailing_zeros w \<noteq> 64"
    using takeWhile_eq_take [of "\<lambda>i. \<not> bit w i" "[0..<64]"] by (auto simp: trailing_zeros_def simp del: upt_rec_numeral)
  moreover have "trailing_zeros w \<le> 64"
    using length_takeWhile_le [of "\<lambda>i. \<not> bit w i" "[0..<64]"] by (simp add: trailing_zeros_def del: upt_rec_numeral)
  ultimately have l: "trailing_zeros w < 64"
    by simp
  then have "[0..<64] ! trailing_zeros w = trailing_zeros w"
    by (simp del: upt_rec_numeral)
  then show "bit w (trailing_zeros w)"
    using nth_length_takeWhile [of "\<lambda>i. \<not> bit w i" "[0..<64]"] l unfolding trailing_zeros_def
    by (simp del: upt_rec_numeral)
  show "trailing_zeros w < 64" by (rule l)
  show "\<not> bit w i" if "i < trailing_zeros w"
    using that l takeWhile_nth [of i "\<lambda>i. \<not> bit w i" "[0..<64]"]
      nth_mem [of i "takeWhile (\<lambda>i. \<not> bit w i) [0..<64]", THEN set_takeWhileD]
    unfolding trailing_zeros_def by (simp del: upt_rec_numeral)
qed

lemma clear_low_bit:
  fixes w :: u64
  assumes "w \<noteq> 0"
  shows "bit (w AND (w - 1)) i \<longleftrightarrow> bit w i \<and> i \<noteq> trailing_zeros w"
proof -
  let ?t = "trailing_zeros w"
  define u where "u = (w AND NOT (push_bit ?t 1))"
  note low = low_bit [OF assms]
  have bu: "bit u j \<longleftrightarrow> bit w j \<and> j \<noteq> ?t" for j
    using low(3) by (auto simp: u_def bit_and_iff bit_not_iff bit_push_bit_iff bit_1_iff bit_exp_iff dest: bit_imp_le_length)
  have "w = u OR push_bit ?t 1"
    using low by (intro bit_eqI) (auto simp: bu bit_or_iff bit_push_bit_iff bit_1_iff bit_exp_iff)
  also have "\<dots> = u + push_bit ?t 1"
    by (rule disjunctive_add [symmetric]) (auto simp: bu bit_push_bit_iff bit_1_iff bit_exp_iff)
  finally have w: "w = u + 2 ^ ?t"
    by (simp add: push_bit_eq_mult)
  have "u + mask ?t = u OR mask ?t"
    by (rule disjunctive_add) (use low(2) in \<open>auto simp: bu bit_mask_iff\<close>)
  moreover have "w - 1 = u + mask ?t"
    unfolding mask_eq_exp_minus_1 by (metis w add_diff_eq)
  ultimately have "w - 1 = u OR mask ?t"
    by simp
  then show ?thesis
    using low(2) by (auto simp: bit_and_iff bit_or_iff bu bit_mask_iff)
qed

lemma clear_low_bit_less:
  fixes w :: u64
  assumes "w \<noteq> 0"
  shows "unat (w AND (w - 1)) < unat w"
proof -
  have "w AND (w - 1) \<noteq> w"
    using clear_low_bit [OF assms, of "trailing_zeros w"] low_bit(1) [OF assms] by auto
  moreover have "w AND (w - 1) \<le> w"
    by (rule word_and_le2)
  ultimately have "w AND (w - 1) < w"
    by simp
  then show ?thesis
    by (simp add: word_less_nat_alt)
qed

function set_bits_of :: "u64 \<Rightarrow> nat list" where
  "set_bits_of w = (if w = 0 then [] else trailing_zeros w # set_bits_of (w AND (w - 1)))"
  by pat_completeness auto
termination
  by (relation "measure unat") (auto simp: clear_low_bit_less)

declare set_bits_of.simps [simp del]

definition iter_set_indices :: "nat \<Rightarrow> BitPage \<Rightarrow> nat list" where
  "iter_set_indices nw p = concat (map (\<lambda>w_i. map (\<lambda>tz. push_bit 6 w_i OR tz) (set_bits_of (p w_i))) [0..<nw])"

definition word_count_ones :: "u64 \<Rightarrow> nat" where
  "word_count_ones w = length (filter (bit w) [0..<64])"

definition page_count_ones :: "nat \<Rightarrow> BitPage \<Rightarrow> nat" where
  "page_count_ones nw p = sum_list (map (\<lambda>i. word_count_ones (p i)) [0..<nw])"

definition or_with :: "BitPage \<Rightarrow> BitPage \<Rightarrow> BitPage" where
  "or_with p q = (\<lambda>i. p i OR q i)"

subsection \<open>The index vector\<close>

record BitIndex =
  bi_index :: "nat \<Rightarrow> u32"
  bi_bits :: "BitPage list"

definition bits_new :: BitIndex where
  "bits_new = \<lparr>bi_index = (\<lambda>_. 0xFFFFFFFF), bi_bits = []\<rparr>"

text \<open>The page for the slot \<open>upper\<close>, allocated when there is none: the \<open>match\<close> in \<open>insert\<close> and \<open>merge\<close>.\<close>

definition page_id :: "nat \<Rightarrow> BitIndex \<Rightarrow> nat \<Rightarrow> (u32 \<times> BitIndex) option" where
  "page_id maxp m upper = do {
     assert_that (upper < maxp);
     Some (if bi_index m upper = 0xFFFFFFFF then
         let i = of_nat (length (bi_bits m))
         in (i, m\<lparr>bi_bits := bi_bits m @ [page_new], bi_index := (bi_index m)(upper := i)\<rparr>)
       else (bi_index m upper, m))
   }"

definition bits_insert :: "nat \<Rightarrow> BitIndex \<Rightarrow> nat \<times> nat \<Rightarrow> bool \<Rightarrow> (bool \<times> BitIndex) option" where
  "bits_insert maxp m ul v = (case ul of (upper, lower) \<Rightarrow> do {
     (i, m1) \<leftarrow> page_id maxp m upper;
     page \<leftarrow> vec_get (bi_bits m1) (unat i);
     let (prev, page') = page_set page lower v;
     Some (prev, m1\<lparr>bi_bits := (bi_bits m1)[unat i := page']\<rparr>)
   })"

definition bits_get :: "nat \<Rightarrow> BitIndex \<Rightarrow> nat \<times> nat \<Rightarrow> bool option" where
  "bits_get maxp m ul = (case ul of (upper, lower) \<Rightarrow>
     if upper \<ge> maxp then Some False
     else if bi_index m upper = 0xFFFFFFFF then Some False
     else do {
       page \<leftarrow> vec_get (bi_bits m) (unat (bi_index m upper));
       Some (page_get page lower)
     })"

text \<open>\<open>is_set\<close> before the indices are turned into addresses.\<close>

definition bits_is_set :: "nat \<Rightarrow> nat \<Rightarrow> BitIndex \<Rightarrow> nat list option" where
  "bits_is_set maxp nw m = map_option concat (those (map (\<lambda>upper. do {
       page \<leftarrow> vec_get (bi_bits m) (unat (bi_index m upper));
       Some (map (\<lambda>lower. upper * (64 * nw) + lower) (iter_set_indices nw page))
     }) (filter (\<lambda>upper. bi_index m upper \<noteq> 0xFFFFFFFF) [0..<maxp])))"

definition bits_count_set :: "nat \<Rightarrow> BitIndex \<Rightarrow> nat" where
  "bits_count_set nw m = sum_list (map (page_count_ones nw) (bi_bits m))"

definition merge_page :: "nat \<Rightarrow> BitIndex \<Rightarrow> BitIndex \<Rightarrow> nat \<Rightarrow> BitIndex option" where
  "merge_page maxp other m upper =
    (if bi_index other upper = 0xFFFFFFFF then Some m
     else do {
       other_page \<leftarrow> vec_get (bi_bits other) (unat (bi_index other upper));
       (i, m1) \<leftarrow> page_id maxp m upper;
       page \<leftarrow> vec_get (bi_bits m1) (unat i);
       Some (m1\<lparr>bi_bits := (bi_bits m1)[unat i := or_with page other_page]\<rparr>)
     })"

definition bits_merge :: "nat \<Rightarrow> BitIndex \<Rightarrow> BitIndex \<Rightarrow> BitIndex option" where
  "bits_merge maxp m other =
    foldl (\<lambda>acc upper. Option.bind acc (\<lambda>m. merge_page maxp other m upper)) (Some m) [0..<maxp]"

subsection \<open>The two structures\<close>

text \<open>\<open>CompressedMemory\<close>: \<open>MAX_NUM_PAGES\<close> is \<open>2 ^ 19\<close>, \<open>PAGE_SIZE\<close> is \<open>2 ^ 18\<close>, \<open>ALIGNMENT\<close> is 8.\<close>

type_synonym CompressedMemory = BitIndex

definition cm_indices :: "u64 \<Rightarrow> nat \<times> nat" where
  "cm_indices addr = (let compressed = unat (addr div 8) in (compressed div 2 ^ 18, compressed mod 2 ^ 18))"

definition cm_new :: CompressedMemory where
  "cm_new = bits_new"

definition cm_insert :: "CompressedMemory \<Rightarrow> u64 \<Rightarrow> bool \<Rightarrow> (bool \<times> CompressedMemory) option" where
  "cm_insert m addr v = bits_insert (2 ^ 19) m (cm_indices addr) v"

definition cm_get :: "CompressedMemory \<Rightarrow> u64 \<Rightarrow> bool option" where
  "cm_get m addr = bits_get (2 ^ 19) m (cm_indices addr)"

definition cm_is_set :: "CompressedMemory \<Rightarrow> u64 list option" where
  "cm_is_set m = map_option (map (\<lambda>compressed. of_nat compressed * 8)) (bits_is_set (2 ^ 19) (2 ^ 12) m)"

definition cm_count_set :: "CompressedMemory \<Rightarrow> nat" where
  "cm_count_set m = bits_count_set (2 ^ 12) m"

definition cm_merge :: "CompressedMemory \<Rightarrow> CompressedMemory \<Rightarrow> CompressedMemory option" where
  "cm_merge m other = bits_merge (2 ^ 19) m other"

text \<open>\<open>CompressedPages\<close>: \<open>MAX_NUM_BITSET_PAGES\<close> and \<open>BITSET_PAGE_SIZE\<close> are both \<open>2 ^ 14\<close>.\<close>

type_synonym CompressedPages = BitIndex

definition cp_indices :: "u64 \<Rightarrow> nat \<times> nat" where
  "cp_indices page_idx = (unat page_idx div 2 ^ 14, unat page_idx mod 2 ^ 14)"

definition cp_new :: CompressedPages where
  "cp_new = bits_new"

definition cp_insert :: "CompressedPages \<Rightarrow> u64 \<Rightarrow> bool \<Rightarrow> (bool \<times> CompressedPages) option" where
  "cp_insert m page_idx v = bits_insert (2 ^ 14) m (cp_indices page_idx) v"

definition cp_get :: "CompressedPages \<Rightarrow> u64 \<Rightarrow> bool option" where
  "cp_get m page_idx = bits_get (2 ^ 14) m (cp_indices page_idx)"

definition cp_is_set :: "CompressedPages \<Rightarrow> u64 list option" where
  "cp_is_set m = map_option (map of_nat) (bits_is_set (2 ^ 14) (2 ^ 8) m)"

definition cp_count_set :: "CompressedPages \<Rightarrow> nat" where
  "cp_count_set m = bits_count_set (2 ^ 8) m"

definition cp_merge :: "CompressedPages \<Rightarrow> CompressedPages \<Rightarrow> CompressedPages option" where
  "cp_merge m other = bits_merge (2 ^ 14) m other"

subsection \<open>Correctness of a page\<close>

lemma word_mask_nat: "word_mask idx = (idx div 64, 2 ^ (idx mod 64))"
proof -
  have "idx AND 63 = idx mod 64"
    using take_bit_eq_mask [of 6 idx] by (simp add: take_bit_eq_mod mask_eq_exp_minus_1)
  then show ?thesis
    by (simp add: word_mask_def drop_bit_eq_div)
qed

lemma and_bit_mask: "(w :: u64) AND 2 ^ k \<noteq> 0 \<longleftrightarrow> bit w k"
proof
  assume "w AND 2 ^ k \<noteq> 0"
  then obtain i where "bit (w AND 2 ^ k) i"
    by (auto simp: bit_eq_iff)
  then show "bit w k"
    by (auto simp: bit_and_iff bit_push_bit_iff bit_1_iff bit_exp_iff)
next
  assume "bit w k"
  then have "bit (w AND 2 ^ k) k"
    by (auto simp: bit_and_iff bit_push_bit_iff bit_1_iff bit_exp_iff dest: bit_imp_le_length)
  then show "w AND 2 ^ k \<noteq> 0"
    by auto
qed

lemma page_get_bit: "page_get p i \<longleftrightarrow> bit (p (i div 64)) (i mod 64)"
  by (simp add: page_get_def word_mask_nat and_bit_mask)

lemma page_set_get:
  "fst (page_set p i v) = page_get p i" "page_get (snd (page_set p i v)) j = (if j = i then v else page_get p j)"
proof -
  show "fst (page_set p i v) = page_get p i"
    by (simp add: page_set_def page_get_def word_mask_nat)
  have "j = i \<longleftrightarrow> j div 64 = i div 64 \<and> j mod 64 = i mod 64"
    by (metis div_mult_mod_eq)
  moreover have "i mod 64 < 64"
    by simp
  ultimately show "page_get (snd (page_set p i v)) j = (if j = i then v else page_get p j)"
    by (auto simp: page_get_bit page_set_def word_mask_nat bit_or_iff bit_and_iff bit_not_iff bit_push_bit_iff bit_1_iff bit_exp_iff)
qed

lemma page_new_get [simp]: "\<not> page_get page_new i"
  by (simp add: page_get_bit page_new_def)

lemma or_with_get: "page_get (or_with p q) i \<longleftrightarrow> page_get p i \<or> page_get q i"
  by (simp add: page_get_bit or_with_def bit_or_iff)

lemma filter_upt_split: "k \<le> n \<Longrightarrow> filter P [0..<n] = filter P [0..<k] @ filter P [k..<n]"
  by (metis filter_append le_add_diff_inverse upt_add_eq_append zero_le)

lemma set_bits_of_filter: "set_bits_of w = filter (bit w) [0..<64]"
proof (induction w rule: set_bits_of.induct)
  case (1 w)
  show ?case
  proof (cases "w = 0")
    case True
    then show ?thesis
      by (subst set_bits_of.simps) (simp del: upt_rec_numeral)
  next
    case False
    let ?t = "trailing_zeros w"
    note low = low_bit [OF False]
    have below: "filter (bit w) [0..<?t] = []" "filter (bit (w AND (w - 1))) [0..<Suc ?t] = []"
      using low(2) by (auto simp: filter_empty_conv clear_low_bit [OF False])
    have above: "filter (bit (w AND (w - 1))) [Suc ?t..<64] = filter (bit w) [Suc ?t..<64]"
      by (rule filter_cong) (auto simp: clear_low_bit [OF False])
    have "[?t..<64] = ?t # [Suc ?t..<64]"
      using low(3) by (simp add: upt_conv_Cons)
    then have "filter (bit w) [0..<64] = ?t # filter (bit w) [Suc ?t..<64]"
      using low below filter_upt_split [of ?t 64 "bit w"] by simp
    also have "\<dots> = ?t # filter (bit (w AND (w - 1))) [0..<64]"
      using low(3) below above filter_upt_split [of "Suc ?t" 64 "bit (w AND (w - 1))"] by simp
    finally show ?thesis
      using 1 False by (subst set_bits_of.simps) simp
  qed
qed

lemma bit_below_64: "t < 64 \<Longrightarrow> bit (t :: nat) i \<Longrightarrow> i < 6"
proof -
  assume t: "t < 64" "bit t i"
  then have "\<not> t < 2 ^ i"
    by (auto simp: bit_iff_odd)
  with t(1) have "(2 :: nat) ^ i < 2 ^ 6"
    by simp
  then show "i < 6"
    by (rule power_less_imp_less_exp [rotated]) simp
qed

lemma iter_set_indices_filter: "iter_set_indices nw p = filter (page_get p) [0..<64 * nw]"
proof (induction nw)
  case 0
  then show ?case by (simp add: iter_set_indices_def)
next
  case (Suc n)
  have or: "push_bit 6 n OR t = 64 * n + t" if "t < 64" for t
  proof -
    have "push_bit 6 n OR t = push_bit 6 n + t"
      using that by (intro disjunctive_add [symmetric])
        (auto simp: bit_push_bit_iff, use that bit_below_64 in fastforce)
    then show ?thesis
      by (simp add: push_bit_eq_mult)
  qed
  have "[64 * n..<64 * Suc n] = map (\<lambda>t. 64 * n + t) [0..<64]"
    using map_add_upt [of "64 * n" 64] by (simp del: upt_rec_numeral add: add.commute)
  moreover have "map (\<lambda>tz. push_bit 6 n OR tz) (filter (bit (p n)) [0..<64]) =
      filter (page_get p) (map (\<lambda>t. 64 * n + t) [0..<64])"
    unfolding filter_map
    by (rule map_cong [OF filter_cong]) (auto simp: page_get_bit or simp del: upt_rec_numeral)
  moreover have "filter (page_get p) [0..<64 * Suc n] = filter (page_get p) [0..<64 * n] @ filter (page_get p) [64 * n..<64 * Suc n]"
    by (rule filter_upt_split) simp
  ultimately show ?case
    using Suc by (simp add: iter_set_indices_def set_bits_of_filter del: upt_rec_numeral)
qed

lemma page_count_ones_filter: "page_count_ones nw p = length (filter (page_get p) [0..<64 * nw])"
proof -
  have "length (map (\<lambda>tz. push_bit 6 i OR tz) (set_bits_of (p i))) = word_count_ones (p i)" for i
    by (simp add: word_count_ones_def set_bits_of_filter)
  then have "length (iter_set_indices nw p) = page_count_ones nw p"
    by (simp add: iter_set_indices_def page_count_ones_def length_concat comp_def del: length_map)
  then show ?thesis
    by (simp add: iter_set_indices_filter)
qed

subsection \<open>Correctness of the index vector\<close>

definition bit_at :: "BitIndex \<Rightarrow> nat \<Rightarrow> nat \<Rightarrow> bool" where
  "bit_at m upper lower \<longleftrightarrow>
    bi_index m upper \<noteq> 0xFFFFFFFF \<and> page_get (bi_bits m ! unat (bi_index m upper)) lower"

text \<open>The slots in use, in the order in which their pages were allocated.\<close>

definition indexed :: "nat \<Rightarrow> nat list \<Rightarrow> BitIndex \<Rightarrow> bool" where
  "indexed maxp us m \<longleftrightarrow> distinct us \<and> set us \<subseteq> {..<maxp} \<and> length us = length (bi_bits m) \<and>
    (\<forall>k < length us. bi_index m (us ! k) = of_nat k) \<and> (\<forall>u. u \<notin> set us \<longrightarrow> bi_index m u = 0xFFFFFFFF)"

definition bits_inv :: "nat \<Rightarrow> BitIndex \<Rightarrow> bool" where
  "bits_inv maxp m \<longleftrightarrow> (\<exists>us. indexed maxp us m)"

lemma indexed_new: "indexed maxp [] bits_new" and bit_at_new [simp]: "\<not> bit_at bits_new u l"
  by (simp_all add: indexed_def bits_new_def bit_at_def)

lemma indexed_length:
  assumes "indexed maxp us m"
  shows "length us \<le> maxp"
proof -
  have "card (set us) \<le> card {..<maxp}"
    using assms by (intro card_mono) (simp_all add: indexed_def)
  then show ?thesis
    using assms by (simp add: indexed_def distinct_card)
qed

lemma small_u32: "k < 4294967295 \<Longrightarrow> unat (of_nat k :: u32) = k \<and> (of_nat k :: u32) \<noteq> 0xFFFFFFFF"
proof -
  assume k: "k < 4294967295"
  then have "unat (of_nat k :: u32) = k"
    by (simp add: unat_of_nat)
  moreover have "unat (0xFFFFFFFF :: u32) = 4294967295"
    by simp
  ultimately show ?thesis
    using k by (metis less_irrefl)
qed

lemma indexed_slot:
  assumes "indexed maxp us m" "maxp < 4294967295" "k < length us"
  shows "bi_index m (us ! k) = of_nat k" "unat (bi_index m (us ! k)) = k" "bi_index m (us ! k) \<noteq> 0xFFFFFFFF"
  using assms small_u32 [of k] indexed_length [OF assms(1)] by (auto simp: indexed_def)

lemma indexed_used:
  assumes "indexed maxp us m" "maxp < 4294967295"
  shows "bi_index m u \<noteq> 0xFFFFFFFF \<longleftrightarrow> u \<in> set us"
proof
  assume "u \<in> set us"
  then show "bi_index m u \<noteq> 0xFFFFFFFF"
    using indexed_slot(3) [OF assms] by (metis in_set_conv_nth)
qed (use assms in \<open>auto simp: indexed_def\<close>)

lemma page_id_spec:
  assumes m: "indexed maxp us m" "maxp < 4294967295" "upper < maxp"
  obtains k m1 us1 where "page_id maxp m upper = Some (of_nat k, m1)" "indexed maxp us1 m1"
    "k < length us1" "us1 ! k = upper" "unat (of_nat k :: u32) = k" "\<And>u l. bit_at m1 u l \<longleftrightarrow> bit_at m u l"
proof (cases "upper \<in> set us")
  case True
  then obtain k where k: "k < length us" "us ! k = upper"
    by (auto simp: in_set_conv_nth)
  note slot = indexed_slot [OF m(1,2) k(1)]
  show thesis
    by (rule that [of k m us]) (use m k slot in \<open>auto simp: page_id_def\<close>)
next
  case False
  let ?k = "length us"
  let ?m1 = "m\<lparr>bi_bits := bi_bits m @ [page_new], bi_index := (bi_index m)(upper := of_nat ?k)\<rparr>"
  have none: "bi_index m upper = 0xFFFFFFFF"
    using m False by (simp add: indexed_def)
  have k: "?k < 4294967295"
    using indexed_length [OF m(1)] m(2) by simp
  have len: "length us = length (bi_bits m)"
    using m(1) by (simp add: indexed_def)
  have ne: "us ! j \<noteq> upper" if "j < length us" for j
    using False that nth_mem by blast
  have "page_id maxp m upper = Some (of_nat ?k, ?m1)"
    using m(3) none len by (simp add: page_id_def Let_def)
  moreover have "indexed maxp (us @ [upper]) ?m1"
    using m False ne by (auto simp: indexed_def nth_append less_Suc_eq)
  moreover have "bit_at ?m1 u l \<longleftrightarrow> bit_at m u l" for u l
  proof (cases "u = upper")
    case True
    then show ?thesis
      using none len small_u32 [OF k] by (simp add: bit_at_def)
  next
    case False
    have "unat (bi_index m u) < length (bi_bits m)" if "bi_index m u \<noteq> 0xFFFFFFFF"
      using that indexed_used [OF m(1,2)] indexed_slot(2) [OF m(1,2)] len by (metis in_set_conv_nth)
    with False show ?thesis
      by (auto simp: bit_at_def nth_append)
  qed
  ultimately show thesis
    using small_u32 [OF k] by (intro that [of ?k ?m1 "us @ [upper]"]) auto
qed

lemma page_update:
  assumes m: "indexed maxp us m" "maxp < 4294967295" "upper < maxp"
  obtains k m1 us1 page where "page_id maxp m upper = Some (of_nat k, m1)"
    "vec_get (bi_bits m1) (unat (of_nat k :: u32)) = Some page" "unat (of_nat k :: u32) = k"
    "\<And>l. page_get page l \<longleftrightarrow> bit_at m upper l"
    "\<And>p. indexed maxp us1 (m1\<lparr>bi_bits := (bi_bits m1)[k := p]\<rparr>)"
    "\<And>p u l. bit_at (m1\<lparr>bi_bits := (bi_bits m1)[k := p]\<rparr>) u l \<longleftrightarrow>
       (if u = upper then page_get p l else bit_at m u l)"
proof -
  obtain k m1 us1 where 1: "page_id maxp m upper = Some (of_nat k, m1)" "indexed maxp us1 m1"
    "k < length us1" "us1 ! k = upper" "unat (of_nat k :: u32) = k" "\<And>u l. bit_at m1 u l \<longleftrightarrow> bit_at m u l"
    using m by (rule page_id_spec) blast
  have len: "k < length (bi_bits m1)"
    using 1(2,3) by (simp add: indexed_def)
  note slot = indexed_slot [OF 1(2) m(2)]
  have at: "bit_at (m1\<lparr>bi_bits := (bi_bits m1)[k := p]\<rparr>) u l \<longleftrightarrow> (if u = upper then page_get p l else bit_at m u l)" for p u l
  proof (cases "u = upper")
    case True
    then show ?thesis
      using slot [OF 1(3)] 1(4) len by (simp add: bit_at_def)
  next
    case False
    have "unat (bi_index m1 u) \<noteq> k" if "bi_index m1 u \<noteq> 0xFFFFFFFF"
      using that indexed_used [OF 1(2) m(2)] slot(2) 1(4) False by (metis in_set_conv_nth)
    with False 1(6) [of u l] show ?thesis
      by (auto simp: bit_at_def)
  qed
  have "page_get (bi_bits m1 ! k) l \<longleftrightarrow> bit_at m upper l" for l
    using 1(6) [of upper l] slot [OF 1(3)] 1(4) by (simp add: bit_at_def)
  moreover have "indexed maxp us1 (m1\<lparr>bi_bits := (bi_bits m1)[k := p]\<rparr>)" for p
    using 1(2) by (simp add: indexed_def)
  ultimately show thesis
    using that [OF 1(1), of "bi_bits m1 ! k" us1] 1(5) len at by simp
qed

lemma bits_insert_spec:
  assumes "bits_inv maxp m" "maxp < 4294967295" "upper < maxp"
  obtains m' where "bits_insert maxp m (upper, lower) v = Some (bit_at m upper lower, m')" "bits_inv maxp m'"
    "\<And>u l. bit_at m' u l \<longleftrightarrow> (if u = upper \<and> l = lower then v else bit_at m u l)"
proof -
  from assms(1) obtain us where us: "indexed maxp us m"
    by (auto simp: bits_inv_def)
  from us assms(2,3) obtain k m1 us1 page where 1: "page_id maxp m upper = Some (of_nat k, m1)"
    "vec_get (bi_bits m1) (unat (of_nat k :: u32)) = Some page" "unat (of_nat k :: u32) = k"
    "\<And>l. page_get page l \<longleftrightarrow> bit_at m upper l"
    "\<And>p. indexed maxp us1 (m1\<lparr>bi_bits := (bi_bits m1)[k := p]\<rparr>)"
    "\<And>p u l. bit_at (m1\<lparr>bi_bits := (bi_bits m1)[k := p]\<rparr>) u l \<longleftrightarrow>
       (if u = upper then page_get p l else bit_at m u l)"
    by (rule page_update) blast
  show thesis
    by (rule that [of "m1\<lparr>bi_bits := (bi_bits m1)[k := snd (page_set page lower v)]\<rparr>"])
      (use 1 page_set_get [of page lower v] in \<open>auto simp: bits_insert_def bits_inv_def case_prod_unfold Let_def\<close>)
qed

lemma bits_get_spec:
  assumes "bits_inv maxp m" "maxp < 4294967295"
  shows "bits_get maxp m (upper, lower) = Some (upper < maxp \<and> bit_at m upper lower)"
proof -
  from assms(1) obtain us where us: "indexed maxp us m"
    by (auto simp: bits_inv_def)
  have "unat (bi_index m upper) < length (bi_bits m)" if "bi_index m upper \<noteq> 0xFFFFFFFF"
    using that indexed_used [OF us assms(2)] indexed_slot(2) [OF us assms(2)] us
    by (metis in_set_conv_nth indexed_def)
  then show ?thesis
    by (auto simp: bits_get_def bit_at_def)
qed

lemma merge_page_spec:
  assumes "bits_inv maxp m" "bits_inv maxp other" "maxp < 4294967295" "upper < maxp"
  obtains m' where "merge_page maxp other m upper = Some m'" "bits_inv maxp m'"
    "\<And>u l. bit_at m' u l \<longleftrightarrow> bit_at m u l \<or> u = upper \<and> bit_at other u l"
proof (cases "bi_index other upper = 0xFFFFFFFF")
  case True
  show thesis
    by (rule that [of m]) (use True assms in \<open>auto simp: merge_page_def bit_at_def\<close>)
next
  case False
  from assms(1,2) obtain us vs where us: "indexed maxp us m" and vs: "indexed maxp vs other"
    by (auto simp: bits_inv_def)
  have "unat (bi_index other upper) < length (bi_bits other)"
    using False indexed_used [OF vs assms(3)] indexed_slot(2) [OF vs assms(3)] vs
    by (metis in_set_conv_nth indexed_def)
  then have o: "vec_get (bi_bits other) (unat (bi_index other upper)) = Some (bi_bits other ! unat (bi_index other upper))"
    by simp
  from us assms(3,4) obtain k m1 us1 page where 1: "page_id maxp m upper = Some (of_nat k, m1)"
    "vec_get (bi_bits m1) (unat (of_nat k :: u32)) = Some page" "unat (of_nat k :: u32) = k"
    "\<And>l. page_get page l \<longleftrightarrow> bit_at m upper l"
    "\<And>p. indexed maxp us1 (m1\<lparr>bi_bits := (bi_bits m1)[k := p]\<rparr>)"
    "\<And>p u l. bit_at (m1\<lparr>bi_bits := (bi_bits m1)[k := p]\<rparr>) u l \<longleftrightarrow>
       (if u = upper then page_get p l else bit_at m u l)"
    by (rule page_update) blast
  show thesis
    by (rule that [of "m1\<lparr>bi_bits := (bi_bits m1)[k := or_with page (bi_bits other ! unat (bi_index other upper))]\<rparr>"])
      (use 1 o False in \<open>auto simp: merge_page_def bits_inv_def or_with_get bit_at_def [of other]\<close>)
qed

lemma bits_merge_spec:
  assumes "bits_inv maxp m" "bits_inv maxp other" "maxp < 4294967295"
  obtains m' where "bits_merge maxp m other = Some m'" "bits_inv maxp m'"
    "\<And>u l. u < maxp \<Longrightarrow> bit_at m' u l \<longleftrightarrow> bit_at m u l \<or> bit_at other u l"
proof -
  have "\<exists>m'. foldl (\<lambda>acc upper. Option.bind acc (\<lambda>m. merge_page maxp other m upper)) (Some m) [0..<n] = Some m' \<and>
      bits_inv maxp m' \<and> (\<forall>u l. bit_at m' u l \<longleftrightarrow> bit_at m u l \<or> u < n \<and> bit_at other u l)" if "n \<le> maxp" for n
    using that
  proof (induction n)
    case 0
    then show ?case using assms by simp
  next
    case (Suc n)
    then obtain m' where m': "foldl (\<lambda>acc upper. Option.bind acc (\<lambda>m. merge_page maxp other m upper)) (Some m) [0..<n] = Some m'"
      "bits_inv maxp m'" "\<And>u l. bit_at m' u l \<longleftrightarrow> bit_at m u l \<or> u < n \<and> bit_at other u l"
      by auto
    from m'(2) assms(2,3) Suc.prems obtain m'' where "merge_page maxp other m' n = Some m''" "bits_inv maxp m''"
      "\<And>u l. bit_at m'' u l \<longleftrightarrow> bit_at m' u l \<or> u = n \<and> bit_at other u l"
      by (rule_tac merge_page_spec [of maxp m' other n]) auto
    with m' show ?case
      by (auto simp: less_Suc_eq)
  qed
  from this [of maxp] that show thesis
    by (auto simp: bits_merge_def)
qed

text \<open>The indices of the bits that are set, as positions in the whole structure.\<close>

definition bit_set_of :: "nat \<Rightarrow> nat \<Rightarrow> BitIndex \<Rightarrow> nat set" where
  "bit_set_of maxp sz m = {i. i < maxp * sz \<and> bit_at m (i div sz) (i mod sz)}"

lemma upt_block: "[n * sz..<Suc n * sz] = map (\<lambda>l. n * sz + l) [0..<sz]"
  using map_add_upt [of "n * sz" sz] by (simp add: add.commute)

lemma filter_blocks:
  assumes "0 < sz"
  shows "filter (\<lambda>i. P (i div sz) (i mod sz)) [0..<n * sz] =
    concat (map (\<lambda>u. map (\<lambda>l. u * sz + l) (filter (P u) [0..<sz])) [0..<n])"
proof (induction n)
  case (Suc n)
  have "filter (\<lambda>i. P (i div sz) (i mod sz)) (map (\<lambda>l. n * sz + l) [0..<sz]) =
      map (\<lambda>l. n * sz + l) (filter (P n) [0..<sz])"
    unfolding filter_map by (rule map_cong [OF filter_cong]) auto
  with Suc filter_upt_split [of "n * sz" "Suc n * sz" "\<lambda>i. P (i div sz) (i mod sz)"] upt_block [of n sz]
  show ?case
    by simp
qed simp

lemma concat_map_filter: "(\<And>x. x \<in> set xs \<Longrightarrow> \<not> P x \<Longrightarrow> f x = []) \<Longrightarrow> concat (map f (filter P xs)) = concat (map f xs)"
  by (induction xs) auto

lemma those_map_Some: "(\<And>x. x \<in> set xs \<Longrightarrow> f x = Some (g x)) \<Longrightarrow> those (map f xs) = Some (map g xs)"
  by (induction xs) auto

lemma bits_is_set_spec:
  assumes "bits_inv maxp m" "maxp < 4294967295" "0 < nw"
  shows "bits_is_set maxp nw m =
    Some (filter (\<lambda>i. bit_at m (i div (64 * nw)) (i mod (64 * nw))) [0..<maxp * (64 * nw)])"
proof -
  from assms(1) obtain us where us: "indexed maxp us m"
    by (auto simp: bits_inv_def)
  let ?row = "\<lambda>u. map (\<lambda>l. u * (64 * nw) + l) (filter (bit_at m u) [0..<64 * nw])"
  have "those (map (\<lambda>upper. Option.bind (vec_get (bi_bits m) (unat (bi_index m upper))) (\<lambda>page.
         Some (map (\<lambda>lower. upper * (64 * nw) + lower) (iter_set_indices nw page))))
       (filter (\<lambda>upper. bi_index m upper \<noteq> 0xFFFFFFFF) [0..<maxp])) =
     Some (map ?row (filter (\<lambda>upper. bi_index m upper \<noteq> 0xFFFFFFFF) [0..<maxp]))"
  proof (rule those_map_Some)
    fix u
    assume "u \<in> set (filter (\<lambda>upper. bi_index m upper \<noteq> 0xFFFFFFFF) [0..<maxp])"
    then have used: "bi_index m u \<noteq> 0xFFFFFFFF"
      by simp
    have "unat (bi_index m u) < length (bi_bits m)"
      using used indexed_used [OF us assms(2)] indexed_slot(2) [OF us assms(2)] us by (metis in_set_conv_nth indexed_def)
    moreover have "filter (page_get (bi_bits m ! unat (bi_index m u))) [0..<64 * nw] = filter (bit_at m u) [0..<64 * nw]"
      by (rule filter_cong) (use used in \<open>auto simp: bit_at_def\<close>)
    ultimately show "Option.bind (vec_get (bi_bits m) (unat (bi_index m u))) (\<lambda>page.
        Some (map (\<lambda>lower. u * (64 * nw) + lower) (iter_set_indices nw page))) = Some (?row u)"
      by (simp add: iter_set_indices_filter)
  qed
  moreover have "concat (map ?row (filter (\<lambda>upper. bi_index m upper \<noteq> 0xFFFFFFFF) [0..<maxp])) = concat (map ?row [0..<maxp])"
    by (rule concat_map_filter) (simp add: filter_empty_conv bit_at_def)
  ultimately show ?thesis
    unfolding bits_is_set_def using filter_blocks [of "64 * nw" "bit_at m" maxp] assms(3) by simp
qed

lemma length_filter_blocks:
  assumes "0 < sz"
  shows "length (filter (\<lambda>i. P (i div sz) (i mod sz)) [0..<n * sz]) = (\<Sum>u < n. length (filter (P u) [0..<sz]))"
  by (simp add: filter_blocks [OF assms] length_concat comp_def interv_sum_list_conv_sum_set_nat atLeast0LessThan)

lemma bits_count_set_spec:
  assumes "bits_inv maxp m" "maxp < 4294967295" "0 < nw"
  shows "bits_count_set nw m = card (bit_set_of maxp (64 * nw) m)"
proof -
  from assms(1) obtain us where us: "indexed maxp us m"
    by (auto simp: bits_inv_def)
  let ?row = "\<lambda>u. length (filter (bit_at m u) [0..<64 * nw])"
  have "map (page_count_ones nw) (bi_bits m) = map ?row us"
  proof (rule nth_equalityI)
    fix k
    assume "k < length (map (page_count_ones nw) (bi_bits m))"
    then have k: "k < length us" "k < length (bi_bits m)"
      using us by (simp_all add: indexed_def)
    have "filter (page_get (bi_bits m ! k)) [0..<64 * nw] = filter (bit_at m (us ! k)) [0..<64 * nw]"
      by (rule filter_cong) (use indexed_slot [OF us assms(2) k(1)] in \<open>auto simp: bit_at_def\<close>)
    with k show "map (page_count_ones nw) (bi_bits m) ! k = map ?row us ! k"
      by (simp add: page_count_ones_filter)
  qed (use us in \<open>simp add: indexed_def\<close>)
  then have "bits_count_set nw m = sum_list (map ?row us)"
    by (simp add: bits_count_set_def)
  also have "\<dots> = (\<Sum>u \<in> set us. ?row u)"
    using us by (simp add: indexed_def sum_list_distinct_conv_sum_set)
  also have "\<dots> = (\<Sum>u < maxp. ?row u)"
    by (rule sum.mono_neutral_left)
      (use us indexed_used [OF us assms(2)] in \<open>auto simp: indexed_def bit_at_def filter_empty_conv\<close>)
  also have "\<dots> = length (filter (\<lambda>i. bit_at m (i div (64 * nw)) (i mod (64 * nw))) [0..<maxp * (64 * nw)])"
    by (rule length_filter_blocks [symmetric]) (use assms(3) in simp)
  also have "\<dots> = card (bit_set_of maxp (64 * nw) m)"
    by (subst distinct_card [symmetric]) (auto simp: bit_set_of_def intro!: arg_cong [where f = card])
  finally show ?thesis .
qed

subsection \<open>The contract\<close>

text \<open>Marking a list of addresses.\<close>

primrec insert_all :: "('m \<Rightarrow> u64 \<Rightarrow> bool \<Rightarrow> (bool \<times> 'm) option) \<Rightarrow> 'm \<Rightarrow> u64 list \<Rightarrow> 'm option" where
  "insert_all ins m [] = Some m"
| "insert_all ins m (a # as) = do { (_, m1) \<leftarrow> ins m a True; insert_all ins m1 as }"

locale bit_set =
  fixes inv :: "'m \<Rightarrow> bool" and keys :: "'m \<Rightarrow> u64 set" and key :: "u64 \<Rightarrow> u64" and in_range :: "u64 \<Rightarrow> bool"
    and new :: 'm and insert_bit :: "'m \<Rightarrow> u64 \<Rightarrow> bool \<Rightarrow> (bool \<times> 'm) option"
    and get_bit :: "'m \<Rightarrow> u64 \<Rightarrow> bool option" and listed :: "'m \<Rightarrow> u64 list option"
    and count :: "'m \<Rightarrow> nat" and merge :: "'m \<Rightarrow> 'm \<Rightarrow> 'm option"
  assumes new: "inv new" "keys new = {}"
    and insert_bit: "inv m \<Longrightarrow> in_range a \<Longrightarrow> \<exists>m'. insert_bit m a v = Some (key a \<in> keys m, m') \<and> inv m' \<and>
      keys m' = (if v then insert (key a) (keys m) else keys m - {key a})"
    and get_bit: "inv m \<Longrightarrow> get_bit m a = Some (key a \<in> keys m)"
    and listed: "inv m \<Longrightarrow> \<exists>xs. listed m = Some xs \<and> sorted_wrt (<) xs \<and> set xs = keys m"
    and count: "inv m \<Longrightarrow> count m = card (keys m)"
    and merge: "inv m \<Longrightarrow> inv n \<Longrightarrow> \<exists>m'. merge m n = Some m' \<and> inv m' \<and> keys m' = keys m \<union> keys n"
begin

lemma listed_sorted: "inv m \<Longrightarrow> listed m = Some (sorted_list_of_set (keys m))"
  using listed [of m] sorted_list_of_set.idem_if_sorted_distinct by (fastforce simp: strict_sorted_iff)

lemma insert_list:
  "inv m \<Longrightarrow> \<forall>a \<in> set as. in_range a \<Longrightarrow>
    \<exists>m'. insert_all insert_bit m as = Some m' \<and>
      inv m' \<and> keys m' = keys m \<union> key ` set as"
proof (induction as arbitrary: m)
  case (Cons a as)
  then obtain m1 where m1: "insert_bit m a True = Some (key a \<in> keys m, m1)" "inv m1" "keys m1 = insert (key a) (keys m)"
    using insert_bit [of m a True] by auto
  with Cons.IH [of m1] Cons.prems show ?case
    by auto
qed auto

lemma insert_all_merge:
  assumes "\<forall>a \<in> set as \<union> set bs. in_range a"
  shows "\<exists>m n u. insert_all insert_bit new as = Some m \<and> insert_all insert_bit new bs = Some n \<and> merge m n = Some u \<and>
    listed u = Some (sorted_list_of_set (key ` (set as \<union> set bs))) \<and> count u = card (key ` (set as \<union> set bs)) \<and>
    (\<forall>a. get_bit u a = Some (key a \<in> key ` (set as \<union> set bs)))"
proof -
  obtain m n where m: "insert_all insert_bit new as = Some m" "inv m" "keys m = key ` set as"
    and n: "insert_all insert_bit new bs = Some n" "inv n" "keys n = key ` set bs"
    using insert_list [OF new(1), of as] insert_list [OF new(1), of bs] assms new(2) by auto
  with merge [of m n] obtain u where u: "merge m n = Some u" "inv u" "keys u = key ` (set as \<union> set bs)"
    by (auto simp: image_Un)
  with m n show ?thesis
    using listed_sorted [OF u(2)] count [OF u(2)] get_bit [OF u(2)] by auto
qed

end

subsection \<open>Both structures satisfy it\<close>

definition cm_keys :: "CompressedMemory \<Rightarrow> u64 set" where
  "cm_keys m = (\<lambda>i. of_nat i * 8) ` bit_set_of (2 ^ 19) (2 ^ 18) m"

definition cp_keys :: "CompressedPages \<Rightarrow> u64 set" where
  "cp_keys m = of_nat ` bit_set_of (2 ^ 14) (2 ^ 14) m"

lemma unat_encode: "c * i < 2 ^ 64 \<Longrightarrow> unat (of_nat i * of_nat c :: u64) = i * c"
  by (simp add: unat_of_nat take_bit_nat_eq_self mult.commute flip: of_nat_mult)

lemma strict_sorted_map:
  assumes "\<And>i. i \<in> set xs \<Longrightarrow> unat (f i :: u64) = i * c" "0 < c" "sorted_wrt (<) xs"
  shows "sorted_wrt (<) (map f xs)"
  using assms(1,3)
proof (induction xs)
  case (Cons x xs)
  have "f x < f y" if "y \<in> set xs" for y
    using Cons.prems that assms(2) by (simp add: word_less_nat_alt)
  with Cons show ?case by auto
qed simp

lemma cm_key: "a AND NOT 7 = of_nat (unat (a div 8)) * (8 :: u64)"
proof -
  have "a AND NOT (mask 3) = push_bit 3 (drop_bit 3 a)"
    by (rule bit_eqI) (auto simp: bit_and_iff bit_not_iff bit_push_bit_iff bit_drop_bit_eq bit_mask_iff)
  moreover have "(mask 3 :: u64) = 7"
    by (simp add: mask_eq_exp_minus_1)
  ultimately have "a AND NOT 7 = push_bit 3 (drop_bit 3 a)"
    by simp
  then show ?thesis
    by (simp add: push_bit_eq_mult drop_bit_eq_div)
qed

lemma bit_set_of_new [simp]: "bit_set_of maxp sz bits_new = {}"
  by (simp add: bit_set_of_def)

lemma bit_set_of_insert:
  assumes "\<And>u l. bit_at m' u l \<longleftrightarrow> (if u = i div sz \<and> l = i mod sz then v else bit_at m u l)" "i < maxp * sz"
  shows "bit_set_of maxp sz m' = (if v then insert i (bit_set_of maxp sz m) else bit_set_of maxp sz m - {i})"
proof -
  have "j = i" if "j div sz = i div sz" "j mod sz = i mod sz" for j
    using that by (metis div_mult_mod_eq)
  with assms show ?thesis
    by (auto simp: bit_set_of_def)
qed

lemma in_index: "(i :: nat) < maxp * sz \<Longrightarrow> i div sz < maxp"
  by (rule less_mult_imp_div_less)

lemma listed_spec:
  assumes "bits_inv maxp m" "maxp < 4294967295" "0 < nw" "\<And>i. i < maxp * (64 * nw) \<Longrightarrow> unat (f i :: u64) = i * c" "0 < c"
  shows "\<exists>xs. map_option (map f) (bits_is_set maxp nw m) = Some xs \<and> sorted_wrt (<) xs \<and>
    set xs = f ` bit_set_of maxp (64 * nw) m"
proof -
  let ?xs = "filter (\<lambda>i. bit_at m (i div (64 * nw)) (i mod (64 * nw))) [0..<maxp * (64 * nw)]"
  have "sorted_wrt (<) ?xs"
    by (simp add: strict_sorted_iff sorted_wrt_filter)
  then have "sorted_wrt (<) (map f ?xs)"
    by (rule strict_sorted_map [OF _ assms(5), rotated]) (use assms(4) in auto)
  then show ?thesis
    unfolding bits_is_set_spec [OF assms(1-3)] by (auto simp: bit_set_of_def)
qed

lemma bit_set_intro:
  fixes enc :: "nat \<Rightarrow> u64" and idx :: "u64 \<Rightarrow> nat"
  assumes maxp: "maxp < 4294967295" "0 < nw" and N: "maxp * (64 * nw) \<le> N" and c: "0 < c"
    and enc: "\<And>i. i < N \<Longrightarrow> unat (enc i) = i * c" and idx: "\<And>a. idx a < N"
  shows "bit_set (bits_inv maxp) (\<lambda>m. enc ` bit_set_of maxp (64 * nw) m) (\<lambda>a. enc (idx a))
    (\<lambda>a. idx a < maxp * (64 * nw)) bits_new
    (\<lambda>m a. bits_insert maxp m (idx a div (64 * nw), idx a mod (64 * nw)))
    (\<lambda>m a. bits_get maxp m (idx a div (64 * nw), idx a mod (64 * nw)))
    (\<lambda>m. map_option (map enc) (bits_is_set maxp nw m)) (bits_count_set nw) (bits_merge maxp)"
proof unfold_locales
  let ?set = "bit_set_of maxp (64 * nw)"
  have inj: "inj_on enc {..<N}"
    using c by (intro inj_onI) (metis enc lessThan_iff mult_cancel2 less_numeral_extra(3))
  have dom: "?set m \<subseteq> {..<N}" for m
    using N by (auto simp: bit_set_of_def)
  have mem: "enc (idx a) \<in> enc ` ?set m \<longleftrightarrow> idx a \<in> ?set m" for a m
    using inj_on_image_mem_iff [OF inj _ dom] idx by simp
  show "bits_inv maxp bits_new" "enc ` ?set bits_new = {}"
    using indexed_new by (auto simp: bits_inv_def)
  show "\<exists>m'. bits_insert maxp m (idx a div (64 * nw), idx a mod (64 * nw)) v = Some (enc (idx a) \<in> enc ` ?set m, m') \<and>
      bits_inv maxp m' \<and> enc ` ?set m' = (if v then insert (enc (idx a)) (enc ` ?set m) else enc ` ?set m - {enc (idx a)})"
    if m: "bits_inv maxp m" and a: "idx a < maxp * (64 * nw)" for m a v
  proof -
    have at: "idx a \<in> ?set m \<longleftrightarrow> bit_at m (idx a div (64 * nw)) (idx a mod (64 * nw))"
      using a by (simp add: bit_set_of_def)
    obtain m' where m': "bits_insert maxp m (idx a div (64 * nw), idx a mod (64 * nw)) v =
        Some (bit_at m (idx a div (64 * nw)) (idx a mod (64 * nw)), m')" "bits_inv maxp m'"
      "\<And>u l. bit_at m' u l \<longleftrightarrow> (if u = idx a div (64 * nw) \<and> l = idx a mod (64 * nw) then v else bit_at m u l)"
      by (rule bits_insert_spec [OF m maxp(1) in_index [OF a], of "idx a mod (64 * nw)" v]) blast
    have "enc ` ?set m' = (if v then insert (enc (idx a)) (enc ` ?set m) else enc ` ?set m - {enc (idx a)})"
      unfolding bit_set_of_insert [OF m'(3) a]
      using inj_on_image_set_diff [OF inj, of "?set m" "{idx a}"] dom [of m] idx [of a]
      by (simp add: Diff_subset [THEN order_trans])
    with m' show ?thesis
      unfolding mem at by blast
  qed
  show "bits_get maxp m (idx a div (64 * nw), idx a mod (64 * nw)) = Some (enc (idx a) \<in> enc ` ?set m)"
    if "bits_inv maxp m" for m a
  proof -
    have "idx a < maxp * (64 * nw) \<longleftrightarrow> idx a div (64 * nw) < maxp"
      using maxp(2) by (simp add: div_less_iff_less_mult)
    then show ?thesis
      unfolding mem bits_get_spec [OF that maxp(1)] by (simp add: bit_set_of_def)
  qed
  show "\<exists>xs. map_option (map enc) (bits_is_set maxp nw m) = Some xs \<and> sorted_wrt (<) xs \<and> set xs = enc ` ?set m"
    if "bits_inv maxp m" for m
    by (rule listed_spec [OF that maxp _ c]) (use enc N in simp)
  show "bits_count_set nw m = card (enc ` ?set m)" if "bits_inv maxp m" for m
    unfolding bits_count_set_spec [OF that maxp] by (rule card_image [OF inj_on_subset [OF inj dom], symmetric])
  show "\<exists>m'. bits_merge maxp m n = Some m' \<and> bits_inv maxp m' \<and> enc ` ?set m' = enc ` ?set m \<union> enc ` ?set n"
    if m: "bits_inv maxp m" and n: "bits_inv maxp n" for m n
  proof -
    obtain m' where m': "bits_merge maxp m n = Some m'" "bits_inv maxp m'"
      "\<And>u l. u < maxp \<Longrightarrow> bit_at m' u l \<longleftrightarrow> bit_at m u l \<or> bit_at n u l"
      by (rule bits_merge_spec [OF m n maxp(1)]) blast
    have "?set m' = ?set m \<union> ?set n"
      using m'(3) in_index [of _ maxp "64 * nw"] by (auto simp: bit_set_of_def)
    with m' show ?thesis
      by (simp add: image_Un)
  qed
qed

interpretation memory_bits: bit_set "bits_inv (2 ^ 19)" cm_keys "\<lambda>a. a AND NOT 7" "\<lambda>a. unat a < 2 ^ 40"
  cm_new cm_insert cm_get cm_is_set cm_count_set cm_merge
proof -
  have key: "(\<lambda>a. a AND NOT 7) = (\<lambda>a. of_nat (unat (a div 8)) * (8 :: u64))"
    by (rule ext) (rule cm_key)
  have eqs: "cm_keys = (\<lambda>m. (\<lambda>i. of_nat i * 8) ` bit_set_of (2 ^ 19) (64 * 2 ^ 12) m)"
    "(\<lambda>a :: u64. unat a < 2 ^ 40) = (\<lambda>a. unat (a div 8) < 2 ^ 19 * (64 * 2 ^ 12))" "cm_new = bits_new"
    "cm_insert = (\<lambda>m a. bits_insert (2 ^ 19) m (unat (a div 8) div (64 * 2 ^ 12), unat (a div 8) mod (64 * 2 ^ 12)))"
    "cm_get = (\<lambda>m a. bits_get (2 ^ 19) m (unat (a div 8) div (64 * 2 ^ 12), unat (a div 8) mod (64 * 2 ^ 12)))"
    "cm_is_set = (\<lambda>m. map_option (map (\<lambda>i. of_nat i * 8)) (bits_is_set (2 ^ 19) (2 ^ 12) m))"
    "cm_count_set = bits_count_set (2 ^ 12)" "cm_merge = bits_merge (2 ^ 19)"
    by (auto simp: fun_eq_iff cm_keys_def cm_new_def cm_insert_def cm_get_def cm_indices_def cm_is_set_def
        cm_count_set_def cm_merge_def Let_def unat_div div_less_iff_less_mult)
  have "unat (of_nat i * 8 :: u64) = i * 8" if "i < 2 ^ 61" for i
    using unat_encode [of 8 i] that by simp
  moreover have "unat (a div 8) < 2 ^ 61" for a :: u64
    using unat_less_64 [of a] by (simp add: unat_div less_mult_imp_div_less)
  ultimately show "bit_set (bits_inv (2 ^ 19)) cm_keys (\<lambda>a. a AND NOT 7) (\<lambda>a. unat a < 2 ^ 40)
      cm_new cm_insert cm_get cm_is_set cm_count_set cm_merge"
    unfolding eqs key by (intro bit_set_intro [of _ _ "2 ^ 61" 8]) auto
qed

interpretation page_bits: bit_set "bits_inv (2 ^ 14)" cp_keys "\<lambda>a. a" "\<lambda>a. unat a < 2 ^ 28"
  cp_new cp_insert cp_get cp_is_set cp_count_set cp_merge
proof -
  have eqs: "cp_keys = (\<lambda>m. of_nat ` bit_set_of (2 ^ 14) (64 * 2 ^ 8) m)"
    "(\<lambda>a :: u64. a) = (\<lambda>a. of_nat (unat a))"
    "(\<lambda>a :: u64. unat a < 2 ^ 28) = (\<lambda>a. unat a < 2 ^ 14 * (64 * 2 ^ 8))" "cp_new = bits_new"
    "cp_insert = (\<lambda>m a. bits_insert (2 ^ 14) m (unat a div (64 * 2 ^ 8), unat a mod (64 * 2 ^ 8)))"
    "cp_get = (\<lambda>m a. bits_get (2 ^ 14) m (unat a div (64 * 2 ^ 8), unat a mod (64 * 2 ^ 8)))"
    "cp_is_set = (\<lambda>m. map_option (map of_nat) (bits_is_set (2 ^ 14) (2 ^ 8) m))"
    "cp_count_set = bits_count_set (2 ^ 8)" "cp_merge = bits_merge (2 ^ 14)"
    by (auto simp: fun_eq_iff cp_keys_def cp_new_def cp_insert_def cp_get_def cp_indices_def cp_is_set_def
        cp_count_set_def cp_merge_def)
  show "bit_set (bits_inv (2 ^ 14)) cp_keys (\<lambda>a. a) (\<lambda>a. unat a < 2 ^ 28)
      cp_new cp_insert cp_get cp_is_set cp_count_set cp_merge"
    unfolding eqs by (rule bit_set_intro [of _ _ "2 ^ 64" 1]) (auto simp: unat_of_nat take_bit_nat_eq_self)
qed

text \<open>(C16) The bit sets are exact. Mark two lists of addresses (of page indices) in two structures and
  merge them: no call panics as long as the addresses are below \<open>2 ^ 40\<close> (the indices below \<open>2 ^ 28\<close>), and the
  result lists, in ascending order and without repetition, exactly the words (the pages) that were
  marked in one of them; the count and each lookup agree with it.\<close>

theorem touched_addresses_exact:
  assumes "\<forall>a \<in> set as \<union> set bs. unat a < 2 ^ 40" "\<forall>p \<in> set ps \<union> set qs. unat p < 2 ^ 28"
  shows "(\<exists>m n u. insert_all cm_insert cm_new as = Some m \<and> insert_all cm_insert cm_new bs = Some n \<and>
      cm_merge m n = Some u \<and> cm_is_set u = Some (sorted_list_of_set ((\<lambda>a. a AND NOT 7) ` (set as \<union> set bs))) \<and>
      cm_count_set u = card ((\<lambda>a. a AND NOT 7) ` (set as \<union> set bs)) \<and>
      (\<forall>a. cm_get u a = Some (a AND NOT 7 \<in> (\<lambda>a. a AND NOT 7) ` (set as \<union> set bs)))) \<and>
    (\<exists>m n u. insert_all cp_insert cp_new ps = Some m \<and> insert_all cp_insert cp_new qs = Some n \<and>
      cp_merge m n = Some u \<and> cp_is_set u = Some (sorted_list_of_set (set ps \<union> set qs)) \<and>
      cp_count_set u = card (set ps \<union> set qs) \<and> (\<forall>p. cp_get u p = Some (p \<in> set ps \<union> set qs)))"
  using memory_bits.insert_all_merge [OF assms(1)] page_bits.insert_all_merge [OF assms(2)] by (simp add: image_ident)

theorem touched_addresses_exact_witness:
  "\<exists>m n u. insert_all cm_insert cm_new [0x1009, 0x20] = Some m \<and> insert_all cm_insert cm_new [0x1008] = Some n \<and>
    cm_merge m n = Some u \<and> cm_is_set u = Some [0x20, 0x1008] \<and> cm_count_set u = 2 \<and>
    cm_get u 0x27 = Some True \<and> cm_get u 0x28 = Some False"
proof -
  let ?keys = "(\<lambda>a. a AND NOT 7) ` (set [0x1009, 0x20] \<union> set [0x1008 :: u64])"
  have ok: "\<forall>a \<in> set [0x1009, 0x20] \<union> set [0x1008 :: u64]. unat a < 2 ^ 40" "\<forall>p \<in> set [] \<union> set ([] :: u64 list). unat p < 2 ^ 28"
    by simp_all
  obtain m n u where "insert_all cm_insert cm_new [0x1009, 0x20] = Some m" "insert_all cm_insert cm_new [0x1008] = Some n"
    "cm_merge m n = Some u" "cm_is_set u = Some (sorted_list_of_set ?keys)" "cm_count_set u = card ?keys"
    "\<And>a. cm_get u a = Some (a AND NOT 7 \<in> ?keys)"
    using touched_addresses_exact [OF ok] by blast
  moreover have "?keys = {0x20, 0x1008}"
    by auto
  ultimately show ?thesis
    by (intro exI [of _ m] exI [of _ n] exI [of _ u]) (simp del: insert_all.simps)
qed

end
