(* ===== verification/Shape_Checker.thy ===== *)
theory Shape_Checker
  imports Air_Id Compressed_Memory Machine Instruction
begin

text \<open>
  \<open>crates/core/executor/src/vm/shapes.rs\<close>: the shape checker, which estimates the size of the shard that is
  being executed and decides where it is cut. The state is the record \<open>ShapeChecker\<close>, with the fields of
  the struct prefixed with \<open>sh_\<close>; the type parameter \<open>M\<close> is the field \<open>sh_mode\<close>. A function that marks an
  address in the \<open>CompressedMemory\<close> returns \<open>None\<close> where that panics.
\<close>

subsection \<open>State\<close>

abbreviation (input) MAXIMUM_PADDING_AREA :: u64 where "MAXIMUM_PADDING_AREA \<equiv> 2 ^ 18"
abbreviation (input) MAXIMUM_CYCLE_AREA :: u64 where "MAXIMUM_CYCLE_AREA \<equiv> 2 ^ 18"
abbreviation (input) HALT_AREA :: u64 where "HALT_AREA \<equiv> 2 ^ 18"
abbreviation (input) HALT_HEIGHT :: u64 where "HALT_HEIGHT \<equiv> 2 ^ 10"
abbreviation (input) BYTE_NUM_ROWS :: u64 where "BYTE_NUM_ROWS \<equiv> 2 ^ 16"
abbreviation (input) RANGE_NUM_ROWS :: u64 where "RANGE_NUM_ROWS \<equiv> 2 ^ 17"
abbreviation (input) NUM_PAGE_PROT_ENTRIES_PER_ROW_EXEC :: u64 where "NUM_PAGE_PROT_ENTRIES_PER_ROW_EXEC \<equiv> 4"

record ShardingThreshold =
  element_threshold :: u64
  height_threshold :: u64

record ShapeChecker =
  sh_mode :: ExecutionMode
  sh_program_len :: u64
  sh_trace_area :: u64
  sh_max_height :: u64
  sh_is_commit_on :: bool
  sh_syscall_sent :: bool
  sh_shard_start_clk :: u64
  sh_sharding_threshold :: ShardingThreshold
  sh_heights :: "RiscvAirId \<Rightarrow> u64"
  sh_costs :: "RiscvAirId \<Rightarrow> u64"
  sh_local_mem_counts :: u64
  sh_local_page_prot_counts :: u64
  sh_is_last_read_external :: CompressedMemory
  sh_is_last_page_prot_access_external :: "u64 \<Rightarrow> bool option"
  sh_shard_distinct_instructions :: "u32 set"

text \<open>\<open>next_multiple_of\<close> and \<open>div_ceil\<close> of the standard library.\<close>

definition next_multiple_of :: "u64 \<Rightarrow> u64 \<Rightarrow> u64" where
  "next_multiple_of n m = (if n mod m = 0 then n else n + (m - n mod m))"

definition div_ceil :: "u64 \<Rightarrow> u64 \<Rightarrow> u64" where
  "div_ceil n m = n div m + (if n mod m > 0 then 1 else 0)"

definition shape_new :: "ExecutionMode \<Rightarrow> u64 \<Rightarrow> u64 \<Rightarrow> ShardingThreshold \<Rightarrow> ShapeChecker" where
  "shape_new mode program_len shard_start_clk elem_threshold = (
     let costs = (\<lambda>a. of_nat (rv64im_costs a));
         preprocessed_trace_area = next_multiple_of program_len 32 * costs Program
           + BYTE_NUM_ROWS * costs Byte + RANGE_NUM_ROWS * costs Range_air
     in \<lparr>sh_mode = mode, sh_program_len = program_len,
         sh_trace_area = preprocessed_trace_area + MAXIMUM_PADDING_AREA + MAXIMUM_CYCLE_AREA,
         sh_max_height = 0, sh_is_commit_on = False, sh_syscall_sent = False,
         sh_shard_start_clk = shard_start_clk, sh_sharding_threshold = elem_threshold,
         sh_heights = (\<lambda>_. 0), sh_costs = costs, sh_local_mem_counts = 32,
         sh_local_page_prot_counts = 0, sh_is_last_read_external = cm_new,
         sh_is_last_page_prot_access_external = Map.empty, sh_shard_distinct_instructions = {}\<rparr>)"

subsection \<open>Operations\<close>

text \<open>Adding \<open>n\<close> rows to a table and \<open>area\<close> to the trace, the three statements that recur in the source.\<close>

definition add_rows :: "RiscvAirId \<Rightarrow> u64 \<Rightarrow> u64 \<Rightarrow> ShapeChecker \<Rightarrow> ShapeChecker" where
  "add_rows a n area sc = (
     let h = sh_heights sc a + n
     in sc\<lparr>sh_trace_area := sh_trace_area sc + area, sh_heights := (sh_heights sc)(a := h),
           sh_max_height := max (sh_max_height sc) h\<rparr>)"

definition handle_untrusted_instruction :: "ShapeChecker \<Rightarrow> u32 \<Rightarrow> ShapeChecker" where
  "handle_untrusted_instruction sc instruction = (
     let sc1 = add_rows InstructionFetch 1 (sh_costs sc InstructionFetch) sc
     in if instruction \<notin> sh_shard_distinct_instructions sc1 then
          sc1\<lparr>sh_shard_distinct_instructions := insert instruction (sh_shard_distinct_instructions sc1),
              sh_trace_area := sh_trace_area sc1 + sh_costs sc1 InstructionDecode,
              sh_heights := (sh_heights sc1)(InstructionDecode := sh_heights sc1 InstructionDecode + 1)\<rparr>
        else sc1)"

definition shape_mem_event :: "ShapeChecker \<Rightarrow> u64 \<Rightarrow> u64 \<Rightarrow> ShapeChecker option" where
  "shape_mem_event sc addr clock = do {
     let addr = addr AND NOT 7;
     let is_external = sh_syscall_sent sc;
     let is_first_read_this_shard = (sh_shard_start_clk sc > clock);
     (is_last_read_external, m) \<leftarrow> cm_insert (sh_is_last_read_external sc) addr is_external;
     Some (sc\<lparr>sh_is_last_read_external := m, sh_local_mem_counts := sh_local_mem_counts sc +
       of_bool (is_first_read_this_shard \<or> (is_last_read_external \<and> \<not> is_external))\<rparr>)
   }"

definition shape_local_mem_syscall_rr :: "ShapeChecker \<Rightarrow> ShapeChecker" where
  "shape_local_mem_syscall_rr sc =
    sc\<lparr>sh_local_mem_counts := sh_local_mem_counts sc + of_bool (sh_syscall_sent sc)\<rparr>"

definition shape_page_prot_event :: "ShapeChecker \<Rightarrow> u64 \<Rightarrow> u64 \<Rightarrow> ShapeChecker" where
  "shape_page_prot_event sc i clock = (
     let is_external = sh_syscall_sent sc;
         is_first_read_this_shard = (sh_shard_start_clk sc > clock);
         is_last_page_prot_access_external =
           (case sh_is_last_page_prot_access_external sc i of Some b \<Rightarrow> b | None \<Rightarrow> False)
     in sc\<lparr>sh_is_last_page_prot_access_external := (sh_is_last_page_prot_access_external sc)(i \<mapsto> is_external),
           sh_local_page_prot_counts := sh_local_page_prot_counts sc +
             of_bool (is_first_read_this_shard \<or> (is_last_page_prot_access_external \<and> \<not> is_external))\<rparr>)"

definition handle_commit :: "ShapeChecker \<Rightarrow> ShapeChecker" where
  "handle_commit sc = sc\<lparr>sh_is_commit_on := True\<rparr>"

definition commit_outgrew_halt_room :: "ShapeChecker \<Rightarrow> bool" where
  "commit_outgrew_halt_room sc \<longleftrightarrow> sh_is_commit_on sc \<and>
    (sh_trace_area sc \<ge> element_threshold (sh_sharding_threshold sc) + HALT_AREA \<or>
     sh_max_height sc \<ge> height_threshold (sh_sharding_threshold sc) + HALT_HEIGHT)"

definition shape_trap_exec_event :: "ShapeChecker \<Rightarrow> ShapeChecker" where
  "shape_trap_exec_event sc = add_rows TrapExec 1 (sh_costs sc TrapExec) sc"

definition shape_trap_mem_event :: "ShapeChecker \<Rightarrow> ShapeChecker" where
  "shape_trap_mem_event sc = add_rows TrapMem 1 (sh_costs sc TrapMem) sc"

definition increment_count :: "ShapeChecker \<Rightarrow> RiscvAirId \<Rightarrow> ShapeChecker" where
  "increment_count sc a = add_rows a 1 (sh_costs sc a) sc"

definition shape_retained_syscall :: "ShapeChecker \<Rightarrow> SyscallCode \<Rightarrow> ShapeChecker option" where
  "shape_retained_syscall sc code = do {
     air_id \<leftarrow> (if PAGE_PROTECTION_ENABLED (sh_mode sc) then as_air_id_user code else as_air_id code);
     let rows = of_nat (rows_per_event air_id);
     let sc1 = add_rows air_id rows (rows * sh_costs sc air_id) sc;
     if rows > 1 then do {
       control \<leftarrow> control_air_id air_id (PAGE_PROTECTION_ENABLED (sh_mode sc));
       Some (sc1\<lparr>sh_trace_area := sh_trace_area sc1 + sh_costs sc1 control\<rparr>)
     } else Some sc1
   }"

definition update_heights_and_area :: "ShapeChecker \<Rightarrow> bool \<Rightarrow> bool \<Rightarrow> ShapeChecker" where
  "update_heights_and_area sc bump_clk_high state_bump = (
     let touched_addresses = sh_local_mem_counts sc;
         syscall_sent = sh_syscall_sent sc;
         sc1 = sc\<lparr>sh_local_mem_counts := 0, sh_syscall_sent := False\<rparr>;
         sc2 = add_rows MemoryLocal touched_addresses (touched_addresses * sh_costs sc1 MemoryLocal) sc1;
         sc3 = add_rows Global (2 * touched_addresses + of_bool syscall_sent)
                 (sh_costs sc2 Global * (2 * touched_addresses + of_bool syscall_sent)) sc2;
         sc4 = (if bump_clk_high then add_rows MemoryBump 32 (32 * sh_costs sc3 MemoryBump) sc3 else sc3);
         sc5 = (if state_bump then add_rows StateBump 1 (sh_costs sc4 StateBump) sc4 else sc4)
     in if syscall_sent then add_rows SyscallCore 1 (sh_costs sc5 SyscallCore) sc5 else sc5)"

definition shape_set_syscall_sent :: "ShapeChecker \<Rightarrow> bool \<Rightarrow> ShapeChecker" where
  "shape_set_syscall_sent sc sent = sc\<lparr>sh_syscall_sent := sent\<rparr>"

definition shape_syscall_sent :: "ShapeChecker \<Rightarrow> ShapeChecker" where
  "shape_syscall_sent sc = sc\<lparr>sh_syscall_sent := True\<rparr>"

definition shape_reset :: "ShapeChecker \<Rightarrow> u64 \<Rightarrow> ShapeChecker" where
  "shape_reset sc clock = shape_new (sh_mode sc) (sh_program_len sc) clock (sh_sharding_threshold sc)"

definition check_shard_limit :: "ShapeChecker \<Rightarrow> bool" where
  "check_shard_limit sc \<longleftrightarrow> \<not> sh_is_commit_on sc \<and>
    (sh_trace_area sc \<ge> element_threshold (sh_sharding_threshold sc) \<or>
     sh_max_height sc \<ge> height_threshold (sh_sharding_threshold sc))"

definition shape_instruction_supervisor ::
    "ShapeChecker \<Rightarrow> Instruction \<Rightarrow> bool \<Rightarrow> bool \<Rightarrow> bool \<Rightarrow> bool \<Rightarrow> ShapeChecker option" where
  "shape_instruction_supervisor sc instruction bump_clk_high is_alu_x0 is_load_x0 state_bump = do {
     air_id \<leftarrow> (if is_alu_x0 then Some AluX0 else if is_load_x0 then Some LoadX0
       else riscv_air_id_from_opcode (opcode instruction));
     Some (update_heights_and_area (increment_count sc air_id) bump_clk_high state_bump)
   }"

definition update_heights_and_area_prot :: "ShapeChecker \<Rightarrow> nat \<Rightarrow> ShapeChecker" where
  "update_heights_and_area_prot sc num_page_prot_accesses = (
     let touched_pages = sh_local_page_prot_counts sc;
         sc1 = sc\<lparr>sh_local_page_prot_counts := 0\<rparr>;
         sc2 = add_rows Global (2 * touched_pages) (sh_costs sc1 Global * 2 * touched_pages) sc1;
         prev_count = sh_heights sc2 PageProt;
         new_count = prev_count + of_nat num_page_prot_accesses;
         sc3 = sc2\<lparr>sh_trace_area := sh_trace_area sc2 + sh_costs sc2 PageProt *
                    (div_ceil new_count NUM_PAGE_PROT_ENTRIES_PER_ROW_EXEC -
                     div_ceil prev_count NUM_PAGE_PROT_ENTRIES_PER_ROW_EXEC),
                  sh_heights := (sh_heights sc2)(PageProt := new_count),
                  sh_max_height := max (sh_max_height sc2) (div_ceil new_count NUM_PAGE_PROT_ENTRIES_PER_ROW_EXEC)\<rparr>
     in add_rows PageProtLocal touched_pages (sh_costs sc3 PageProtLocal * touched_pages) sc3)"

definition shape_instruction_user ::
    "ShapeChecker \<Rightarrow> Instruction \<Rightarrow> bool \<Rightarrow> bool \<Rightarrow> bool \<Rightarrow> bool \<Rightarrow> nat \<Rightarrow> ShapeChecker option" where
  "shape_instruction_user sc instruction bump_clk_high is_alu_x0 is_load_x0 state_bump num_page_prot_accesses = do {
     air_id \<leftarrow> (if is_alu_x0 then Some AluX0User else if is_load_x0 then Some LoadX0User
       else riscv_air_id_from_opcode_user (opcode instruction));
     Some (update_heights_and_area_prot
       (update_heights_and_area (increment_count sc air_id) bump_clk_high state_bump) num_page_prot_accesses)
   }"

definition shape_trap_events :: "ShapeChecker \<Rightarrow> bool \<Rightarrow> nat \<Rightarrow> ShapeChecker" where
  "shape_trap_events sc bump_clk_high num_page_prot_accesses =
    update_heights_and_area_prot (update_heights_and_area sc bump_clk_high bump_clk_high) num_page_prot_accesses"

end
