(* ===== verification/Splicing_VM.thy ===== *)
theory Splicing_VM
  imports Core_Step Shape_Checker
begin

text \<open>
  \<open>crates/core/executor/src/splicing.rs\<close>: the splicing VM, a core VM with a shape checker that cuts the
  execution of a trace chunk into shards, and with the sets of touched addresses and pages. The state is
  the record \<open>SplicingVM\<close>, with the fields of the struct prefixed with \<open>sp_\<close>.

  As a runtime of the system calls (\<open>SyscallRuntime\<close>) it counts every access. The bit sets panic on an address
  they have no slot for. Where a method of the runtime cannot report that, it sets \<open>sp_panicked\<close>, which no
  method reads and which \<open>execute_ecall\<close> turns into the panic as soon as the system call returns.

  The machine does to its core VM exactly what \<open>core_step\<close> does: this is the projection at the end, through
  the locale \<open>syscall_machine\<close> for the system calls.
\<close>

subsection \<open>State and counters\<close>

record SplicingVM =
  sp_core :: CoreVM
  sp_shape_checker :: ShapeChecker
  sp_touched_addresses :: CompressedMemory
  sp_touched_pages :: CompressedPages
  sp_panicked :: bool

definition splicing_new ::
    "ExecutionMode \<Rightarrow> TraceChunk \<Rightarrow> Program \<Rightarrow> CompressedMemory \<Rightarrow> CompressedPages \<Rightarrow> SyscallCode list \<Rightarrow>
     ShardingThreshold \<Rightarrow> SplicingVM option" where
  "splicing_new mode trace program addrs pages retained thr = do {
     assert_that (element_threshold thr \<ge> HALT_AREA \<and> height_threshold thr \<ge> HALT_HEIGHT);
     c \<leftarrow> core_new mode trace program retained;
     Some \<lparr>sp_core = c,
       sp_shape_checker = shape_new mode (of_nat (length (instructions program))) (clk_start trace)
         \<lparr>element_threshold = element_threshold thr - HALT_AREA, height_threshold = height_threshold thr - HALT_HEIGHT\<rparr>,
       sp_touched_addresses = addrs, sp_touched_pages = pages, sp_panicked = False\<rparr>
   }"

definition touch_address :: "SplicingVM \<Rightarrow> u64 \<Rightarrow> SplicingVM option" where
  "touch_address vm addr = do {
     (_, m) \<leftarrow> cm_insert (sp_touched_addresses vm) addr True;
     Some (vm\<lparr>sp_touched_addresses := m\<rparr>)
   }"

definition touch_page :: "SplicingVM \<Rightarrow> u64 \<Rightarrow> SplicingVM option" where
  "touch_page vm i = do {
     (_, m) \<leftarrow> cp_insert (sp_touched_pages vm) i True;
     Some (vm\<lparr>sp_touched_pages := m\<rparr>)
   }"

definition splicing_mem_event :: "SplicingVM \<Rightarrow> u64 \<Rightarrow> u64 \<Rightarrow> SplicingVM option" where
  "splicing_mem_event vm addr clock = do {
     sc \<leftarrow> shape_mem_event (sp_shape_checker vm) addr clock;
     Some (vm\<lparr>sp_shape_checker := sc\<rparr>)
   }"

definition splicing_page_prot_event :: "SplicingVM \<Rightarrow> u64 \<Rightarrow> u64 \<Rightarrow> SplicingVM option" where
  "splicing_page_prot_event vm i clock =
    touch_page (vm\<lparr>sp_shape_checker := shape_page_prot_event (sp_shape_checker vm) i clock\<rparr>) i"

subsection \<open>The runtime of the system calls\<close>

definition or_panicked :: "SplicingVM \<Rightarrow> SplicingVM option \<Rightarrow> SplicingVM" where
  "or_panicked vm m = (case m of Some vm' \<Rightarrow> vm' | None \<Rightarrow> vm\<lparr>sp_panicked := True\<rparr>)"

definition latched_mem_event :: "u64 \<times> u64 \<Rightarrow> SplicingVM \<Rightarrow> SplicingVM" where
  "latched_mem_event ac vm = or_panicked vm (splicing_mem_event vm (fst ac) (snd ac))"

definition latched_page_prot_event :: "PageProtRecord \<Rightarrow> SplicingVM \<Rightarrow> SplicingVM" where
  "latched_page_prot_event record vm = or_panicked vm (splicing_page_prot_event vm (page_idx record) (pr_timestamp record))"

definition splicing_rr :: "SplicingVM \<Rightarrow> nat \<Rightarrow> (MemoryReadRecord \<times> SplicingVM) option" where
  "splicing_rr vm register = do {
     (record, c) \<leftarrow> core_rt_rr (sp_core vm) register;
     Some (record, vm\<lparr>sp_core := c, sp_shape_checker := shape_local_mem_syscall_rr (sp_shape_checker vm)\<rparr>)
   }"

definition splicing_rw :: "SplicingVM \<Rightarrow> nat \<Rightarrow> u64 \<Rightarrow> (MemoryWriteRecord \<times> SplicingVM) option" where
  "splicing_rw vm register v = do {
     (record, c) \<leftarrow> core_rt_rw (sp_core vm) register v;
     Some (record, vm\<lparr>sp_core := c, sp_shape_checker := shape_local_mem_syscall_rr (sp_shape_checker vm)\<rparr>)
   }"

definition splicing_page_prot_write :: "SplicingVM \<Rightarrow> u64 \<Rightarrow> u8 \<Rightarrow> (PageProtRecord \<times> SplicingVM) option" where
  "splicing_page_prot_write vm i prot = do {
     (record, c) \<leftarrow> core_page_prot_write (sp_core vm) i prot;
     Some (record, latched_page_prot_event record (vm\<lparr>sp_core := c\<rparr>))
   }"

definition splicing_page_prot_range_check ::
    "elf_abi \<Rightarrow> SplicingVM \<Rightarrow> u64 \<Rightarrow> u64 \<Rightarrow> u8 \<Rightarrow> ((PageProtRecord list \<times> TrapError option) \<times> SplicingVM) option" where
  "splicing_page_prot_range_check e vm start_page_idx end_page_idx bitmap = do {
     ((records, error), c) \<leftarrow> core_page_prot_range_check e (sp_core vm) start_page_idx end_page_idx bitmap;
     Some ((records, error), fold latched_page_prot_event records (vm\<lparr>sp_core := c\<rparr>))
   }"

definition splicing_mr_without_prot :: "SplicingVM \<Rightarrow> u64 \<Rightarrow> (MemoryReadRecord \<times> SplicingVM) option" where
  "splicing_mr_without_prot vm addr = do {
     (record, c) \<leftarrow> core_mr_without_prot (sp_core vm) addr;
     Some (record, latched_mem_event (addr, rd_prev_timestamp record) (vm\<lparr>sp_core := c\<rparr>))
   }"

definition splicing_mw_without_prot :: "SplicingVM \<Rightarrow> u64 \<Rightarrow> (MemoryWriteRecord \<times> SplicingVM) option" where
  "splicing_mw_without_prot vm addr = do {
     (record, c) \<leftarrow> core_mw_without_prot (sp_core vm) addr;
     Some (record, latched_mem_event (addr, wr_prev_timestamp record) (vm\<lparr>sp_core := c\<rparr>))
   }"

text \<open>\<open>addr + i as u64 * 8\<close> with the previous timestamp of the \<open>i\<close>-th record.\<close>

definition slice_events :: "u64 \<Rightarrow> u64 list \<Rightarrow> (u64 \<times> u64) list" where
  "slice_events addr clocks = zip (map (\<lambda>i. addr + of_nat i * 8) [0..<length clocks]) clocks"

definition splicing_mr_slice_without_prot :: "SplicingVM \<Rightarrow> u64 \<Rightarrow> nat \<Rightarrow> MemoryReadRecord list \<times> SplicingVM" where
  "splicing_mr_slice_without_prot vm addr len = (
     let (records, c) = core_mr_slice_without_prot (sp_core vm) addr len
     in (records, fold latched_mem_event (slice_events addr (map rd_prev_timestamp records)) (vm\<lparr>sp_core := c\<rparr>)))"

definition splicing_mw_slice_without_prot :: "SplicingVM \<Rightarrow> u64 \<Rightarrow> nat \<Rightarrow> MemoryWriteRecord list \<times> SplicingVM" where
  "splicing_mw_slice_without_prot vm addr len = (
     let (records, c) = core_mw_slice_without_prot (sp_core vm) addr len
     in (records, fold latched_mem_event (slice_events addr (map wr_prev_timestamp records)) (vm\<lparr>sp_core := c\<rparr>)))"

definition splicing_runtime :: "elf_abi \<Rightarrow> SplicingVM SyscallRuntime" where
  "splicing_runtime e =
    \<lparr>rt_core = sp_core, rt_set_core = (\<lambda>c vm. vm\<lparr>sp_core := c\<rparr>), rt_rr = splicing_rr, rt_rw = splicing_rw,
     rt_page_prot_write = splicing_page_prot_write,
     rt_page_prot_range_check = splicing_page_prot_range_check e,
     rt_mr_without_prot = splicing_mr_without_prot, rt_mw_without_prot = splicing_mw_without_prot,
     rt_mr_slice_without_prot = splicing_mr_slice_without_prot,
     rt_mw_slice_without_prot = splicing_mw_slice_without_prot\<rparr>"

lemma latched_core [simp]:
  "sp_core (latched_mem_event ac vm) = sp_core vm" "sp_core (latched_page_prot_event record vm) = sp_core vm"
  by (auto simp: latched_mem_event_def latched_page_prot_event_def or_panicked_def splicing_mem_event_def
      splicing_page_prot_event_def touch_page_def split: option.splits Option.bind_splits)

lemma fold_latched_core [simp]:
  "sp_core (fold latched_mem_event acs vm) = sp_core vm" "sp_core (fold latched_page_prot_event records vm) = sp_core vm"
  by (induction acs arbitrary: vm, simp_all) (induction records arbitrary: vm, simp_all)

interpretation splicing_machine: syscall_machine e "splicing_runtime e"
  by unfold_locales
    (auto simp: splicing_runtime_def splicing_rr_def splicing_rw_def splicing_page_prot_write_def
      splicing_page_prot_range_check_def splicing_mr_without_prot_def splicing_mw_without_prot_def
      splicing_mr_slice_without_prot_def splicing_mw_slice_without_prot_def proj_def Let_def
      split: Option.bind_splits prod.splits)

subsection \<open>Instructions\<close>

definition splicing_handle_error :: "SplicingVM \<Rightarrow> TrapError \<Rightarrow> (ExecutionError, SplicingVM) outcome" where
  "splicing_handle_error vm err =
    and_then (core_handle_error (sp_core vm) err) (\<lambda>(trap, c). unwrap (do {
      let context = trap_context_address trap;
      vm1 \<leftarrow> touch_address (vm\<lparr>sp_core := c\<rparr>) (context AND NOT 7);
      vm2 \<leftarrow> touch_address vm1 ((context + 8) AND NOT 7);
      vm3 \<leftarrow> touch_address vm2 ((context + 16) AND NOT 7);
      vm4 \<leftarrow> splicing_mem_event vm3 context (rd_prev_timestamp (handler_record trap));
      vm5 \<leftarrow> splicing_mem_event vm4 (context + 8) (wr_prev_timestamp (code_record trap));
      splicing_mem_event vm5 (context + 16) (wr_prev_timestamp (pc_record trap))
    }))"

definition splicing_accessed :: "SplicingVM \<Rightarrow> u64 \<Rightarrow> u64 \<Rightarrow> (ExecutionError, SplicingVM) outcome" where
  "splicing_accessed vm addr clock = unwrap (do {
     vm1 \<leftarrow> touch_address vm (addr AND NOT 7);
     splicing_mem_event vm1 addr clock
   })"

definition splicing_execute_load_supervisor :: "SplicingVM \<Rightarrow> Instruction \<Rightarrow> (ExecutionError, SplicingVM) outcome" where
  "splicing_execute_load_supervisor vm instruction =
    and_then (core_execute_load_supervisor (sp_core vm) instruction) (\<lambda>(r, c).
      splicing_accessed (vm\<lparr>sp_core := c\<rparr>) (ld_addr r) (rd_prev_timestamp (ld_mr_record r)))"

definition splicing_execute_store_supervisor :: "SplicingVM \<Rightarrow> Instruction \<Rightarrow> (ExecutionError, SplicingVM) outcome" where
  "splicing_execute_store_supervisor vm instruction =
    and_then (core_execute_store_supervisor (sp_core vm) instruction) (\<lambda>(r, c).
      splicing_accessed (vm\<lparr>sp_core := c\<rparr>) (st_addr r) (wr_prev_timestamp (st_mw_record r)))"

definition splicing_accessed_page :: "SplicingVM \<Rightarrow> PageProtRecord option \<Rightarrow> (ExecutionError, SplicingVM) outcome" where
  "splicing_accessed_page vm prev = (case prev of
      Some record \<Rightarrow> unwrap (splicing_page_prot_event vm (page_idx record) (pr_timestamp record))
    | None \<Rightarrow> Ok vm)"

definition splicing_trap_mem :: "SplicingVM \<Rightarrow> TrapError \<Rightarrow> (ExecutionError, SplicingVM) outcome" where
  "splicing_trap_mem vm err = and_then (splicing_handle_error vm err) (\<lambda>vm1.
     Ok (vm1\<lparr>sp_shape_checker := shape_trap_mem_event (sp_shape_checker vm1)\<rparr>))"

definition splicing_execute_load_user ::
    "elf_abi \<Rightarrow> SplicingVM \<Rightarrow> Instruction \<Rightarrow> (ExecutionError, SplicingVM) outcome" where
  "splicing_execute_load_user e vm instruction =
    and_then (core_execute_load_user e (sp_core vm) instruction) (\<lambda>(r, c).
    and_then (case ld_error r of
        Some err \<Rightarrow> splicing_trap_mem (vm\<lparr>sp_core := c\<rparr>) err
      | None \<Rightarrow> splicing_accessed (vm\<lparr>sp_core := c\<rparr>) (ld_addr r) (rd_prev_timestamp (ld_mr_record r))) (\<lambda>vm1.
    splicing_accessed_page vm1 (rd_prev_page_prot_record (ld_mr_record r))))"

definition splicing_execute_store_user ::
    "elf_abi \<Rightarrow> SplicingVM \<Rightarrow> Instruction \<Rightarrow> (ExecutionError, SplicingVM) outcome" where
  "splicing_execute_store_user e vm instruction =
    and_then (core_execute_store_user e (sp_core vm) instruction) (\<lambda>(r, c).
    and_then (case st_error r of
        Some err \<Rightarrow> splicing_trap_mem (vm\<lparr>sp_core := c\<rparr>) err
      | None \<Rightarrow> splicing_accessed (vm\<lparr>sp_core := c\<rparr>) (st_addr r) (wr_prev_timestamp (st_mw_record r))) (\<lambda>vm1.
    splicing_accessed_page vm1 (wr_prev_page_prot_record (st_mw_record r))))"

text \<open>\<open>execute_alu\<close>, \<open>execute_jump\<close>, \<open>execute_branch\<close> and \<open>execute_utype\<close>, which drop the result of the core VM.\<close>

definition splicing_only :: "SplicingVM \<Rightarrow> ('a \<times> CoreVM) option \<Rightarrow> (ExecutionError, SplicingVM) outcome" where
  "splicing_only vm m = and_then (unwrap m) (\<lambda>(_, c). Ok (vm\<lparr>sp_core := c\<rparr>))"

definition count_syscall :: "SplicingVM \<Rightarrow> SyscallCode \<Rightarrow> SplicingVM option" where
  "count_syscall vm code = do {
     sc \<leftarrow> (if should_send code = 1 then
         (if is_retained_syscall (sp_core vm) code then shape_retained_syscall (sp_shape_checker vm) code
          else Some (shape_syscall_sent (sp_shape_checker vm)))
       else Some (sp_shape_checker vm));
     Some (vm\<lparr>sp_shape_checker := if code = COMMIT \<or> code = COMMIT_DEFERRED_PROOFS then handle_commit sc else sc\<rparr>)
   }"

definition splicing_execute_ecall ::
    "elf_abi \<Rightarrow> SplicingVM \<Rightarrow> Instruction \<Rightarrow> (ExecutionError, SplicingVM) outcome" where
  "splicing_execute_ecall e vm instruction =
    and_then (unwrap (do {
      code \<leftarrow> read_code (sp_core vm);
      vm1 \<leftarrow> count_syscall vm code;
      (result, vm2) \<leftarrow> core_execute_ecall e (splicing_runtime e) vm1 instruction;
      assert_that (\<not> sp_panicked vm2);
      Some (result, vm2)
    })) (\<lambda>(result, vm2).
      let syscall_sent = sh_syscall_sent (sp_shape_checker vm2);
          vm3 = vm2\<lparr>sp_shape_checker := shape_set_syscall_sent (sp_shape_checker vm2) False\<rparr>
      in and_then (case ec_error result of Some err \<Rightarrow> splicing_handle_error vm3 err | None \<Rightarrow> Ok vm3) (\<lambda>vm4.
         and_then (case ec_sig_return_pc_record result of
             Some record \<Rightarrow> unwrap (splicing_mem_event vm4 (ec_b result) (rd_prev_timestamp record))
           | None \<Rightarrow> Ok vm4) (\<lambda>vm5.
         Ok (vm5\<lparr>sp_shape_checker := shape_set_syscall_sent (sp_shape_checker vm5) syscall_sent\<rparr>))))"

definition splicing_advance :: "SplicingVM \<Rightarrow> CycleResult \<times> SplicingVM" where
  "splicing_advance vm = (let (result, c) = advance (sp_core vm) in (result, vm\<lparr>sp_core := c\<rparr>))"

definition splicing_execute_instruction_supervisor ::
    "elf_abi \<Rightarrow> SplicingVM \<Rightarrow> (ExecutionError, CycleResult \<times> SplicingVM) outcome" where
  "splicing_execute_instruction_supervisor e vm =
    and_then (unwrap (core_fetch_supervisor (sp_core vm))) (\<lambda>instruction.
    and_then (match_opcode (opcode instruction)
      (splicing_only vm (core_execute_alu (sp_core vm) instruction))
      (splicing_execute_load_supervisor vm instruction)
      (splicing_execute_store_supervisor vm instruction)
      (splicing_only vm (core_execute_jump (sp_core vm) instruction))
      (splicing_only vm (core_execute_branch (sp_core vm) instruction))
      (splicing_only vm (core_execute_utype (sp_core vm) instruction))
      (splicing_execute_ecall e vm instruction)
      Panic) (\<lambda>vm1.
    and_then (unwrap (shape_instruction_supervisor (sp_shape_checker vm1) instruction
        (needs_bump_clk_high (sp_core vm1))
        (is_alu_instruction instruction \<and> op_a instruction = 0)
        (is_memory_load_instruction instruction \<and> op_a instruction = 0)
        (needs_state_bump (sp_core vm1) instruction))) (\<lambda>sc.
    Ok (splicing_advance (vm1\<lparr>sp_shape_checker := sc\<rparr>)))))"

definition splicing_fetch_trap ::
    "SplicingVM \<Rightarrow> FetchResult \<Rightarrow> TrapError \<Rightarrow> (ExecutionError, CycleResult \<times> SplicingVM) outcome" where
  "splicing_fetch_trap vm f err =
    and_then (splicing_handle_error vm err) (\<lambda>vm1.
    and_then (unwrap (do {
      mr_record \<leftarrow> fetch_mr_record f;
      prot_record \<leftarrow> rd_prev_page_prot_record mr_record;
      splicing_page_prot_event vm1 (drop_bit LOG_PAGE_SIZE (fetch_pc f)) (pr_timestamp prot_record)
    })) (\<lambda>vm2.
      let sc1 = shape_trap_exec_event (sp_shape_checker vm2);
          sc2 = shape_trap_events sc1 (needs_bump_clk_high (sp_core vm2)) 1
      in Ok (splicing_advance (vm2\<lparr>sp_shape_checker := sc2\<rparr>))))"

text \<open>What the fetch of an instruction from memory counts; the number is \<open>num_page_prot_accesses\<close>.\<close>

definition splicing_fetched :: "SplicingVM \<Rightarrow> FetchResult \<Rightarrow> (nat \<times> SplicingVM) option" where
  "splicing_fetched vm f = (case fetch_mr_record f of
      None \<Rightarrow> Some (0, vm)
    | Some mr_record \<Rightarrow> do {
        let pc = fetch_pc f;
        let instruction_value = ucast (drop_bit (unat (pc mod 8 * 8)) (rd_value mr_record));
        vm1 \<leftarrow> touch_address vm (pc AND NOT 7);
        let vm2 = vm1\<lparr>sp_shape_checker := handle_untrusted_instruction (sp_shape_checker vm1) instruction_value\<rparr>;
        vm3 \<leftarrow> splicing_mem_event vm2 (pc AND NOT 7) (rd_prev_timestamp mr_record);
        prot_record \<leftarrow> rd_prev_page_prot_record mr_record;
        vm4 \<leftarrow> splicing_page_prot_event vm3 (drop_bit LOG_PAGE_SIZE pc) (pr_timestamp prot_record);
        Some (1, vm4)
      })"

definition splicing_execute_instruction_user ::
    "elf_abi \<Rightarrow> (u32 \<Rightarrow> Instruction option) \<Rightarrow> SplicingVM \<Rightarrow> (ExecutionError, CycleResult \<times> SplicingVM) outcome" where
  "splicing_execute_instruction_user e decode vm =
    and_then (core_fetch_user e decode (sp_core vm)) (\<lambda>(f, c).
    let vm0 = vm\<lparr>sp_core := c\<rparr>
    in case fetch_error f of
      Some err \<Rightarrow> splicing_fetch_trap vm0 f err
    | None \<Rightarrow>
        and_then (unwrap (fetch_instruction f)) (\<lambda>instruction.
        and_then (unwrap (splicing_fetched vm0 f)) (\<lambda>(fetch_accesses, vm1).
        and_then (match_opcode (opcode instruction)
          (splicing_only vm1 (core_execute_alu (sp_core vm1) instruction))
          (splicing_execute_load_user e vm1 instruction)
          (splicing_execute_store_user e vm1 instruction)
          (splicing_only vm1 (core_execute_jump (sp_core vm1) instruction))
          (splicing_only vm1 (core_execute_branch (sp_core vm1) instruction))
          (splicing_only vm1 (core_execute_utype (sp_core vm1) instruction))
          (splicing_execute_ecall e vm1 instruction)
          Panic) (\<lambda>vm2.
        and_then (unwrap (shape_instruction_user (sp_shape_checker vm2) instruction
            (needs_bump_clk_high (sp_core vm2))
            (is_alu_instruction instruction \<and> op_a instruction = 0)
            (is_memory_load_instruction instruction \<and> op_a instruction = 0)
            (needs_state_bump (sp_core vm2) instruction)
            (if is_memory_load_instruction instruction \<or> is_memory_store_instruction instruction
             then fetch_accesses + 1 else fetch_accesses))) (\<lambda>sc.
        Ok (splicing_advance (vm2\<lparr>sp_shape_checker := sc\<rparr>)))))))"

definition splicing_execute_instruction ::
    "elf_abi \<Rightarrow> (u32 \<Rightarrow> Instruction option) \<Rightarrow> SplicingVM \<Rightarrow> (ExecutionError, CycleResult \<times> SplicingVM) outcome" where
  "splicing_execute_instruction e decode vm = (case c_mode (sp_core vm) of
      SupervisorMode \<Rightarrow> splicing_execute_instruction_supervisor e vm
    | UserMode \<Rightarrow> splicing_execute_instruction_user e decode vm)"

subsection \<open>The loop over the instructions of a shard\<close>

definition start_new_shard :: "SplicingVM \<Rightarrow> SplicingVM" where
  "start_new_shard vm = vm\<lparr>sp_shape_checker := shape_reset (sp_shape_checker vm) (c_clk (sp_core vm)),
     sp_core := snd (register_refresh (sp_core vm))\<rparr>"

definition commit_long_before_halt :: ExecutionError where
  "commit_long_before_halt = Other (''the program made a commit syscall long before it halted: the shard holding the commit '' @
     ''cannot end before the halt, and it outgrew what a shard can prove'')"

text \<open>The loop of \<open>execute\<close>; \<open>fuel\<close> bounds the number of instructions, and the outer \<open>None\<close> means that it has run out.\<close>

fun splicing_loop :: "elf_abi \<Rightarrow> (u32 \<Rightarrow> Instruction option) \<Rightarrow> nat \<Rightarrow> SplicingVM \<Rightarrow>
    (ExecutionError, CycleResult \<times> SplicingVM) outcome option" where
  "splicing_loop e decode 0 vm = None"
| "splicing_loop e decode (Suc fuel) vm = (case splicing_execute_instruction e decode vm of
      Panic \<Rightarrow> Some Panic
    | Err err \<Rightarrow> Some (Err err)
    | Ok (result, vm1) \<Rightarrow>
        if result \<noteq> Done True \<and> check_shard_limit (sp_shape_checker vm1)
        then Some (Ok (ShardBoundary, start_new_shard vm1))
        else if commit_outgrew_halt_room (sp_shape_checker vm1) then Some (Err commit_long_before_halt)
        else (case result of
            Done False \<Rightarrow> splicing_loop e decode fuel vm1
          | ShardBoundary \<Rightarrow> Some (Ok (ShardBoundary, start_new_shard vm1))
          | TraceEnd \<Rightarrow> Some (Ok (ShardBoundary, start_new_shard vm1))
          | Done True \<Rightarrow> Some (Ok (Done True, vm1))))"

definition splicing_execute :: "elf_abi \<Rightarrow> (u32 \<Rightarrow> Instruction option) \<Rightarrow> nat \<Rightarrow> SplicingVM \<Rightarrow>
    (ExecutionError, CycleResult \<times> SplicingVM) outcome option" where
  "splicing_execute e decode fuel vm = (if core_is_done (sp_core vm) then Some (Ok (Done True, vm))
     else splicing_loop e decode fuel vm)"

subsection \<open>Spliced traces\<close>

record SplicedMinimalTrace =
  spl_inner :: TraceChunk
  spl_start_registers :: "nat \<Rightarrow> u64"
  spl_start_pc :: u64
  spl_start_clk :: u64
  spl_memory_reads_idx :: nat
  spl_last_clk :: u64
  spl_last_mem_reads_idx :: nat

definition spliced_new :: "TraceChunk \<Rightarrow> (nat \<Rightarrow> u64) \<Rightarrow> u64 \<Rightarrow> u64 \<Rightarrow> nat \<Rightarrow> SplicedMinimalTrace" where
  "spliced_new inner regs pc clock idx =
    \<lparr>spl_inner = inner, spl_start_registers = regs, spl_start_pc = pc, spl_start_clk = clock,
     spl_memory_reads_idx = idx, spl_last_clk = 0, spl_last_mem_reads_idx = 0\<rparr>"

definition new_full_trace :: "TraceChunk \<Rightarrow> SplicedMinimalTrace" where
  "new_full_trace trace = spliced_new trace (start_registers trace) (pc_start trace) (clk_start trace) 0"

text \<open>The implementation of the trait \<open>MinimalTrace\<close>, as the chunk that its methods describe.\<close>

definition spliced_trace :: "SplicedMinimalTrace \<Rightarrow> TraceChunk" where
  "spliced_trace t = \<lparr>start_registers = spl_start_registers t, pc_start = spl_start_pc t, clk_start = spl_start_clk t,
     clk_end = spl_last_clk t, mem_reads = drop (spl_memory_reads_idx t) (mem_reads (spl_inner t))\<rparr>"

text \<open>The chunk as which the trace is serialized, and its bytes. A negative length wraps around and fails the
  assertion of \<open>to_bincode\<close>.\<close>

definition spliced_reads :: "SplicedMinimalTrace \<Rightarrow> MemValue list" where
  "spliced_reads t = take (spl_last_mem_reads_idx t - spl_memory_reads_idx t) (mem_reads (spliced_trace t))"

definition spliced_serialize :: "SplicedMinimalTrace \<Rightarrow> TraceChunk" where
  "spliced_serialize t = (spliced_trace t)\<lparr>mem_reads := spliced_reads t\<rparr>"

definition spliced_to_bincode :: "SplicedMinimalTrace \<Rightarrow> u8 list option" where
  "spliced_to_bincode t = do {
     assert_that (spl_memory_reads_idx t \<le> spl_last_mem_reads_idx t \<and>
       spl_last_mem_reads_idx t - spl_memory_reads_idx t \<le> length (mem_reads (spliced_trace t)));
     Some (encode_bincode (spl_start_registers t) (spl_start_pc t) (spl_start_clk t) (spl_last_clk t) (spliced_reads t))
   }"

definition splice :: "SplicingVM \<Rightarrow> TraceChunk \<Rightarrow> SplicedMinimalTrace option" where
  "splice vm trace = (
     let c = sp_core vm
     in if is_trace_end c \<or> core_is_done c then None
        else Some (spliced_new trace (\<lambda>i. mr_value (c_registers c i)) (c_pc c) (c_clk c)
               (length (mem_reads trace) - length (c_mem_reads c))))"

subsection \<open>The core VM inside\<close>

text \<open>
  \<open>follows f m k\<close>: the machine computes \<open>m\<close> and its core VM, seen through \<open>f\<close>, computes \<open>k\<close>, unless the machine
  panics where the core VM does not.
\<close>

definition follows :: "('a \<Rightarrow> 'b) \<Rightarrow> ('e, 'a) outcome \<Rightarrow> ('e, 'b) outcome \<Rightarrow> bool" where
  "follows f m k \<longleftrightarrow> (case m of Panic \<Rightarrow> True | Err err \<Rightarrow> k = Err err | Ok x \<Rightarrow> k = Ok (f x))"

lemma follows_simps [simp]:
  "follows f Panic k" "follows f (Err err) k \<longleftrightarrow> k = Err err" "follows f (Ok x) k \<longleftrightarrow> k = Ok (f x)"
  by (simp_all add: follows_def)

lemma and_then_Ok: "and_then k Ok = k"
  by (cases k) simp_all

lemma follows_bind:
  assumes "follows f m k" "\<And>x. m = Ok x \<Longrightarrow> follows g (F x) (G (f x))"
  shows "follows g (and_then m F) (and_then k G)"
  using assms by (cases m) simp_all

lemma follows_same:
  assumes "\<And>x. m = Ok x \<Longrightarrow> follows g (F x) (G x)"
  shows "follows g (and_then m F) (and_then m G)"
  using assms by (cases m) simp_all

lemma follows_observe:
  assumes "\<And>x. m = Some x \<Longrightarrow> follows g (F x) k"
  shows "follows g (and_then (unwrap m) F) k"
  using assms by (cases m) (simp_all add: unwrap_def)

lemma follows_observed:
  assumes "\<And>x. m = Some x \<Longrightarrow> k = Ok (f x)"
  shows "follows f (unwrap m) k"
  using assms by (cases m) (simp_all add: unwrap_def)

lemma observe_core:
  "touch_address vm a = Some vm' \<Longrightarrow> sp_core vm' = sp_core vm"
  "touch_page vm i = Some vm' \<Longrightarrow> sp_core vm' = sp_core vm"
  "splicing_mem_event vm a t = Some vm' \<Longrightarrow> sp_core vm' = sp_core vm"
  "count_syscall vm code = Some vm' \<Longrightarrow> sp_core vm' = sp_core vm"
  by (auto simp: touch_address_def touch_page_def splicing_mem_event_def count_syscall_def split: Option.bind_splits)

lemma page_prot_event_core: "splicing_page_prot_event vm i t = Some vm' \<Longrightarrow> sp_core vm' = sp_core vm"
  by (auto simp: splicing_page_prot_event_def dest: observe_core)

lemma fetched_core: "splicing_fetched vm f = Some (n, vm') \<Longrightarrow> sp_core vm' = sp_core vm"
  by (auto simp: splicing_fetched_def Let_def split: option.splits Option.bind_splits
      dest!: observe_core page_prot_event_core)

lemma accessed_core: "sp_core vm = c \<Longrightarrow> follows sp_core (splicing_accessed vm a t) (Ok c)"
  unfolding splicing_accessed_def
  by (rule follows_observed) (auto split: Option.bind_splits dest!: observe_core)

lemma accessed_page_core: "sp_core vm = c \<Longrightarrow> follows sp_core (splicing_accessed_page vm r) (Ok c)"
  by (auto simp: splicing_accessed_page_def intro!: follows_observed dest!: page_prot_event_core split: option.splits)

lemma handle_error_core:
  "follows sp_core (splicing_handle_error vm err) (and_then (core_handle_error (sp_core vm) err) (\<lambda>(_, c). Ok c))"
  unfolding splicing_handle_error_def
  by (rule follows_same) (auto simp: Let_def intro!: follows_observed split: Option.bind_splits dest!: observe_core)

lemma only_core: "follows sp_core (splicing_only vm m) (core_only m)"
  unfolding splicing_only_def core_only_def by (rule follows_same) auto

lemma load_store_supervisor_core:
  "follows sp_core (splicing_execute_load_supervisor vm i)
    (and_then (core_execute_load_supervisor (sp_core vm) i) (\<lambda>(_, c). Ok c))"
  "follows sp_core (splicing_execute_store_supervisor vm i)
    (and_then (core_execute_store_supervisor (sp_core vm) i) (\<lambda>(_, c). Ok c))"
  unfolding splicing_execute_load_supervisor_def splicing_execute_store_supervisor_def
  by (rule follows_same; auto intro!: accessed_core)+

lemma trap_or_access_core:
  assumes "sp_core vm = c"
  shows "follows sp_core
    (and_then (case err of Some err \<Rightarrow> splicing_trap_mem vm err | None \<Rightarrow> splicing_accessed vm a t) (\<lambda>vm1. splicing_accessed_page vm1 r))
    (core_trap c err)"
proof -
  have "follows sp_core (case err of Some err \<Rightarrow> splicing_trap_mem vm err | None \<Rightarrow> splicing_accessed vm a t) (core_trap c err)"
  proof (cases err)
    case (Some e)
    then show ?thesis
      using assms handle_error_core [of vm e] unfolding splicing_trap_mem_def core_trap_def
      by (cases "splicing_handle_error vm e") simp_all
  qed (use assms in \<open>simp add: core_trap_def accessed_core\<close>)
  then have "follows sp_core
    (and_then (case err of Some err \<Rightarrow> splicing_trap_mem vm err | None \<Rightarrow> splicing_accessed vm a t) (\<lambda>vm1. splicing_accessed_page vm1 r))
    (and_then (core_trap c err) Ok)"
    by (rule follows_bind) (rule accessed_page_core, simp)
  then show ?thesis
    by (simp only: and_then_Ok)
qed

lemma load_store_user_core:
  "follows sp_core (splicing_execute_load_user e vm i)
    (and_then (core_execute_load_user e (sp_core vm) i) (\<lambda>(r, c). core_trap c (ld_error r)))"
  "follows sp_core (splicing_execute_store_user e vm i)
    (and_then (core_execute_store_user e (sp_core vm) i) (\<lambda>(r, c). core_trap c (st_error r)))"
  unfolding splicing_execute_load_user_def splicing_execute_store_user_def
  by (rule follows_same; auto intro!: trap_or_access_core)+

lemma splicing_ecall_core: "follows sp_core (splicing_execute_ecall e vm i) (core_ecall e (sp_core vm) i)"
proof -
  let ?m = "do {
      code \<leftarrow> read_code (sp_core vm);
      vm1 \<leftarrow> count_syscall vm code;
      (result, vm2) \<leftarrow> core_execute_ecall e (splicing_runtime e) vm1 i;
      assert_that (\<not> sp_panicked vm2);
      Some (result, vm2)
    }"
  have "follows (apsnd sp_core) (unwrap ?m) (unwrap (core_execute_ecall e (core_runtime e) (sp_core vm) i))"
  proof (rule follows_observed)
    fix x
    assume x: "?m = Some x"
    then obtain code vm1 where vm1: "count_syscall vm code = Some vm1" "core_execute_ecall e (splicing_runtime e) vm1 i = Some x"
      by (auto simp: assert_that_def split: Option.bind_splits if_splits)
    have "proj sp_core (core_execute_ecall e (splicing_runtime e) vm1 i) = core_execute_ecall e (core_runtime e) (sp_core vm) i"
      using splicing_machine.execute_ecall_core [of e vm1 i] observe_core(4) [OF vm1(1)] by (simp add: splicing_runtime_def)
    then have "core_execute_ecall e (core_runtime e) (sp_core vm) i = Some (apsnd sp_core x)"
      using vm1(2) by (cases x) simp
    then show "unwrap (core_execute_ecall e (core_runtime e) (sp_core vm) i) = Ok (apsnd sp_core x)"
      by simp
  qed
  then show ?thesis
    unfolding splicing_execute_ecall_def core_ecall_def
  proof (rule follows_bind)
    fix x :: "EcallResult \<times> SplicingVM"
    obtain result vm2 where x: "x = (result, vm2)"
      by (cases x)
    define vm3 where "vm3 = vm2\<lparr>sp_shape_checker := shape_set_syscall_sent (sp_shape_checker vm2) False\<rparr>"
    have "follows sp_core (case ec_error result of Some err \<Rightarrow> splicing_handle_error vm3 err | None \<Rightarrow> Ok vm3)
        (core_trap (sp_core vm2) (ec_error result))"
      using handle_error_core [of vm3] by (cases "ec_error result") (simp_all add: core_trap_def vm3_def)
    then have "follows sp_core
      (and_then (case ec_error result of Some err \<Rightarrow> splicing_handle_error vm3 err | None \<Rightarrow> Ok vm3) (\<lambda>vm4.
         and_then (case ec_sig_return_pc_record result of
             Some record \<Rightarrow> unwrap (splicing_mem_event vm4 (ec_b result) (rd_prev_timestamp record))
           | None \<Rightarrow> Ok vm4) (\<lambda>vm5.
         Ok (vm5\<lparr>sp_shape_checker := shape_set_syscall_sent (sp_shape_checker vm5) (sh_syscall_sent (sp_shape_checker vm2))\<rparr>))))
      (and_then (core_trap (sp_core vm2) (ec_error result)) Ok)"
      by (rule follows_bind) (auto intro!: follows_observe dest: observe_core split: option.splits)
    then show "follows sp_core
      (case x of (result, vm2) \<Rightarrow> let syscall_sent = sh_syscall_sent (sp_shape_checker vm2);
          vm3 = vm2\<lparr>sp_shape_checker := shape_set_syscall_sent (sp_shape_checker vm2) False\<rparr>
        in and_then (case ec_error result of Some err \<Rightarrow> splicing_handle_error vm3 err | None \<Rightarrow> Ok vm3) (\<lambda>vm4.
         and_then (case ec_sig_return_pc_record result of
             Some record \<Rightarrow> unwrap (splicing_mem_event vm4 (ec_b result) (rd_prev_timestamp record))
           | None \<Rightarrow> Ok vm4) (\<lambda>vm5.
         Ok (vm5\<lparr>sp_shape_checker := shape_set_syscall_sent (sp_shape_checker vm5) syscall_sent\<rparr>))))
      (case apsnd sp_core x of (result, c1) \<Rightarrow> core_trap c1 (ec_error result))"
      by (simp only: x apsnd_conv prod.case Let_def and_then_Ok vm3_def)
  qed
qed

lemma instruction_supervisor_core:
  "follows sp_core (match_opcode (opcode i)
      (splicing_only vm (core_execute_alu (sp_core vm) i))
      (splicing_execute_load_supervisor vm i)
      (splicing_execute_store_supervisor vm i)
      (splicing_only vm (core_execute_jump (sp_core vm) i))
      (splicing_only vm (core_execute_branch (sp_core vm) i))
      (splicing_only vm (core_execute_utype (sp_core vm) i))
      (splicing_execute_ecall e vm i)
      Panic) (core_instruction_supervisor e (sp_core vm) i)"
  unfolding core_instruction_supervisor_def match_opcode_cases
  by (simp add: only_core load_store_supervisor_core splicing_ecall_core)

lemma instruction_user_core:
  "follows sp_core (match_opcode (opcode i)
      (splicing_only vm (core_execute_alu (sp_core vm) i))
      (splicing_execute_load_user e vm i)
      (splicing_execute_store_user e vm i)
      (splicing_only vm (core_execute_jump (sp_core vm) i))
      (splicing_only vm (core_execute_branch (sp_core vm) i))
      (splicing_only vm (core_execute_utype (sp_core vm) i))
      (splicing_execute_ecall e vm i)
      Panic) (core_instruction_user e (sp_core vm) i)"
  unfolding core_instruction_user_def match_opcode_cases
  by (simp add: only_core load_store_user_core splicing_ecall_core)

lemma advance_core: "apsnd sp_core (splicing_advance vm) = advance (sp_core vm)"
  by (simp add: splicing_advance_def split: prod.splits)

lemma fetch_trap_core:
  "follows (apsnd sp_core) (splicing_fetch_trap vm f err)
    (and_then (core_handle_error (sp_core vm) err) (\<lambda>(_, c2). Ok (advance c2)))"
proof -
  have "follows (apsnd sp_core) (splicing_fetch_trap vm f err)
      (and_then (and_then (core_handle_error (sp_core vm) err) (\<lambda>(_, c). Ok c)) (\<lambda>c. Ok (advance c)))"
    unfolding splicing_fetch_trap_def
    by (rule follows_bind [OF handle_error_core])
      (auto simp: advance_core Let_def intro!: follows_observe split: Option.bind_splits dest: page_prot_event_core)
  then show ?thesis
    by (cases "core_handle_error (sp_core vm) err") (auto split: prod.splits)
qed

lemma splicing_step_core:
  "follows (apsnd sp_core) (splicing_execute_instruction e decode vm) (core_step e decode (sp_core vm))"
proof (cases "c_mode (sp_core vm)")
  case SupervisorMode
  then show ?thesis
    unfolding splicing_execute_instruction_def core_step_def splicing_execute_instruction_supervisor_def
    by (simp only: ExecutionMode.case)
      (intro follows_same follows_bind [OF instruction_supervisor_core] follows_observe, simp add: advance_core)
next
  case UserMode
  show ?thesis
    unfolding splicing_execute_instruction_def core_step_def splicing_execute_instruction_user_def UserMode ExecutionMode.case
  proof (rule follows_same)
    fix x :: "FetchResult \<times> CoreVM"
    obtain f c where x: "x = (f, c)"
      by (cases x)
    have "follows (apsnd sp_core)
       (and_then (unwrap (splicing_fetched (vm\<lparr>sp_core := c\<rparr>) f)) F)
       k" if "\<And>n vm1. sp_core vm1 = c \<Longrightarrow> follows (apsnd sp_core) (F (n, vm1)) k" for F k
      using that by (intro follows_observe) (auto dest: fetched_core)
    note fetched = this
    have body: "follows (apsnd sp_core)
        (and_then (match_opcode (opcode instruction)
          (splicing_only vm1 (core_execute_alu (sp_core vm1) instruction))
          (splicing_execute_load_user e vm1 instruction)
          (splicing_execute_store_user e vm1 instruction)
          (splicing_only vm1 (core_execute_jump (sp_core vm1) instruction))
          (splicing_only vm1 (core_execute_branch (sp_core vm1) instruction))
          (splicing_only vm1 (core_execute_utype (sp_core vm1) instruction))
          (splicing_execute_ecall e vm1 instruction)
          Panic) (\<lambda>vm2.
        and_then (unwrap (S vm2)) (\<lambda>sc. Ok (splicing_advance (vm2\<lparr>sp_shape_checker := sc\<rparr>)))))
        (and_then (core_instruction_user e c instruction) (\<lambda>c2. Ok (advance c2)))" if "sp_core vm1 = c" for vm1 instruction S
      unfolding that [symmetric]
      by (rule follows_bind [OF instruction_user_core], rule follows_observe) (simp add: advance_core)
    show "follows (apsnd sp_core)
       (case x of (f, c) \<Rightarrow> let vm0 = vm\<lparr>sp_core := c\<rparr>
        in case fetch_error f of
            Some err \<Rightarrow> splicing_fetch_trap vm0 f err
          | None \<Rightarrow>
              and_then (unwrap (fetch_instruction f)) (\<lambda>instruction.
              and_then (unwrap (splicing_fetched vm0 f)) (\<lambda>(fetch_accesses, vm1).
              and_then (match_opcode (opcode instruction)
                (splicing_only vm1 (core_execute_alu (sp_core vm1) instruction))
                (splicing_execute_load_user e vm1 instruction)
                (splicing_execute_store_user e vm1 instruction)
                (splicing_only vm1 (core_execute_jump (sp_core vm1) instruction))
                (splicing_only vm1 (core_execute_branch (sp_core vm1) instruction))
                (splicing_only vm1 (core_execute_utype (sp_core vm1) instruction))
                (splicing_execute_ecall e vm1 instruction)
                Panic) (\<lambda>vm2.
              and_then (unwrap (shape_instruction_user (sp_shape_checker vm2) instruction
                  (needs_bump_clk_high (sp_core vm2))
                  (is_alu_instruction instruction \<and> op_a instruction = 0)
                  (is_memory_load_instruction instruction \<and> op_a instruction = 0)
                  (needs_state_bump (sp_core vm2) instruction)
                  (if is_memory_load_instruction instruction \<or> is_memory_store_instruction instruction
                   then fetch_accesses + 1 else fetch_accesses))) (\<lambda>sc.
              Ok (splicing_advance (vm2\<lparr>sp_shape_checker := sc\<rparr>)))))))
       (case x of (f, c1) \<Rightarrow> case fetch_error f of
          Some err \<Rightarrow> and_then (core_handle_error c1 err) (\<lambda>(_, c2). Ok (advance c2))
        | None \<Rightarrow>
            and_then (unwrap (fetch_instruction f)) (\<lambda>instruction.
            and_then (core_instruction_user e c1 instruction) (\<lambda>c2. Ok (advance c2))))"
    proof (cases "fetch_error f")
      case None
      then show ?thesis
        unfolding x Let_def prod.case None option.case
        by (intro follows_same fetched) (subst prod.case, erule body)
    next
      case (Some err)
      then show ?thesis
        using fetch_trap_core [of "vm\<lparr>sp_core := c\<rparr>" f err] by (simp add: x Let_def)
    qed
  qed
qed

end
