(* ===== verification/Shards.thy ===== *)
theory Shards
  imports Replay_Path Splicing_VM
begin

text \<open>
  Cutting a chunk into shards: \<open>splice_chunk_sequential\<close> of \<open>crates/core/machine/src/utils/prove.rs\<close>, which runs
  the splicing VM over a chunk and returns one spliced trace for each shard.

  The theorem composes the executors: the chunk that the minimal executor recorded is cut into shards that
  follow each other, share out the recorded reads, and can each be replayed by a core VM that has the spliced
  trace and nothing else, from the state where the shard before it ends.
\<close>

subsection \<open>The loop over the shards\<close>

definition splicing_enum_new ::
    "TraceChunk \<Rightarrow> Program \<Rightarrow> CompressedMemory \<Rightarrow> CompressedPages \<Rightarrow> SyscallCode list \<Rightarrow> ShardingThreshold \<Rightarrow> SplicingVM option" where
  "splicing_enum_new trace program addrs pages retained thr =
    splicing_new (if enable_untrusted_programs program then UserMode else SupervisorMode) trace program addrs pages retained thr"

definition set_last :: "SplicedMinimalTrace \<Rightarrow> u64 \<Rightarrow> nat \<Rightarrow> SplicedMinimalTrace" where
  "set_last t clock idx = t\<lparr>spl_last_clk := clock, spl_last_mem_reads_idx := idx\<rparr>"

text \<open>The loop of \<open>splice_chunk_sequential\<close>; \<open>n\<close> bounds the number of shards and \<open>fuel\<close> the instructions of each.\<close>

fun splice_loop :: "elf_abi \<Rightarrow> (u32 \<Rightarrow> Instruction option) \<Rightarrow> nat \<Rightarrow> nat \<Rightarrow> TraceChunk \<Rightarrow> SplicingVM \<Rightarrow> SplicedMinimalTrace \<Rightarrow>
    (ExecutionError, (bool \<times> SplicedMinimalTrace) list \<times> SplicingVM) outcome option" where
  "splice_loop e decode fuel 0 chunk vm last_splice = None"
| "splice_loop e decode fuel (Suc n) chunk vm last_splice = (case splicing_execute e decode fuel vm of
      None \<Rightarrow> None
    | Some Panic \<Rightarrow> Some Panic
    | Some (Err err) \<Rightarrow> Some (Err err)
    | Some (Ok (ShardBoundary, vm1)) \<Rightarrow>
        let last_splice1 = set_last last_splice (c_clk (sp_core vm1)) (length (mem_reads chunk) - length (c_mem_reads (sp_core vm1)))
        in (case splice vm1 chunk of
            Some spliced \<Rightarrow>
              map_option (\<lambda>r. and_then r (\<lambda>(result, vm2). Ok ((False, last_splice1) # result, vm2)))
                (splice_loop e decode fuel n chunk vm1 spliced)
          | None \<Rightarrow> Some (Ok ([(True, last_splice1)], vm1)))
    | Some (Ok (Done True, vm1)) \<Rightarrow>
        Some (Ok ([(True, set_last last_splice (c_clk (sp_core vm1)) (length (mem_reads chunk)))], vm1))
    | Some (Ok (_, vm1)) \<Rightarrow> Some Panic)"

definition splice_chunk_sequential :: "elf_abi \<Rightarrow> (u32 \<Rightarrow> Instruction option) \<Rightarrow> nat \<Rightarrow> Program \<Rightarrow> TraceChunk \<Rightarrow>
    SyscallCode list \<Rightarrow> ShardingThreshold \<Rightarrow> u64 set \<Rightarrow> u64 set \<Rightarrow>
    (ExecutionError, (bool \<times> SplicedMinimalTrace) list \<times> u64 set \<times> u64 set) outcome option" where
  "splice_chunk_sequential e decode fuel program chunk retained thr addrs pages =
    (case splicing_enum_new chunk program cm_new cp_new retained thr of
      None \<Rightarrow> Some Panic
    | Some vm \<Rightarrow>
        map_option (\<lambda>r. and_then r (\<lambda>(result, vm1). unwrap (do {
          as \<leftarrow> cm_is_set (sp_touched_addresses vm1);
          ps \<leftarrow> cp_is_set (sp_touched_pages vm1);
          Some (result, addrs \<union> set as, pages \<union> set ps)
        }))) (splice_loop e decode fuel fuel chunk vm (new_full_trace chunk)))"

subsection \<open>What a list of shards should be\<close>

text \<open>A core VM created from the serialized trace of a shard runs to its end, uses all its reads, and stops with
  the given program counter, clock and registers.\<close>

definition shard_replays :: "externs \<Rightarrow> nat \<Rightarrow> ExecutionMode \<Rightarrow> Program \<Rightarrow> SyscallCode list \<Rightarrow> SplicedMinimalTrace \<Rightarrow>
    u64 \<times> u64 \<times> (nat \<Rightarrow> u64) \<Rightarrow> bool" where
  "shard_replays E fuel mode program retained x stop \<longleftrightarrow>
    (case core_new mode (spliced_serialize x) program retained of None \<Rightarrow> False | Some c \<Rightarrow>
      (case core_loop (abi E) (process_instruction E) fuel c of
        Some (Ok (r, c2)) \<Rightarrow> r \<in> {TraceEnd, Done True} \<and> c_mem_reads c2 = [] \<and> c_pc c2 = fst stop \<and> c_clk c2 = fst (snd stop) \<and>
          (\<forall>i \<in> set [0..<32]. mr_value (c_registers c2 i) = snd (snd stop) i)
      | _ \<Rightarrow> False))"

definition shard_start :: "SplicedMinimalTrace \<Rightarrow> u64 \<times> u64 \<times> (nat \<Rightarrow> u64)" where
  "shard_start x = (spl_start_pc x, spl_start_clk x, spl_start_registers x)"

text \<open>Each shard ends where the next one starts, and the last one, which is marked, where the chunk ends.\<close>

primrec shard_chain :: "externs \<Rightarrow> nat \<Rightarrow> ExecutionMode \<Rightarrow> Program \<Rightarrow> SyscallCode list \<Rightarrow> u64 \<times> u64 \<times> (nat \<Rightarrow> u64) \<Rightarrow>
    (bool \<times> SplicedMinimalTrace) list \<Rightarrow> bool" where
  "shard_chain E fuel mode program retained stop [] \<longleftrightarrow> False"
| "shard_chain E fuel mode program retained stop (x # xs) \<longleftrightarrow>
    (fst x \<longleftrightarrow> xs = []) \<and>
    shard_replays E fuel mode program retained (snd x) (case xs of [] \<Rightarrow> stop | y # _ \<Rightarrow> shard_start (snd y)) \<and>
    (xs = [] \<or> shard_chain E fuel mode program retained stop xs)"

subsection \<open>The splicing VM on a path\<close>

lemma bump_registers_values:
  "\<exists>f. snd (bump_registers c is) = c\<lparr>c_registers := f\<rparr> \<and> (\<forall>i. mr_value (f i) = mr_value (c_registers c i))"
proof (induction "is" arbitrary: c)
  case Nil
  show ?case by (intro exI [of _ "c_registers c"]) simp
next
  case (Cons i "is")
  obtain r c1 where b: "bump_register c i = (r, c1)"
    by (cases "bump_register c i")
  then have c1: "c1 = c\<lparr>c_registers := (c_registers c)(i := \<lparr>mr_timestamp = c_clk c - 1, mr_value = mr_value (c_registers c i)\<rparr>)\<rparr>"
    by (simp add: bump_register_def Let_def)
  from Cons [of c1] obtain f where "snd (bump_registers c1 is) = c1\<lparr>c_registers := f\<rparr>"
    "\<forall>i. mr_value (f i) = mr_value (c_registers c1 i)"
    by blast
  then show ?case
    by (intro exI [of _ f]) (auto simp: b c1 split: prod.splits)
qed

lemma boundary_refresh: "boundary K s c \<Longrightarrow> boundary K s (snd (register_refresh c))"
proof -
  obtain f where f: "snd (register_refresh c) = c\<lparr>c_registers := f\<rparr>" "\<forall>i. mr_value (f i) = mr_value (c_registers c i)"
    using bump_registers_values unfolding register_refresh_def by blast
  assume "boundary K s c"
  then show ?thesis
    unfolding f(1) using f(2) by (auto simp: boundary_def agrees_def)
qed

text \<open>Where the splicing VM may stop on a path: at its end, after the program has halted, or at a state of the
  path where it has not.\<close>

definition stops_on :: "replay \<Rightarrow> MinimalExecutor \<Rightarrow> MinimalExecutor list \<Rightarrow> CycleResult \<Rightarrow> SplicingVM \<Rightarrow> bool" where
  "stops_on K s ts result vm \<longleftrightarrow> (\<exists>ys zs. ts = ys @ zs \<and> ys \<noteq> [] \<and> boundary K (path_end s ys) (sp_core vm) \<and>
    (zs = [] \<and> m_pc (path_end s ts) = HALT_PC \<and> result = Done True \<or>
     m_pc (path_end s ys) \<noteq> HALT_PC \<and> result = ShardBoundary))"

lemma stops_on_first:
  assumes "boundary K t (sp_core vm)"
    "m_pc t = HALT_PC \<and> ts = [] \<and> result = Done True \<or> m_pc t \<noteq> HALT_PC \<and> result = ShardBoundary"
  shows "stops_on K s (t # ts) result vm"
  using assms unfolding stops_on_def by (intro exI [of _ "[t]"] exI [of _ ts]) auto

lemma stops_on_later: "stops_on K t ts result vm \<Longrightarrow> stops_on K s (t # ts) result vm"
proof -
  assume "stops_on K t ts result vm"
  then obtain ys zs where "ts = ys @ zs" "boundary K (path_end t ys) (sp_core vm)"
    "zs = [] \<and> m_pc (path_end t ts) = HALT_PC \<and> result = Done True \<or> m_pc (path_end t ys) \<noteq> HALT_PC \<and> result = ShardBoundary"
    unfolding stops_on_def by blast
  then show ?thesis
    unfolding stops_on_def by (intro exI [of _ "t # ys"] exI [of _ zs]) simp
qed

lemma splicing_on_path:
  assumes "boundary_path E s ts" "ts \<noteq> []" "boundary K s (sp_core vm)" "decoder K = process_instruction E"
    "prefix (trace_reads (path_end s ts)) (chunk_reads K)" "end_clk K = m_clk (path_end s ts)"
    "unat (m_clk s) + 264 * length ts < 2 ^ 64" "length ts \<le> fuel"
  shows "\<exists>r. splicing_loop (abi E) (process_instruction E) fuel vm = Some r \<and>
    (\<forall>res vm'. r = Ok (res, vm') \<longrightarrow> stops_on K s ts res vm')"
  using assms
proof (induction ts arbitrary: s vm fuel)
  case (Cons t ts)
  then obtain fuel' where fuel: "fuel = Suc fuel'"
    by (cases fuel) auto
  let ?z = "path_end t ts"
  have adv: "advances E s t" and path: "boundary_path E t ts"
    using Cons.prems(1) by simp_all
  have "prefix (trace_reads t) (chunk_reads K)"
    using path_reads [OF path] Cons.prems(5) by (auto intro: prefix_order.trans)
  with adv Cons.prems(3,4) obtain c1 where c1: "core_step (abi E) (process_instruction E) (sp_core vm) = Ok (advance c1)"
    "boundary K t (snd (advance c1))" "m_clk t \<in> {m_clk s + 8, m_clk s + 264}"
    unfolding advances_def by blast
  note clk = clk_grows [of "m_clk t" "m_clk s" "length ts", OF c1(3)]
  have t: "c_pc (snd (advance c1)) = m_pc t" "c_clk (snd (advance c1)) = m_clk t" "c_clk_end (snd (advance c1)) = m_clk ?z"
    using boundary_constrained [OF c1(2)] Cons.prems(6) by simp_all
  have res: "fst (advance c1) = (if m_pc t = HALT_PC then Done True else if m_clk t = m_clk ?z then TraceEnd else Done False)"
    using t by (auto simp: advance_def is_trace_end_def Let_def)
  have halted: "ts = []" if "m_pc t = HALT_PC"
    using that path by (cases ts) (simp_all add: advances_def)
  show ?case
  proof (cases "splicing_execute_instruction (abi E) (process_instruction E) vm")
    case Panic
    then show ?thesis by (simp add: fuel)
  next
    case (Err err)
    with splicing_step_core [of "abi E" "process_instruction E" vm] c1(1) show ?thesis by simp
  next
    case (Ok x)
    obtain result vm1 where x: "x = (result, vm1)"
      by (cases x)
    have vm1: "result = fst (advance c1)" "sp_core vm1 = snd (advance c1)"
      using splicing_step_core [of "abi E" "process_instruction E" vm] Ok c1(1) x by (cases "advance c1"; simp)+
    have b1: "boundary K t (sp_core vm1)" "boundary K t (sp_core (start_new_shard vm1))"
      using c1(2) boundary_refresh [of K t] by (simp_all add: vm1 start_new_shard_def)
    have cut: "stops_on K s (t # ts) ShardBoundary (start_new_shard vm1)" if "m_pc t \<noteq> HALT_PC"
      using that b1(2) by (intro stops_on_first) simp_all
    let ?loop = "splicing_loop (abi E) (process_instruction E)"
    have loop: "?loop fuel vm = (if result \<noteq> Done True \<and> check_shard_limit (sp_shape_checker vm1)
        then Some (Ok (ShardBoundary, start_new_shard vm1))
        else if commit_outgrew_halt_room (sp_shape_checker vm1) then Some (Err commit_long_before_halt)
        else if result = Done False then ?loop fuel' vm1
        else if result = Done True then Some (Ok (Done True, vm1)) else Some (Ok (ShardBoundary, start_new_shard vm1)))"
      using Ok x by (simp add: fuel split: CycleResult.split bool.split)
    consider "m_pc t = HALT_PC" "result = Done True" | "m_pc t \<noteq> HALT_PC" "result = TraceEnd"
      | "m_pc t \<noteq> HALT_PC" "m_clk t \<noteq> m_clk ?z" "result = Done False"
      using vm1(1) res by (auto split: if_splits)
    then show ?thesis
    proof cases
      case 1
      then have "stops_on K s (t # ts) (Done True) vm1"
        using b1(1) halted by (intro stops_on_first) simp_all
      with 1 show ?thesis
        unfolding loop by simp
    next
      case 2
      with cut show ?thesis
        unfolding loop by simp
    next
      case 3
      then have "ts \<noteq> []"
        by auto
      from Cons.IH [OF path this b1(1) Cons.prems(4), of fuel'] Cons.prems(5-8) clk fuel obtain r where
        r: "?loop fuel' vm1 = Some r" "\<And>res vm'. r = Ok (res, vm') \<Longrightarrow> stops_on K t ts res vm'"
        by auto
      have "stops_on K s (t # ts) res vm'" if "r = Ok (res, vm')" for res vm'
        by (rule stops_on_later [OF r(2) [OF that]])
      with 3 cut r(1) show ?thesis
        unfolding loop by simp
    qed
  qed
qed simp

subsection \<open>A fresh core VM on a shard\<close>

text \<open>The replay of the shard from \<open>s\<close> to \<open>z\<close>.\<close>

definition shard_replay :: "replay \<Rightarrow> MinimalExecutor \<Rightarrow> MinimalExecutor \<Rightarrow> replay" where
  "shard_replay K s z = K\<lparr>chunk_reads := trace_reads z, end_clk := m_clk z,
     digest_words := {i. m_public_value_digest s i = 0}, exit_known := (m_exit_code s = 0)\<rparr>"

definition shard_from :: "TraceChunk \<Rightarrow> MinimalExecutor \<Rightarrow> SplicedMinimalTrace \<Rightarrow> bool" where
  "shard_from chunk s x \<longleftrightarrow> spl_inner x = chunk \<and> spl_start_pc x = m_pc s \<and> spl_start_clk x = m_clk s \<and>
    (\<forall>i < 32. spl_start_registers x i = m_registers s i) \<and> spl_memory_reads_idx x = length (trace_reads s)"

definition shard_to :: "MinimalExecutor \<Rightarrow> SplicedMinimalTrace \<Rightarrow> bool" where
  "shard_to z x \<longleftrightarrow> spl_last_clk x = m_clk z \<and> spl_last_mem_reads_idx x = length (trace_reads z)"

lemma shard_reads:
  assumes "shard_from chunk s x" "shard_to z x" "prefix (trace_reads s) (trace_reads z)" "prefix (trace_reads z) (mem_reads chunk)"
  shows "trace_reads s @ spliced_reads x = trace_reads z"
proof -
  obtain r where r: "trace_reads z = trace_reads s @ r"
    using assms(3) by (auto elim: prefixE)
  obtain q where "mem_reads chunk = trace_reads z @ q"
    using assms(4) by (auto elim: prefixE)
  with r assms(1,2) show ?thesis
    by (simp add: spliced_reads_def spliced_trace_def shard_from_def shard_to_def)
qed

lemma fresh_boundary:
  assumes "boundary K s c" "shard_from chunk s x" "shard_to z x" "prefix (trace_reads s) (trace_reads z)"
    "prefix (trace_reads z) (mem_reads chunk)" "m_clk s = 1 \<longrightarrow> m_pc s = pc_start_abs (m_program s)"
  obtains c' where "core_new (replay_mode K) (spliced_serialize x) (m_program s) retained = Some c'"
    "boundary (shard_replay K s z) s c'"
proof -
  have reads: "trace_reads s @ spliced_reads x = trace_reads z"
    by (rule shard_reads [OF assms(2-5)])
  obtain n where ag: "agrees K n (m_pc s + PC_INC, m_clk s + CLK_INC) s c" and x0: "m_registers s 0 = 0"
    using assms(1) by (auto simp: boundary_def)
  let ?c = "\<lparr>c_registers = (\<lambda>i. \<lparr>mr_timestamp = m_clk s - 1, mr_value = spl_start_registers x i\<rparr>),
       c_clk = m_clk s, c_global_clk = 0, c_pc = m_pc s, c_exit_code = 0,
       c_mem_reads = spliced_reads x, c_next_pc = m_pc s + PC_INC,
       c_next_clk = m_clk s + CLK_INC, c_program = m_program s, c_retained_syscall_codes = retained,
       c_clk_end = m_clk z, c_public_value_digest = (\<lambda>_. 0),
       c_decoded_instruction_cache = Map.empty, c_mode = replay_mode K\<rparr>"
  have "core_new (replay_mode K) (spliced_serialize x) (m_program s) retained = Some ?c"
    using assms(2,3,6) by (simp add: core_new_def spliced_serialize_def spliced_trace_def shard_from_def shard_to_def Let_def)
  moreover have "boundary (shard_replay K s z) s ?c"
    using ag x0 reads assms(2) unfolding boundary_def
    by (auto simp: agrees_def shard_replay_def shard_from_def)
  ultimately show ?thesis
    by (rule that)
qed

lemma shard_replays_path:
  assumes path: "boundary_path E s ts" "ts \<noteq> []" and b: "boundary K s c" and dec: "decoder K = process_instruction E"
    and x: "shard_from chunk s x" "shard_to (path_end s ts) x" "prefix (trace_reads (path_end s ts)) (mem_reads chunk)"
    and clk: "unat (m_clk s) + 264 * length ts < 2 ^ 64" "length ts \<le> fuel"
    and start: "m_clk s = 1 \<longrightarrow> m_pc s = pc_start_abs (m_program s)"
    and stop: "fst stop = m_pc (path_end s ts)" "fst (snd stop) = m_clk (path_end s ts)"
      "\<forall>i < 32. snd (snd stop) i = m_registers (path_end s ts) i"
  shows "shard_replays E fuel (replay_mode K) (m_program s) retained x stop"
proof -
  let ?z = "path_end s ts"
  let ?K = "shard_replay K s ?z"
  obtain c' where c': "core_new (replay_mode K) (spliced_serialize x) (m_program s) retained = Some c'" "boundary ?K s c'"
    by (rule fresh_boundary [OF b x(1,2) path_reads [OF path(1)] x(3) start])
  have K: "decoder ?K = process_instruction E" "prefix (trace_reads ?z) (chunk_reads ?K)" "end_clk ?K = m_clk ?z"
    using dec by (simp_all add: shard_replay_def)
  from path_core_loop [OF path c'(2) K(1,2) clk(1) K(3)] obtain c2 where
    c2: "core_loop (abi E) (process_instruction E) (length ts) c' =
      Some (Ok (if m_pc ?z = HALT_PC then Done True else TraceEnd, c2))" "boundary ?K ?z c2"
    by blast
  have loop: "core_loop (abi E) (process_instruction E) fuel c' = Some (Ok (if m_pc ?z = HALT_PC then Done True else TraceEnd, c2))"
    using core_loop_more_fuel [OF c2(1), of "fuel - length ts"] clk(2) by simp
  have "mr_value (c_registers c2 i) = m_registers ?z i" if "i < 32" for i
    using that c2(2) by (cases "i = 0") (auto simp: boundary_def agrees_def)
  moreover have "c_mem_reads c2 = []" "c_pc c2 = m_pc ?z" "c_clk c2 = m_clk ?z"
    using c2(2) by (auto simp: boundary_def agrees_def shard_replay_def)
  ultimately show ?thesis
    unfolding shard_replays_def c'(1) option.case loop using stop by (auto simp del: upt_rec_numeral)
qed

subsection \<open>All shards of a chunk\<close>

lemma shard_index:
  assumes "boundary K y (sp_core vm)" "chunk_reads K = mem_reads chunk"
  shows "length (mem_reads chunk) - length (c_mem_reads (sp_core vm)) = length (trace_reads y)"
proof -
  have "mem_reads chunk = trace_reads y @ c_mem_reads (sp_core vm)"
    using assms by (auto simp: boundary_def agrees_def)
  then show ?thesis
    by simp
qed

lemma splice_at_end: "boundary K y (sp_core vm) \<Longrightarrow> end_clk K = m_clk y \<Longrightarrow> splice vm chunk = None"
  by (auto simp: splice_def is_trace_end_def boundary_def agrees_def Let_def)

lemma splice_before_end:
  assumes "boundary K y (sp_core vm)" "chunk_reads K = mem_reads chunk" "end_clk K \<noteq> m_clk y" "m_pc y \<noteq> HALT_PC"
  shows "\<exists>x. splice vm chunk = Some x \<and> shard_from chunk y x"
proof -
  have "mr_value (c_registers (sp_core vm) i) = m_registers y i" if "i < 32" for i
    using that assms(1) by (cases "i = 0") (auto simp: boundary_def agrees_def)
  moreover have "c_clk_end (sp_core vm) = end_clk K"
    using assms(1) by (auto simp: boundary_def agrees_def)
  ultimately show ?thesis
    using assms(3,4) boundary_constrained [OF assms(1)] shard_index [OF assms(1,2)]
    by (simp add: splice_def is_trace_end_def core_is_done_def shard_from_def spliced_new_def Let_def)
qed

text \<open>What the shards \<open>xs\<close>, cut from \<open>chunk\<close> after the reads \<open>done_reads\<close>, should be if the first of them is begun as \<open>x\<close>.\<close>

definition shards_of :: "externs \<Rightarrow> nat \<Rightarrow> ExecutionMode \<Rightarrow> Program \<Rightarrow> SyscallCode list \<Rightarrow> TraceChunk \<Rightarrow>
    u64 \<times> u64 \<times> (nat \<Rightarrow> u64) \<Rightarrow> MemValue list \<Rightarrow> SplicedMinimalTrace \<Rightarrow> (bool \<times> SplicedMinimalTrace) list \<Rightarrow> bool" where
  "shards_of E fuel mode program retained chunk stop done_reads x xs \<longleftrightarrow>
    shard_chain E fuel mode program retained stop xs \<and> shard_start (snd (hd xs)) = shard_start x \<and>
    done_reads @ concat (map (\<lambda>y. spliced_reads (snd y)) xs) = mem_reads chunk"

lemma shards_of_Cons:
  assumes "shards_of E fuel mode program retained chunk stop (done_reads @ spliced_reads x) x2 xs"
    "shard_replays E fuel mode program retained x (shard_start x2)" "shard_start x = shard_start x0"
  shows "shards_of E fuel mode program retained chunk stop done_reads x0 ((False, x) # xs)"
  using assms by (cases xs) (auto simp: shards_of_def)

lemma splice_loop_shards:
  assumes "boundary_path E s ts" "ts \<noteq> []" "boundary K s (sp_core vm)" "decoder K = process_instruction E"
    "chunk_reads K = mem_reads chunk" "trace_reads (path_end s ts) = mem_reads chunk" "end_clk K = m_clk (path_end s ts)"
    "unat (m_clk s) + 264 * length ts < 2 ^ 64" "length ts \<le> fuel" "length ts \<le> n"
    "shard_from chunk s x" "m_clk s = 1 \<longrightarrow> m_pc s = pc_start_abs (m_program s)"
    "fst stop = m_pc (path_end s ts)" "fst (snd stop) = m_clk (path_end s ts)"
      "\<forall>i < 32. snd (snd stop) i = m_registers (path_end s ts) i"
  shows "\<exists>r. splice_loop (abi E) (process_instruction E) fuel n chunk vm x = Some r \<and>
    (\<forall>xs vm'. r = Ok (xs, vm') \<longrightarrow>
      shards_of E fuel (replay_mode K) (m_program s) retained chunk stop (trace_reads s) x xs)"
  using assms
proof (induction n arbitrary: s ts vm x)
  case 0
  then show ?case by simp
next
  case (Suc n)
  note path = Suc.prems(1,2) and b = Suc.prems(3) and dec = Suc.prems(4) and clk = Suc.prems(8)
  let ?e = "abi E" and ?d = "process_instruction E" and ?z = "path_end s ts"
  have "m_pc s \<noteq> HALT_PC"
    using path by (cases ts) (simp_all add: advances_def)
  then have exec: "splicing_execute ?e ?d fuel vm = splicing_loop ?e ?d fuel vm"
    using boundary_constrained [OF b] by (simp add: splicing_execute_def core_is_done_def)
  have pre: "prefix (trace_reads ?z) (chunk_reads K)"
    using Suc.prems(5,6) by simp
  from splicing_on_path [OF path b dec pre Suc.prems(7) clk Suc.prems(9)] obtain r where
    r: "splicing_loop ?e ?d fuel vm = Some r" "\<And>res vm'. r = Ok (res, vm') \<Longrightarrow> stops_on K s ts res vm'"
    by blast
  show ?case
  proof (cases r)
    case (Ok y)
    obtain res vm1 where y: "y = (res, vm1)"
      by (cases y)
    from r(2) Ok y obtain ys zs where ys: "ts = ys @ zs" "ys \<noteq> []" "boundary K (path_end s ys) (sp_core vm1)"
      and res: "zs = [] \<and> m_pc ?z = HALT_PC \<and> res = Done True \<or> m_pc (path_end s ys) \<noteq> HALT_PC \<and> res = ShardBoundary"
      unfolding stops_on_def by blast
    let ?y = "path_end s ys"
    have zs: "boundary_path E s ys" "boundary_path E ?y zs" "path_end ?y zs = ?z"
      using path(1) ys(1) by (simp_all add: path_append)
    have pre_y: "prefix (trace_reads ?y) (mem_reads chunk)"
      using path_reads [OF zs(2)] zs(3) Suc.prems(6) by simp
    note idx = shard_index [OF ys(3) Suc.prems(5)]
    have clk1: "c_clk (sp_core vm1) = m_clk ?y"
      using boundary_constrained [OF ys(3)] by simp
    define x1 where "x1 = set_last x (m_clk ?y) (length (trace_reads ?y))"
    have x1: "shard_from chunk s x1" "shard_to ?y x1" "shard_start x1 = shard_start x"
      using Suc.prems(11) by (simp_all add: x1_def set_last_def shard_from_def shard_to_def shard_start_def)
    have replay: "shard_replays E fuel (replay_mode K) (m_program s) retained x1 target"
      if "fst target = m_pc ?y" "fst (snd target) = m_clk ?y" "\<forall>i < 32. snd (snd target) i = m_registers ?y i" for target
      using clk ys(1) Suc.prems(9,12) that
      by (intro shard_replays_path [OF zs(1) ys(2) b dec x1(1,2) pre_y]) simp_all
    have reads: "trace_reads s @ spliced_reads x1 = trace_reads ?y"
      by (rule shard_reads [OF x1(1,2) path_reads [OF zs(1)] pre_y])
    show ?thesis
    proof (cases "zs = []")
      case True
      then have end_y: "?y = ?z"
        using zs(3) by simp
      then have "splice vm1 chunk = None"
        using splice_at_end [OF ys(3)] Suc.prems(7) by simp
      then have "splice_loop ?e ?d fuel (Suc n) chunk vm x = Some (Ok ([(True, x1)], vm1))"
        using res clk1 idx Suc.prems(6) end_y exec r(1) Ok y by (auto simp: x1_def Let_def)
      then show ?thesis
        using replay [of stop] Suc.prems(13-15) end_y x1(3) reads Suc.prems(6) by (auto simp: shards_of_def)
    next
      case False
      have bounds: "unat (m_clk ?y) + 264 * length zs < 2 ^ 64" "unat (m_clk s) + 8 * length ys \<le> unat (m_clk ?y)"
        using path_clk [OF zs(1) b dec] pre_y Suc.prems(5) clk ys(1) by simp_all
      have "m_clk ?y \<noteq> m_clk ?z"
        using path_clk(1) [OF zs(2) ys(3) dec _ bounds(1)] pre zs(3) False by (cases zs) auto
      moreover have more: "m_pc ?y \<noteq> HALT_PC" "res = ShardBoundary"
        using res False by simp_all
      ultimately obtain x2 where x2: "splice vm1 chunk = Some x2" "shard_from chunk ?y x2"
        using splice_before_end [OF ys(3) Suc.prems(5)] Suc.prems(7) by auto
      have later: "m_clk ?y \<noteq> 1"
        using bounds(2) ys(2) by (cases ys) auto
      have "\<exists>r. splice_loop ?e ?d fuel n chunk vm1 x2 = Some r \<and> (\<forall>xs vm'. r = Ok (xs, vm') \<longrightarrow>
          shards_of E fuel (replay_mode K) (m_program s) retained chunk stop (trace_reads ?y) x2 xs)"
        using Suc.IH [OF zs(2) False ys(3) dec Suc.prems(5) _ _ bounds(1) _ _ x2(2)] later path_program [OF zs(1)]
          zs(3) ys(1,2) Suc.prems(6,7,9,10,13-15) by (cases ys) simp_all
      then obtain r2 where r2: "splice_loop ?e ?d fuel n chunk vm1 x2 = Some r2" "\<And>xs vm'. r2 = Ok (xs, vm') \<Longrightarrow>
          shards_of E fuel (replay_mode K) (m_program s) retained chunk stop (trace_reads ?y) x2 xs"
        by blast
      have loop: "splice_loop ?e ?d fuel (Suc n) chunk vm x =
          Some (and_then r2 (\<lambda>(result, vm2). Ok ((False, x1) # result, vm2)))"
        using exec r(1) Ok y more(2) x2(1) clk1 idx r2(1) by (simp add: x1_def Let_def)
      have "shard_replays E fuel (replay_mode K) (m_program s) retained x1 (shard_start x2)"
        using x2(2) by (intro replay) (simp_all add: shard_from_def shard_start_def)
      then show ?thesis
        unfolding loop using shards_of_Cons [OF r2(2) [folded reads] _ x1(3)] by (cases r2) auto
    qed
  qed (simp_all add: exec r(1))
qed

lemma splicing_enum_core:
  assumes "splicing_enum_new chunk program addrs pages retained thr = Some vm"
    "mode = (if enable_untrusted_programs program then UserMode else SupervisorMode)"
  shows "core_new mode chunk program retained = Some (sp_core vm)"
  using assms by (auto simp: splicing_enum_new_def splicing_new_def split: Option.bind_splits)

text \<open>(C2) The shards of a chunk. Let the minimal executor record a chunk, as in the theorem on the replay of a
  chunk, in the mode that the program asks for. Then the loop that cuts the chunk into shards ends. If it returns
  shards, then the first starts in the state in which the executor started, each can be replayed by a core VM that is
  created from its serialized trace alone, stops after using all its reads in the state in which the next shard
  starts, and only the last is marked as the last and stops in the state in which the executor ended. The
  shards share out the recorded reads in order, without loss or overlap.\<close>

theorem spliced_shards_replay:
  assumes s: "reached E s" "dump_only_reads E" "m_maybe_unconstrained s = None" "m_exit_code s = 0"
      "m_decoded_instruction_cache s \<subseteq>\<^sub>m process_instruction E"
      "m_mode s = (if enable_untrusted_programs (m_program s) then UserMode else SupervisorMode)"
    and run: "start_chunk s = Some s1" "chunk_ok E fuel s1" "try_execute_chunk E fuel s = Some (Ok (Some b, t))"
    and t: "m_maybe_unconstrained t = None" "last_error (m_memory t) = None"
    and clk: "unat (m_clk s) + 264 * fuel < 2 ^ 64"
  shows "\<exists>r. splice_chunk_sequential (abi E) (process_instruction E) fuel (m_program s) (chunk_of_buffer b) retained thr addrs pages =
      Some r \<and>
    (\<forall>shards addrs' pages'. r = Ok (shards, addrs', pages') \<longrightarrow>
      shard_chain E fuel (m_mode s) (m_program s) retained (m_pc t, m_clk t, m_registers t) shards \<and>
      spl_start_pc (snd (hd shards)) = m_pc s \<and> spl_start_clk (snd (hd shards)) = m_clk s \<and>
      (\<forall>i < 32. spl_start_registers (snd (hd shards)) i = m_registers s i) \<and>
      concat (map (\<lambda>x. spliced_reads (snd x)) shards) = mem_reads (chunk_of_buffer b))"
proof (cases "splicing_enum_new (chunk_of_buffer b) (m_program s) cm_new cp_new retained thr")
  case None
  then show ?thesis
    by (simp add: splice_chunk_sequential_def)
next
  case (Some vm)
  let ?K = "replay_of E s b" and ?chunk = "chunk_of_buffer b" and ?x = "new_full_trace (chunk_of_buffer b)"
  note new = splicing_enum_core [OF Some s(6)]
  obtain s2 where s2: "chunk_loop E fuel s1 = Some (Ok s2)" and tr: "t = s2\<lparr>m_traces := None\<rparr>" "trace_reads s2 = buf_reads b"
    and start: "boundary ?K s1 (sp_core vm)" and inv: "executor_inv s1" "trace_reads s1 = []"
    and s1: "s1 = s\<lparr>m_traces := m_traces s1\<rparr>" and ends: "m_pc s \<noteq> HALT_PC" "h_clk_end b = m_clk t"
    by (rule recorded_run [OF s(1,2,3,5) run(1,3) new])
  note header = chunk_header [OF reached_no_trace [OF s(1,2) run(3)] run(3)]
  have s1_eqs: "m_pc s1 = m_pc s" "m_clk s1 = m_clk s" "m_registers s1 = m_registers s" "m_program s1 = m_program s"
    by (subst s1, simp)+
  have K: "decoder ?K = process_instruction E" "prefix (trace_reads s2) (chunk_reads ?K)" "replay_mode ?K = m_mode s"
    "chunk_reads ?K = mem_reads ?chunk" "end_clk ?K = m_clk t" "mem_reads ?chunk = buf_reads b"
    using tr ends(2) by (simp_all add: replay_of_def chunk_of_buffer_def)
  have s2_eqs: "last_error (m_memory s2) = None" "m_maybe_unconstrained s2 = None"
    "m_pc s2 = m_pc t" "m_clk s2 = m_clk t" "m_registers s2 = m_registers t"
    using tr(1) t by simp_all
  obtain ts where ts: "ts \<noteq> []" "length ts \<le> fuel" "boundary_path E s1 ts" "path_end s1 ts = s2"
    using path_exists [of E fuel s1 s2 ?K "sp_core vm"] run(2) s2 ends(1) inv(1) s1_eqs(1) s(2) K(1,2) start s2_eqs(1,2)
    by (auto simp: runs_to_def)
  have first: "shard_from ?chunk s1 ?x"
    using header s1_eqs inv(2) by (simp add: shard_from_def new_full_trace_def spliced_new_def chunk_of_buffer_def array32_def)
  have pc: "m_clk s1 = 1 \<longrightarrow> m_pc s1 = pc_start_abs (m_program s1)"
    using new header s1_eqs by (auto simp: core_new_def chunk_of_buffer_def Let_def split: Option.bind_splits)
  let ?stop = "(m_pc t, m_clk t, m_registers t)"
  have "\<exists>r. splice_loop (abi E) (process_instruction E) fuel fuel ?chunk vm ?x = Some r \<and> (\<forall>xs vm'. r = Ok (xs, vm') \<longrightarrow>
      shards_of E fuel (replay_mode ?K) (m_program s1) retained ?chunk ?stop (trace_reads s1) ?x xs)"
    using ts tr(2) s2_eqs K clk s1_eqs(2) pc
    by (intro splice_loop_shards [OF ts(3,1) start K(1,4) _ _ _ ts(2,2) first]) simp_all
  then obtain r where r: "splice_loop (abi E) (process_instruction E) fuel fuel ?chunk vm ?x = Some r"
    "\<And>xs vm'. r = Ok (xs, vm') \<Longrightarrow> shards_of E fuel (m_mode s) (m_program s) retained ?chunk ?stop [] ?x xs"
    using inv(2) s1_eqs(4) K(3) by auto
  show ?thesis
    using first s1_eqs r(2)
    by (cases r) (auto simp: splice_chunk_sequential_def Some r(1) shards_of_def shard_start_def shard_from_def unwrap_def
        simp del: shard_chain.simps split: option.splits Option.bind_splits)
qed

subsection \<open>A chunk in two shards\<close>

text \<open>With the smallest thresholds that \<open>splicing_new\<close> accepts, the program that loads a word and halts is cut after the load.\<close>

lemma first_mark:
  obtains m m' xs where "cm_insert cm_new 0x100 True = Some (False, m)" "cm_is_set m = Some xs"
    "cm_insert cm_new 0x100 False = Some (False, m')"
proof -
  have r: "unat (0x100 :: u64) < 2 ^ 40"
    by simp
  obtain m where m: "cm_insert cm_new 0x100 True = Some (False, m)" "bits_inv (2 ^ 19) m"
    using memory_bits.insert_bit [OF memory_bits.new(1) r, of True] memory_bits.new(2) by auto
  obtain m' where "cm_insert cm_new 0x100 False = Some (False, m')"
    using memory_bits.insert_bit [OF memory_bits.new(1) r, of False] memory_bits.new(2) by auto
  with m memory_bits.listed_sorted [OF m(2)] that show ?thesis
    by blast
qed

lemma add_rows_limits:
  "sh_is_commit_on (add_rows a n area sc) = sh_is_commit_on sc"
  "sh_sharding_threshold (add_rows a n area sc) = sh_sharding_threshold sc"
  by (simp_all add: add_rows_def Let_def)

lemma shape_instruction_limits:
  assumes "riscv_air_id_from_opcode (opcode instruction) = Some air_id"
  shows "\<exists>sc'. shape_instruction_supervisor sc instruction b1 b2 b3 b4 = Some sc' \<and>
    sh_is_commit_on sc' = sh_is_commit_on sc \<and> sh_sharding_threshold sc' = sh_sharding_threshold sc"
  using assms
  by (simp add: shape_instruction_supervisor_def update_heights_and_area_def increment_count_def add_rows_limits Let_def)

lemma splicing_step_ok:
  assumes "c_mode (sp_core vm) = SupervisorMode" "core_fetch_supervisor (sp_core vm) = Some instruction"
    "opcode instruction = LD \<and> splicing_execute_load_supervisor vm instruction = Ok vm1 \<or>
     opcode instruction = ECALL \<and> splicing_execute_ecall e vm instruction = Ok vm1"
  shows "\<exists>sc. splicing_execute_instruction e d vm = Ok (splicing_advance (vm1\<lparr>sp_shape_checker := sc\<rparr>)) \<and>
    sh_is_commit_on sc = sh_is_commit_on (sp_shape_checker vm1) \<and>
    sh_sharding_threshold sc = sh_sharding_threshold (sp_shape_checker vm1)"
proof -
  obtain air_id where air: "riscv_air_id_from_opcode (opcode instruction) = Some air_id"
    using assms(3) by (auto simp: riscv_air_id_from_opcode_def)
  let ?shape = "shape_instruction_supervisor (sp_shape_checker vm1) instruction (needs_bump_clk_high (sp_core vm1))
    (is_alu_instruction instruction \<and> op_a instruction = 0) (is_memory_load_instruction instruction \<and> op_a instruction = 0)
    (needs_state_bump (sp_core vm1) instruction)"
  have "splicing_execute_instruction e d vm =
      and_then (unwrap ?shape) (\<lambda>sc. Ok (splicing_advance (vm1\<lparr>sp_shape_checker := sc\<rparr>)))"
    using assms by (elim disjE conjE) (simp_all add: splicing_execute_instruction_def
      splicing_execute_instruction_supervisor_def match_opcode_def is_instruction_defs)
  moreover obtain sc where "?shape = Some sc" "sh_is_commit_on sc = sh_is_commit_on (sp_shape_checker vm1)"
    "sh_sharding_threshold sc = sh_sharding_threshold (sp_shape_checker vm1)"
    using shape_instruction_limits [OF air] by blast
  ultimately show ?thesis
    by (intro exI [of _ sc]) simp
qed

abbreviation load_instruction :: Instruction where
  "load_instruction \<equiv> \<lparr>opcode = LD, op_a = 6, op_b = 0, op_c = 0x100, imm_b = False, imm_c = True\<rparr>"

lemma load_program_fetch:
  "c_program c = load_program \<Longrightarrow> c_pc c = 0x78000000 \<Longrightarrow> core_fetch_supervisor c = Some load_instruction"
  "c_program c = load_program \<Longrightarrow> c_pc c = 0x78000004 \<Longrightarrow> core_fetch_supervisor c =
    Some \<lparr>opcode = ECALL, op_a = 5, op_b = 10, op_c = 11, imm_b = False, imm_c = False\<rparr>"
  by (simp_all add: core_fetch_supervisor_def fetch_def vec_get_def load_program_def halt_program_def)

lemma splice_load:
  assumes "c_mem_reads (sp_core vm) = [default_MemValue]" "mr_value (c_registers (sp_core vm) 0) = 0"
    "sp_touched_addresses vm = cm_new" "sh_is_last_read_external (sp_shape_checker vm) = cm_new"
    "\<not> sh_syscall_sent (sp_shape_checker vm)" "cm_insert cm_new 0x100 True = Some (False, m)" "cm_insert cm_new 0x100 False = Some (False, m')"
  shows "\<exists>vm'. splicing_execute_load_supervisor vm load_instruction = Ok vm' \<and> sp_touched_addresses vm' = m \<and>
    sp_touched_pages vm' = sp_touched_pages vm \<and> sp_panicked vm' = sp_panicked vm \<and>
    sh_is_commit_on (sp_shape_checker vm') = sh_is_commit_on (sp_shape_checker vm) \<and>
    sh_sharding_threshold (sp_shape_checker vm') = sh_sharding_threshold (sp_shape_checker vm) \<and>
    (\<exists>f. sp_core vm' = sp_core vm\<lparr>c_mem_reads := [], c_registers := f\<rparr> \<and>
      (\<forall>i. i \<noteq> 6 \<longrightarrow> mr_value (f i) = mr_value (c_registers (sp_core vm) i)))"
proof -
  have regs: "from_u8 6 = Some X6" "from_u8 0 = Some X0"
    by code_simp+
  show ?thesis
    using assms
    by (simp add: splicing_execute_load_supervisor_def
      core_execute_load_supervisor_def operand_view_defs regs core_rr_def core_rw_def core_mr_def next_read_def compute_load_value_def
      splicing_accessed_def touch_address_def splicing_mem_event_def shape_mem_event_def Let_def) (rule exI, rule conjI, rule refl, simp)
qed

abbreviation ecall_instruction :: Instruction where
  "ecall_instruction \<equiv> \<lparr>opcode = ECALL, op_a = 5, op_b = 10, op_c = 11, imm_b = False, imm_c = False\<rparr>"

lemma splice_halt:
  assumes "mr_value (c_registers (sp_core vm) 5) = 0" "\<not> sp_panicked vm"
  shows "\<exists>vm'. splicing_execute_ecall e vm ecall_instruction = Ok vm' \<and> sp_touched_addresses vm' = sp_touched_addresses vm \<and>
    sp_touched_pages vm' = sp_touched_pages vm \<and> c_next_pc (sp_core vm') = HALT_PC \<and>
    sh_is_commit_on (sp_shape_checker vm') = sh_is_commit_on (sp_shape_checker vm)"
proof -
  have send: "should_send HALT = 0"
    by code_simp
  show ?thesis
    using assms
    by (simp add: send splicing_execute_ecall_def read_code_def from_u32_HALT count_syscall_def core_execute_ecall_def is_instruction_defs
    splicing_runtime_def core_rr_def sp1_ecall_handler_def vm_dispatch_def ok_handled_def halt_syscall_def reset_clk_def core_rw_def
    shape_set_syscall_sent_def Let_def)
qed

text \<open>A chunk of the program that loads a word and halts.\<close>

definition load_chunk :: "TraceChunk \<Rightarrow> bool" where
  "load_chunk chunk \<longleftrightarrow> pc_start chunk = 0x78000000 \<and> clk_start chunk = 1 \<and> clk_end chunk = 273 \<and>
    mem_reads chunk = [default_MemValue] \<and> (\<forall>i < 32. start_registers chunk i = 0)"

lemma load_shard:
  assumes "load_chunk chunk" "splicing_new SupervisorMode chunk load_program cm_new cp_new [] \<lparr>element_threshold = 2 ^ 18, height_threshold = 2 ^ 10\<rparr> = Some vm"
   "cm_insert cm_new 0x100 True = Some (False, m)" "cm_insert cm_new 0x100 False = Some (False, m')"
  shows "\<exists>vm1. splicing_execute e d (Suc fuel) vm = Some (Ok (ShardBoundary, vm1)) \<and> sp_touched_addresses vm1 = m \<and> sp_touched_pages vm1 = cp_new \<and>
     \<not> sp_panicked vm1 \<and> c_mode (sp_core vm1) = SupervisorMode \<and> c_program (sp_core vm1) = load_program \<and> c_pc (sp_core vm1) = 0x78000004 \<and>
     c_clk (sp_core vm1) = 9 \<and> c_clk_end (sp_core vm1) = 273 \<and> mr_value (c_registers (sp_core vm1) 5) = 0 \<and>
     \<not> sh_is_commit_on (sp_shape_checker vm1)"
proof -
  let ?thr = "\<lparr>element_threshold = 0, height_threshold = 0\<rparr>"
  let ?c = "\<lparr>c_registers = (\<lambda>i. \<lparr>mr_timestamp = 0, mr_value = start_registers chunk i\<rparr>),
       c_clk = 1, c_global_clk = 0, c_pc = 0x78000000, c_exit_code = 0,
       c_mem_reads = [default_MemValue], c_next_pc = 0x78000004,
       c_next_clk = 9, c_program = load_program, c_retained_syscall_codes = [],
       c_clk_end = 273, c_public_value_digest = (\<lambda>_. 0),
       c_decoded_instruction_cache = Map.empty, c_mode = SupervisorMode\<rparr>"
  have vm: "vm = \<lparr>sp_core = ?c, sp_shape_checker = shape_new SupervisorMode 2 1 ?thr,
      sp_touched_addresses = cm_new, sp_touched_pages = cp_new, sp_panicked = False\<rparr>"
    using assms(1,2) by (simp add: load_chunk_def splicing_new_def core_new_def load_program_def halt_program_def Let_def split: Option.bind_splits)
  then have core: "sp_core vm = ?c" and shape: "sh_is_last_read_external (sp_shape_checker vm) = cm_new"
    "\<not> sh_syscall_sent (sp_shape_checker vm)" "\<not> sh_is_commit_on (sp_shape_checker vm)"
    "sh_sharding_threshold (sp_shape_checker vm) = ?thr"
    by (simp_all add: shape_new_def Let_def)
  obtain vm1 f where vm1: "splicing_execute_load_supervisor vm load_instruction = Ok vm1" "sp_touched_addresses vm1 = m"
    "sp_touched_pages vm1 = cp_new" "\<not> sp_panicked vm1" "\<not> sh_is_commit_on (sp_shape_checker vm1)"
    "sh_sharding_threshold (sp_shape_checker vm1) = ?thr"
    "sp_core vm1 = ?c\<lparr>c_mem_reads := [], c_registers := f\<rparr>" "mr_value (f 5) = 0"
    using splice_load [of vm m m'] assms(1,3,4) core shape vm by (auto simp: load_chunk_def)
  obtain sc where sc: "splicing_execute_instruction e d vm = Ok (splicing_advance (vm1\<lparr>sp_shape_checker := sc\<rparr>))"
    "\<not> sh_is_commit_on sc" "sh_sharding_threshold sc = ?thr"
    using splicing_step_ok [of vm load_instruction vm1 e d] load_program_fetch(1) [of ?c] core vm1 by auto
  let ?vm2 = "snd (splicing_advance (vm1\<lparr>sp_shape_checker := sc\<rparr>))"
  obtain g where g: "snd (register_refresh (sp_core ?vm2)) = sp_core ?vm2\<lparr>c_registers := g\<rparr>"
      "\<forall>i. mr_value (g i) = mr_value (c_registers (sp_core ?vm2) i)"
    using bump_registers_values [of "sp_core ?vm2" "[0..<32]"] unfolding register_refresh_def by blast
  have "sp_core ?vm2 = ?c\<lparr>c_mem_reads := [], c_registers := f, c_clk := 9, c_pc := 0x78000004, c_next_clk := 17,
      c_next_pc := 0x78000008, c_global_clk := 1\<rparr>" and step: "fst (splicing_advance (vm1\<lparr>sp_shape_checker := sc\<rparr>)) = Done False"
    using vm1(7) by (simp_all add: splicing_advance_def advance_def is_trace_end_def Let_def)
  moreover have keep: "sp_shape_checker ?vm2 = sc" "sp_touched_addresses ?vm2 = m" "sp_touched_pages ?vm2 = cp_new" "\<not> sp_panicked ?vm2"
    using vm1(2-4) by (simp_all add: splicing_advance_def case_prod_unfold Let_def)
  moreover have "splicing_execute e d (Suc fuel) vm = Some (Ok (ShardBoundary, start_new_shard ?vm2))"
    using core sc step keep(1) by (cases "splicing_advance (vm1\<lparr>sp_shape_checker := sc\<rparr>)")
      (simp add: splicing_execute_def core_is_done_def check_shard_limit_def)
  ultimately show ?thesis
    using g vm1(8) by (simp add: start_new_shard_def shape_reset_def shape_new_def Let_def)
qed

lemma halt_shard:
  assumes "c_mode (sp_core vm) = SupervisorMode" "c_program (sp_core vm) = load_program" "c_pc (sp_core vm) = 0x78000004"
    "mr_value (c_registers (sp_core vm) 5) = 0" "\<not> sp_panicked vm" "\<not> sh_is_commit_on (sp_shape_checker vm)"
  shows "\<exists>vm1. splicing_execute e d (Suc fuel) vm = Some (Ok (Done True, vm1)) \<and>
    sp_touched_addresses vm1 = sp_touched_addresses vm \<and> sp_touched_pages vm1 = sp_touched_pages vm"
proof -
  obtain vm1 where vm1: "splicing_execute_ecall e vm ecall_instruction = Ok vm1"
    "sp_touched_addresses vm1 = sp_touched_addresses vm" "sp_touched_pages vm1 = sp_touched_pages vm"
    "c_next_pc (sp_core vm1) = HALT_PC" "\<not> sh_is_commit_on (sp_shape_checker vm1)"
    using splice_halt [OF assms(4,5)] assms(6) by auto
  obtain sc where sc: "splicing_execute_instruction e d vm = Ok (splicing_advance (vm1\<lparr>sp_shape_checker := sc\<rparr>))" "\<not> sh_is_commit_on sc"
    using splicing_step_ok [of vm ecall_instruction vm1 e d] load_program_fetch(2) [OF assms(2,3)] assms(1) vm1 by auto
  then show ?thesis
    using assms(3) vm1 by (simp add: splicing_execute_def core_is_done_def splicing_advance_def advance_def
        commit_outgrew_halt_room_def Let_def)
qed

lemma load_two_shards:
  assumes "load_chunk chunk"
  shows "\<exists>x y addrs pages. splice_chunk_sequential e d (Suc (Suc 0)) load_program chunk []
    \<lparr>element_threshold = 2 ^ 18, height_threshold = 2 ^ 10\<rparr> {} {} = Some (Ok ([(False, x), (True, y)], addrs, pages))"
proof -
  obtain m m' xs where m: "cm_insert cm_new 0x100 True = Some (False, m)" "cm_is_set m = Some xs"
    "cm_insert cm_new 0x100 False = Some (False, m')"
    by (rule first_mark)
  obtain ps where ps: "cp_is_set cp_new = Some ps"
    using page_bits.listed_sorted [OF page_bits.new(1)] by blast
  have untrusted: "\<not> enable_untrusted_programs load_program"
    by (simp add: load_program_def halt_program_def)
  have "pc_start_abs load_program = 0x78000000"
    by (simp add: load_program_def halt_program_def)
  then obtain vm where vm: "splicing_new SupervisorMode chunk load_program cm_new cp_new []
      \<lparr>element_threshold = 2 ^ 18, height_threshold = 2 ^ 10\<rparr> = Some vm"
    using assms by (simp add: splicing_new_def core_new_def load_chunk_def Let_def)
  obtain vm1 where vm1: "splicing_execute e d (Suc (Suc 0)) vm = Some (Ok (ShardBoundary, vm1))" "sp_touched_addresses vm1 = m"
     "sp_touched_pages vm1 = cp_new" "\<not> sp_panicked vm1" "c_mode (sp_core vm1) = SupervisorMode"
     "c_program (sp_core vm1) = load_program" "c_pc (sp_core vm1) = 0x78000004" "c_clk (sp_core vm1) = 9"
     "c_clk_end (sp_core vm1) = 273" "mr_value (c_registers (sp_core vm1) 5) = 0" "\<not> sh_is_commit_on (sp_shape_checker vm1)"
    using load_shard [OF assms vm m(1,3)] by blast
  obtain vm2 where vm2: "splicing_execute e d (Suc (Suc 0)) vm1 = Some (Ok (Done True, vm2))"
    "sp_touched_addresses vm2 = m" "sp_touched_pages vm2 = cp_new"
    using halt_shard [of vm1 e d "Suc 0"] vm1 by auto
  obtain x2 where "splice vm1 chunk = Some x2"
    using vm1(7-9) by (simp add: splice_def is_trace_end_def core_is_done_def Let_def)
  with vm vm1(1) vm2 m(2) ps untrusted show ?thesis
    by (simp add: splice_chunk_sequential_def splicing_enum_new_def Let_def)
qed

theorem spliced_shards_replay_witness:
  "\<exists>s b t x y addrs pages. new_with_limit SupervisorMode load_program (Some 100) None = Some s \<and>
     try_execute_chunk no_externs (Suc (Suc 0)) s = Some (Ok (Some b, t)) \<and>
     splice_chunk_sequential (abi no_externs) (process_instruction no_externs) (Suc (Suc 0)) load_program (chunk_of_buffer b) []
       \<lparr>element_threshold = 2 ^ 18, height_threshold = 2 ^ 10\<rparr> {} {} = Some (Ok ([(False, x), (True, y)], addrs, pages)) \<and>
     shard_replays no_externs (Suc (Suc 0)) SupervisorMode load_program [] x (shard_start y) \<and>
     shard_replays no_externs (Suc (Suc 0)) SupervisorMode load_program [] y (m_pc t, m_clk t, m_registers t) \<and>
     spl_start_pc x = m_pc s \<and> spliced_reads x @ spliced_reads y = [default_MemValue]"
proof -
  from load_halt_run obtain s s1 b t c where run: "new_with_limit SupervisorMode load_program (Some 100) None = Some s"
    "start_chunk s = Some s1" "chunk_ok no_externs (Suc (Suc 0)) s1"
    "try_execute_chunk no_externs (Suc (Suc 0)) s = Some (Ok (Some b, t))"
    "core_new (m_mode s) (chunk_of_buffer b) (m_program s) [] = Some c" "buf_reads b = [default_MemValue]"
    "m_maybe_unconstrained s = None" "m_exit_code s = 0"
    "m_decoded_instruction_cache s \<subseteq>\<^sub>m process_instruction no_externs"
    "m_maybe_unconstrained t = None" "last_error (m_memory t) = None" "m_clk s = 1" "m_pc t = 1" "m_clk t = 273"
    by blast
  note r = reached.new [OF run(1)]
  have s: "m_mode s = SupervisorMode" "m_program s = load_program" "m_pc s = 0x78000000" "m_registers s = (\<lambda>_. 0)"
    using run(1) by (auto simp: new_with_limit_def load_program_def halt_program_def Let_def split: Option.bind_splits)
  have mode: "m_mode s = (if enable_untrusted_programs (m_program s) then UserMode else SupervisorMode)"
    by (simp add: s load_program_def halt_program_def)
  have clk: "unat (m_clk s) + 264 * Suc (Suc 0) < 2 ^ 64"
    by (simp add: run)
  note header = chunk_header [OF reached_no_trace [OF r no_externs_dump run(4)] run(4)]
  have "load_chunk (chunk_of_buffer b)"
    using header run s by (simp add: load_chunk_def chunk_of_buffer_def array32_def)
  from load_two_shards [OF this, of "abi no_externs" "process_instruction no_externs"] obtain x y addrs pages where
    xy: "splice_chunk_sequential (abi no_externs) (process_instruction no_externs) (Suc (Suc 0)) load_program (chunk_of_buffer b) []
      \<lparr>element_threshold = 2 ^ 18, height_threshold = 2 ^ 10\<rparr> {} {} = Some (Ok ([(False, x), (True, y)], addrs, pages))"
    by blast
  have "mem_reads (chunk_of_buffer b) = [default_MemValue]"
    by (simp add: chunk_of_buffer_def run)
  with spliced_shards_replay [OF r no_externs_dump run(7-9) mode run(2-4,10,11) clk, of "[]"
      "\<lparr>element_threshold = 2 ^ 18, height_threshold = 2 ^ 10\<rparr>" "{}" "{}"] xy s(1,2)
  show ?thesis
    using run(1,4) by (intro exI [of _ s] exI [of _ b] exI [of _ t] exI [of _ x] exI [of _ y] exI [of _ addrs] exI [of _ pages]) simp
qed

end
