(* ===== verification/Shape_Size.thy ===== *)
theory Shape_Size
  imports Shape_Checker
begin

text \<open>
  What the numbers of the shape checker mean: after any sequence of calls, the trace area is the area of the
  tables with the heights it has counted, with the control tables that it does not count, and the maximal
  height bounds the rows of every table; so a shard that is not cut stays below both thresholds.
\<close>

subsection \<open>Runs of the shape checker\<close>

text \<open>A call of a machine to its shape checker, and a sequence of them.\<close>

datatype shape_call =
    S_untrusted u32
  | S_mem u64 u64
  | S_rr
  | S_page_prot u64 u64
  | S_commit
  | S_trap_exec
  | S_trap_mem
  | S_retained SyscallCode
  | S_set_sent bool
  | S_instruction Instruction bool bool bool bool nat
  | S_trap_events bool nat

primrec call_shape :: "shape_call \<Rightarrow> ShapeChecker \<Rightarrow> ShapeChecker option" where
  "call_shape (S_untrusted i) sc = Some (handle_untrusted_instruction sc i)"
| "call_shape (S_mem addr clock) sc = shape_mem_event sc addr clock"
| "call_shape S_rr sc = Some (shape_local_mem_syscall_rr sc)"
| "call_shape (S_page_prot i clock) sc = Some (shape_page_prot_event sc i clock)"
| "call_shape S_commit sc = Some (handle_commit sc)"
| "call_shape S_trap_exec sc = Some (shape_trap_exec_event sc)"
| "call_shape S_trap_mem sc = Some (shape_trap_mem_event sc)"
| "call_shape (S_retained code) sc = shape_retained_syscall sc code"
| "call_shape (S_set_sent b) sc = Some (shape_set_syscall_sent sc b)"
| "call_shape (S_instruction i bump alu_x0 load_x0 state_bump n) sc =
    (case sh_mode sc of
       SupervisorMode \<Rightarrow> shape_instruction_supervisor sc i bump alu_x0 load_x0 state_bump
     | UserMode \<Rightarrow> shape_instruction_user sc i bump alu_x0 load_x0 state_bump n)"
| "call_shape (S_trap_events bump n) sc = Some (shape_trap_events sc bump n)"

primrec shape_calls :: "shape_call list \<Rightarrow> ShapeChecker \<Rightarrow> ShapeChecker option" where
  "shape_calls [] sc = Some sc"
| "shape_calls (x # xs) sc = Option.bind (call_shape x sc) (shape_calls xs)"

text \<open>An upper bound of the rows a call adds to a table.\<close>

primrec call_rows :: "shape_call \<Rightarrow> nat" where
  "call_rows (S_untrusted i) = 1"
| "call_rows (S_mem addr clock) = 2"
| "call_rows S_rr = 2"
| "call_rows (S_page_prot i clock) = 2"
| "call_rows S_commit = 0"
| "call_rows S_trap_exec = 1"
| "call_rows S_trap_mem = 1"
| "call_rows (S_retained code) = 80"
| "call_rows (S_set_sent b) = 0"
| "call_rows (S_instruction i bump alu_x0 load_x0 state_bump n) = 35 + n"
| "call_rows (S_trap_events bump n) = 34 + n"

subsection \<open>The area is the area of the tables\<close>

text \<open>
  The area of the table \<open>a\<close> after \<open>h\<close> events: a row has \<open>rv64im_costs a\<close> cells; four page permissions share a
  row; and the tables with more than one row for an event have a control table with one row for it.
\<close>

definition table_rows :: "RiscvAirId \<Rightarrow> nat \<Rightarrow> nat" where
  "table_rows a h = (if a = PageProt then (h + 3) div 4 else h)"

definition table_area :: "ExecutionMode \<Rightarrow> RiscvAirId \<Rightarrow> nat \<Rightarrow> nat" where
  "table_area mode a h = rv64im_costs a * table_rows a h +
    (case control_air_id a (PAGE_PROTECTION_ENABLED mode) of
       Some control \<Rightarrow> rv64im_costs control * (h div rows_per_event a) | None \<Rightarrow> 0)"

definition base_area :: "nat \<Rightarrow> nat" where
  "base_area program_len = (if program_len mod 32 = 0 then program_len else program_len + (32 - program_len mod 32)) * rv64im_costs Program +
     2 ^ 16 * rv64im_costs Byte + 2 ^ 17 * rv64im_costs Range_air + 2 ^ 18 + 2 ^ 18"

definition shape_area :: "ShapeChecker \<Rightarrow> nat" where
  "shape_area sc = base_area (unat (sh_program_len sc)) +
    (\<Sum>a \<in> set air_ids. table_area (sh_mode sc) a (unat (sh_heights sc a)))"

definition pending_rows :: "ShapeChecker \<Rightarrow> nat" where
  "pending_rows sc = 2 * unat (sh_local_mem_counts sc) + 2 * unat (sh_local_page_prot_counts sc)"

text \<open>
  The invariant: the trace area is the area of the tables, and the maximal height is above every table but
  that of decoded instructions, which the table of fetched instructions bounds. \<open>below m n\<close> bounds the
  tables by \<open>n\<close> after \<open>m\<close> more rows.
\<close>

definition area_exact :: "ShapeChecker \<Rightarrow> bool" where
  "area_exact sc \<longleftrightarrow> sh_costs sc = (\<lambda>a. of_nat (rv64im_costs a)) \<and> sh_trace_area sc = of_nat (shape_area sc)"

definition height_exact :: "ShapeChecker \<Rightarrow> bool" where
  "height_exact sc \<longleftrightarrow>
    (\<forall>a. a \<noteq> InstructionDecode \<longrightarrow> table_rows a (unat (sh_heights sc a)) \<le> unat (sh_max_height sc)) \<and>
    unat (sh_heights sc InstructionDecode) \<le> unat (sh_heights sc InstructionFetch)"

definition exact :: "ShapeChecker \<Rightarrow> bool" where
  "exact sc \<longleftrightarrow> area_exact sc \<and> height_exact sc"

definition below :: "nat \<Rightarrow> nat \<Rightarrow> ShapeChecker \<Rightarrow> bool" where
  "below m n sc \<longleftrightarrow> (\<forall>a. unat (sh_heights sc a) + m \<le> n)"

definition shape_inv :: "nat \<Rightarrow> ShapeChecker \<Rightarrow> bool" where
  "shape_inv n sc \<longleftrightarrow> below (pending_rows sc) n sc \<and> exact sc"

lemma table_rows_mono: "h \<le> k \<Longrightarrow> table_rows a h \<le> table_rows a k"
  by (simp add: table_rows_def div_le_mono)

lemma table_area_add:
  assumes "control_air_id a (PAGE_PROTECTION_ENABLED mode) = None" "a \<noteq> PageProt"
  shows "table_area mode a (h + n) = table_area mode a h + n * rv64im_costs a"
  using assms by (simp add: table_area_def table_rows_def algebra_simps)

lemma sum_air_ids_upd:
  fixes f g :: "RiscvAirId \<Rightarrow> nat"
  assumes "a \<in> set air_ids" "\<And>b. b \<noteq> a \<Longrightarrow> g b = f b" "g a = f a + d"
  shows "(\<Sum>b \<in> set air_ids. g b) = (\<Sum>b \<in> set air_ids. f b) + d"
proof -
  have "(\<Sum>b \<in> set air_ids - {a}. g b) = (\<Sum>b \<in> set air_ids - {a}. f b)"
    by (rule sum.cong) (use assms(2) in auto)
  then show ?thesis
    using assms(1,3) by (simp add: sum.remove [of _ a])
qed

lemma area_exact_upd:
  assumes "area_exact sc" "a \<in> set air_ids" "sh_heights sc' = (sh_heights sc)(a := h)"
    and "table_area (sh_mode sc) a (unat h) = table_area (sh_mode sc) a (unat (sh_heights sc a)) + d"
    and "sh_trace_area sc' = sh_trace_area sc + of_nat d"
    and "sh_mode sc' = sh_mode sc" "sh_program_len sc' = sh_program_len sc" "sh_costs sc' = sh_costs sc"
  shows "area_exact sc'"
proof -
  have "shape_area sc' = shape_area sc + d"
    unfolding shape_area_def
    using sum_air_ids_upd [OF assms(2), of "\<lambda>b. table_area (sh_mode sc) b (unat (sh_heights sc' b))"
        "\<lambda>b. table_area (sh_mode sc) b (unat (sh_heights sc b))" d] assms
    by simp
  then show ?thesis
    using assms by (simp add: area_exact_def)
qed

lemma exact_cong:
  assumes "sh_heights sc' = sh_heights sc" "sh_costs sc' = sh_costs sc" "sh_trace_area sc' = sh_trace_area sc"
    "sh_max_height sc' = sh_max_height sc" "sh_mode sc' = sh_mode sc" "sh_program_len sc' = sh_program_len sc"
  shows "exact sc' \<longleftrightarrow> exact sc"
  using assms by (simp add: exact_def area_exact_def height_exact_def shape_area_def)

lemma exact_fields [simp]:
  "exact (sc\<lparr>sh_local_mem_counts := x\<rparr>) \<longleftrightarrow> exact sc"
  "exact (sc\<lparr>sh_local_page_prot_counts := x\<rparr>) \<longleftrightarrow> exact sc"
  "exact (sc\<lparr>sh_syscall_sent := b\<rparr>) \<longleftrightarrow> exact sc"
  "exact (sc\<lparr>sh_is_commit_on := b\<rparr>) \<longleftrightarrow> exact sc"
  "exact (sc\<lparr>sh_is_last_read_external := m\<rparr>) \<longleftrightarrow> exact sc"
  "exact (sc\<lparr>sh_is_last_page_prot_access_external := p\<rparr>) \<longleftrightarrow> exact sc"
  "exact (sc\<lparr>sh_shard_distinct_instructions := d\<rparr>) \<longleftrightarrow> exact sc"
  by (rule exact_cong; simp)+

lemma belowD: "below m n sc \<Longrightarrow> unat (sh_heights sc a) + m \<le> n"
  by (simp add: below_def)

lemma unat_add_small: "unat (x :: u64) + unat y < 2 ^ 64 \<Longrightarrow> unat (x + y) = unat x + unat y"
  by (simp add: unat_word_ariths)

text \<open>A table with one row for an event, of which the maximal height is kept.\<close>

definition plain :: "RiscvAirId \<Rightarrow> bool" where
  "plain a \<longleftrightarrow> a < 122 \<and> a \<noteq> PageProt \<and> a \<noteq> InstructionDecode \<and> rows_per_event a = 1"

lemma in_air_ids: "a \<in> set air_ids \<longleftrightarrow> a < 122"
  by (simp add: air_ids_def del: upt_rec_numeral)

lemma plain_control: "plain a \<Longrightarrow> control_air_id a b = None"
proof (cases "a = ShaCompress \<or> a = ShaExtend \<or> a = KeccakPermute")
  case True
  moreover assume "plain a"
  ultimately show ?thesis
    by (elim disjE) (simp_all add: plain_def rows_per_event_def)
qed (simp add: control_air_id_def)

lemma add_rows_simps [simp]:
  "sh_heights (add_rows a k area sc) = (sh_heights sc)(a := sh_heights sc a + k)"
  "sh_trace_area (add_rows a k area sc) = sh_trace_area sc + area"
  "sh_max_height (add_rows a k area sc) = max (sh_max_height sc) (sh_heights sc a + k)"
  "sh_mode (add_rows a k area sc) = sh_mode sc" "sh_program_len (add_rows a k area sc) = sh_program_len sc"
  "sh_costs (add_rows a k area sc) = sh_costs sc"
  "sh_local_mem_counts (add_rows a k area sc) = sh_local_mem_counts sc"
  "sh_local_page_prot_counts (add_rows a k area sc) = sh_local_page_prot_counts sc"
  "sh_syscall_sent (add_rows a k area sc) = sh_syscall_sent sc"
  "sh_is_commit_on (add_rows a k area sc) = sh_is_commit_on sc"
  "sh_sharding_threshold (add_rows a k area sc) = sh_sharding_threshold sc"
  "sh_shard_distinct_instructions (add_rows a k area sc) = sh_shard_distinct_instructions sc"
  by (simp_all add: add_rows_def Let_def)

lemma height_exact_upd:
  assumes "height_exact sc" "a \<noteq> InstructionDecode" "sh_heights sc' = (sh_heights sc)(a := h)"
    and "sh_heights sc a \<le> h" "sh_max_height sc' = max (sh_max_height sc) r" "unat r = table_rows a (unat h)"
  shows "height_exact sc'"
  using assms by (auto simp: height_exact_def max_def word_le_nat_alt)

lemma exact_add_rows:
  assumes "exact sc" "plain a" "unat (sh_heights sc a) + unat k < 2 ^ 64" "area = k * sh_costs sc a"
  shows "exact (add_rows a k area sc)"
proof -
  note h = unat_add_small [OF assms(3)]
  have costs: "sh_costs sc = (\<lambda>a. of_nat (rv64im_costs a))"
    using assms(1) by (simp add: exact_def area_exact_def)
  have "area_exact (add_rows a k area sc)"
  proof (rule area_exact_upd [of sc a _ "sh_heights sc a + k" "unat k * rv64im_costs a"])
    show "table_area (sh_mode sc) a (unat (sh_heights sc a + k)) =
        table_area (sh_mode sc) a (unat (sh_heights sc a)) + unat k * rv64im_costs a"
      unfolding h by (rule table_area_add) (use assms(2) in \<open>simp_all add: plain_control plain_def\<close>)
  qed (use assms costs in \<open>simp_all add: exact_def in_air_ids plain_def\<close>)
  moreover have "height_exact (add_rows a k area sc)"
    by (rule height_exact_upd [of sc a _ "sh_heights sc a + k" "sh_heights sc a + k"])
      (use assms in \<open>simp_all add: exact_def plain_def table_rows_def word_le_nat_alt h\<close>)
  ultimately show ?thesis
    by (simp add: exact_def)
qed

lemma below_add_rows:
  assumes "below m n sc" "unat (sh_heights sc a) + unat k + m \<le> n'" "n \<le> n'" "n' < 2 ^ 64"
  shows "below m n' (add_rows a k area sc)"
  using assms by (auto simp: below_def unat_add_small intro: le_trans)

lemma below_cong: "sh_heights sc' = sh_heights sc \<Longrightarrow> below m n sc' \<longleftrightarrow> below m n sc"
  by (simp add: below_def)

lemma below_fields [simp]:
  "below m n (sc\<lparr>sh_local_mem_counts := x\<rparr>) \<longleftrightarrow> below m n sc"
  "below m n (sc\<lparr>sh_local_page_prot_counts := x\<rparr>) \<longleftrightarrow> below m n sc"
  "below m n (sc\<lparr>sh_syscall_sent := b\<rparr>) \<longleftrightarrow> below m n sc"
  "below m n (sc\<lparr>sh_is_commit_on := b\<rparr>) \<longleftrightarrow> below m n sc"
  "below m n (sc\<lparr>sh_is_last_read_external := e\<rparr>) \<longleftrightarrow> below m n sc"
  "below m n (sc\<lparr>sh_is_last_page_prot_access_external := p\<rparr>) \<longleftrightarrow> below m n sc"
  "below m n (sc\<lparr>sh_shard_distinct_instructions := d\<rparr>) \<longleftrightarrow> below m n sc"
  by (rule below_cong; simp)+

lemma below_mono: "below m n sc \<Longrightarrow> m' \<le> m \<Longrightarrow> n \<le> n' \<Longrightarrow> below m' n' sc"
  unfolding below_def by (meson add_le_mono le_refl le_trans)

subsection \<open>The operations keep the invariant\<close>

lemma add_rows_step:
  assumes "exact sc" "below m n sc" "plain a" "unat (sh_heights sc a) + unat k + m \<le> n'" "n \<le> n'" "n' < 2 ^ 64"
    "area = k * sh_costs sc a"
  shows "exact (add_rows a k area sc) \<and> below m n' (add_rows a k area sc)"
  using exact_add_rows [OF assms(1,3) _ assms(7)] below_add_rows [OF assms(2,4,5,6)] assms(4,6) by simp

lemma plain_tables:
  "plain MemoryLocal" "plain Global" "plain MemoryBump" "plain StateBump" "plain SyscallCore" "plain PageProtLocal"
  "plain TrapExec" "plain TrapMem" "plain InstructionFetch" "plain AluX0" "plain LoadX0" "plain AluX0User" "plain LoadX0User"
  by (simp_all add: plain_def rows_per_event_def)

lemma update_heights_and_area_step:
  assumes "exact sc" "below (2 * unat (sh_local_mem_counts sc) + m) n sc" "n + 34 < 2 ^ 64"
  shows "exact (update_heights_and_area sc bump state_bump) \<and> below m (n + 33) (update_heights_and_area sc bump state_bump)"
proof -
  let ?t = "sh_local_mem_counts sc" and ?s = "of_bool (sh_syscall_sent sc) :: u64"
  define sc1 where "sc1 = sc\<lparr>sh_local_mem_counts := 0, sh_syscall_sent := False\<rparr>"
  define sc2 where "sc2 = add_rows MemoryLocal ?t (?t * sh_costs sc1 MemoryLocal) sc1"
  define sc3 where "sc3 = add_rows Global (2 * ?t + ?s) (sh_costs sc2 Global * (2 * ?t + ?s)) sc2"
  define sc4 where "sc4 = (if bump then add_rows MemoryBump 32 (32 * sh_costs sc3 MemoryBump) sc3 else sc3)"
  define sc5 where "sc5 = (if state_bump then add_rows StateBump 1 (sh_costs sc4 StateBump) sc4 else sc4)"
  define sc6 where "sc6 = (if sh_syscall_sent sc then add_rows SyscallCore 1 (sh_costs sc5 SyscallCore) sc5 else sc5)"
  have upd: "update_heights_and_area sc bump state_bump = sc6"
    by (simp add: update_heights_and_area_def Let_def sc1_def sc2_def sc3_def sc4_def sc5_def sc6_def)
  have b: "unat (sh_heights sc a) + 2 * unat ?t + m \<le> n" for a
    using belowD [OF assms(2), of a] by simp
  have "unat ?t + unat ?t < 2 ^ 64"
    using b [of 0] assms(3) by simp
  then have tt: "unat (2 * ?t) = 2 * unat ?t"
    using unat_add_small [of ?t ?t] by simp
  have t2: "unat (2 * ?t + ?s) \<le> 2 * unat ?t + 1"
    using unat_add_small [of "2 * ?t" ?s] b [of 0] assms(3) tt by (cases "sh_syscall_sent sc") simp_all
  have h1: "sh_heights sc1 a = sh_heights sc a" for a
    by (simp add: sc1_def)
  have h2: "sh_heights sc2 a = sh_heights sc a" if "a \<noteq> MemoryLocal" for a
    using that by (simp add: sc2_def h1)
  have h3: "sh_heights sc3 a = sh_heights sc a" if "a \<noteq> MemoryLocal" "a \<noteq> Global" for a
    using that by (simp add: sc3_def h2)
  have h4: "sh_heights sc4 a = sh_heights sc a" if "a \<noteq> MemoryLocal" "a \<noteq> Global" "a \<noteq> MemoryBump" for a
    using that by (simp add: sc4_def h3)
  have h5: "sh_heights sc5 SyscallCore = sh_heights sc SyscallCore"
    by (simp add: sc5_def h4)
  have 1: "exact sc1 \<and> below m n sc1"
    using assms(1) below_mono [OF assms(2), of m n] by (simp add: sc1_def)
  have 2: "exact sc2 \<and> below m n sc2"
    unfolding sc2_def using 1 b [of MemoryLocal] assms(3)
    by (intro add_rows_step [of _ m n]) (simp_all add: plain_tables h1)
  have 3: "exact sc3 \<and> below m (n + 1) sc3"
    unfolding sc3_def using 2 b [of Global] assms(3) t2
    by (intro add_rows_step [of _ m n]) (simp_all add: plain_tables h2 mult.commute)
  have 4: "exact sc4 \<and> below m (n + 33) sc4"
  proof (cases bump)
    case True
    then show ?thesis
      unfolding sc4_def using 3 b [of MemoryBump] assms(3)
      by (simp only: if_True) (intro add_rows_step [of _ m "n + 1"], simp_all add: plain_tables h3)
  qed (use 3 below_mono [of m "n + 1" sc3 m "n + 33"] in \<open>simp add: sc4_def\<close>)
  have 5: "exact sc5 \<and> below m (n + 33) sc5"
  proof (cases state_bump)
    case True
    then show ?thesis
      unfolding sc5_def using 4 b [of StateBump] assms(3)
      by (simp only: if_True) (intro add_rows_step [of _ m "n + 33"], simp_all add: plain_tables h4)
  qed (use 4 in \<open>simp add: sc5_def\<close>)
  show ?thesis
  proof (cases "sh_syscall_sent sc")
    case True
    then show ?thesis
      unfolding upd sc6_def using 5 b [of SyscallCore] assms(3)
      by (simp only: if_True) (intro add_rows_step [of _ m "n + 33"], simp_all add: plain_tables h5)
  qed (use 5 in \<open>simp add: upd sc6_def\<close>)
qed

lemma unat_div_ceil: "unat (div_ceil n 4) = (unat n + 3) div 4"
proof -
  have d: "unat (n div 4) = unat n div 4" "unat n div 4 < 2 ^ 62"
    using unsigned_less [of n, where 'a = nat] by (simp_all add: unat_div less_mult_imp_div_less)
  moreover have "n mod 4 > 0 \<longleftrightarrow> unat n mod 4 \<noteq> 0"
    by (simp add: word_less_nat_alt unat_mod)
  ultimately have "unat (div_ceil n 4) = unat n div 4 + (if unat n mod 4 = 0 then 0 else 1)"
    unfolding div_ceil_def using unat_add_small [of "n div 4" 1] by simp
  also have "\<dots> = (unat n + 3) div 4"
    by presburger
  finally show ?thesis .
qed

lemma exact_page_prot:
  assumes "exact sc" "unat (sh_heights sc PageProt) + k < 2 ^ 64"
    and "sc' = (let prev_count = sh_heights sc PageProt; new_count = prev_count + of_nat k
      in sc\<lparr>sh_trace_area := sh_trace_area sc + sh_costs sc PageProt * (div_ceil new_count 4 - div_ceil prev_count 4),
            sh_heights := (sh_heights sc)(PageProt := new_count),
            sh_max_height := max (sh_max_height sc) (div_ceil new_count 4)\<rparr>)"
  shows "exact sc'"
proof -
  let ?p = "sh_heights sc PageProt" and ?n = "sh_heights sc PageProt + of_nat k"
  have "unat (of_nat k :: u64) = k"
    using assms(2) by (simp add: unat_of_nat take_bit_nat_eq_self)
  then have n: "unat ?n = unat ?p + k"
    using assms(2) by (subst unat_add_small) simp_all
  have costs: "sh_costs sc = (\<lambda>a. of_nat (rv64im_costs a))"
    using assms(1) by (simp add: exact_def area_exact_def)
  define d where "d = (unat ?n + 3) div 4 - (unat ?p + 3) div 4"
  have le: "(unat ?p + 3) div 4 \<le> (unat ?n + 3) div 4"
    by (simp add: n div_le_mono)
  then have "div_ceil ?n 4 - div_ceil ?p 4 = of_nat d"
    unfolding d_def by (simp add: of_nat_diff flip: unat_div_ceil)
  then have s: "sh_trace_area sc' = sh_trace_area sc + of_nat (rv64im_costs PageProt * d)"
    using assms(3) costs by (simp add: Let_def)
  have "area_exact sc'"
  proof (rule area_exact_upd [of sc PageProt sc' ?n "rv64im_costs PageProt * d"])
    show "table_area (sh_mode sc) PageProt (unat ?n) = table_area (sh_mode sc) PageProt (unat ?p) + rv64im_costs PageProt * d"
      using le by (simp add: table_area_def table_rows_def control_air_id_def d_def distrib_left [symmetric] del: distrib_left_numeral)
  qed (use assms s in \<open>simp_all add: exact_def in_air_ids Let_def\<close>)
  moreover have "height_exact sc'"
    by (rule height_exact_upd [of sc PageProt sc' ?n "div_ceil ?n 4"])
      (use assms n in \<open>simp_all add: exact_def Let_def unat_div_ceil table_rows_def word_le_nat_alt\<close>)
  ultimately show ?thesis
    by (simp add: exact_def)
qed

lemma update_heights_and_area_prot_step:
  assumes "exact sc" "below (2 * unat (sh_local_page_prot_counts sc)) n sc" "n + k < 2 ^ 64"
  shows "exact (update_heights_and_area_prot sc k) \<and> below 0 (n + k) (update_heights_and_area_prot sc k)"
proof -
  let ?t = "sh_local_page_prot_counts sc"
  define sc1 where "sc1 = sc\<lparr>sh_local_page_prot_counts := 0\<rparr>"
  define sc2 where "sc2 = add_rows Global (2 * ?t) (sh_costs sc1 Global * 2 * ?t) sc1"
  define sc3 where "sc3 = (let prev_count = sh_heights sc2 PageProt; new_count = prev_count + of_nat k
      in sc2\<lparr>sh_trace_area := sh_trace_area sc2 + sh_costs sc2 PageProt * (div_ceil new_count 4 - div_ceil prev_count 4),
            sh_heights := (sh_heights sc2)(PageProt := new_count),
            sh_max_height := max (sh_max_height sc2) (div_ceil new_count 4)\<rparr>)"
  have upd: "update_heights_and_area_prot sc k = add_rows PageProtLocal ?t (sh_costs sc3 PageProtLocal * ?t) sc3"
    by (simp add: update_heights_and_area_prot_def Let_def sc1_def sc2_def sc3_def)
  have b: "unat (sh_heights sc a) + 2 * unat ?t \<le> n" for a
    using belowD [OF assms(2), of a] by simp
  have "unat ?t + unat ?t < 2 ^ 64"
    using b [of 0] assms(3) by simp
  then have tt: "unat (2 * ?t) = 2 * unat ?t"
    using unat_add_small [of ?t ?t] by simp
  have 1: "exact sc1 \<and> below 0 n sc1"
    using assms(1) below_mono [OF assms(2), of 0 n] by (simp add: sc1_def)
  have 2: "exact sc2 \<and> below 0 n sc2"
    unfolding sc2_def using 1 b [of Global] assms(3) tt
    by (intro add_rows_step [of _ 0 n]) (simp_all add: plain_tables sc1_def)
  have k: "unat (of_nat k :: u64) = k"
    using assms(3) by (simp add: unat_of_nat take_bit_nat_eq_self)
  have h2: "unat (sh_heights sc2 PageProt) \<le> n"
    using belowD [of 0 n sc2 PageProt] 2 by simp
  have 3: "exact sc3"
    by (rule exact_page_prot [of sc2 k, OF _ _ sc3_def]) (use 2 h2 assms(3) in simp_all)
  have "unat (sh_heights sc2 PageProt + of_nat k) = unat (sh_heights sc2 PageProt) + k"
    using h2 assms(3) k by (subst unat_add_small) simp_all
  then have b3: "below 0 (n + k) sc3"
    using 2 h2 by (auto simp: below_def sc3_def Let_def intro: le_trans)
  have h3: "sh_heights sc3 PageProtLocal = sh_heights sc PageProtLocal"
    by (simp add: sc3_def sc2_def sc1_def Let_def)
  show ?thesis
    unfolding upd using 3 b3 b [of PageProtLocal] assms(3)
    by (intro add_rows_step [of _ 0 "n + k"]) (simp_all add: plain_tables h3 mult.commute)
qed

lemma update_heights_and_area_fields [simp]:
  "sh_local_mem_counts (update_heights_and_area sc bump state_bump) = 0"
  "sh_local_page_prot_counts (update_heights_and_area sc bump state_bump) = sh_local_page_prot_counts sc"
  by (simp_all add: update_heights_and_area_def Let_def)

lemma update_heights_and_area_prot_fields [simp]:
  "sh_local_mem_counts (update_heights_and_area_prot sc k) = sh_local_mem_counts sc"
  "sh_local_page_prot_counts (update_heights_and_area_prot sc k) = 0"
  by (simp_all add: update_heights_and_area_prot_def Let_def)

lemma plain_opcode: "riscv_air_id_from_opcode opc = Some a \<Longrightarrow> plain a"
  by (cases opc) (auto simp: riscv_air_id_from_opcode_def plain_def rows_per_event_def)

lemma plain_opcode_user: "riscv_air_id_from_opcode_user opc = Some a \<Longrightarrow> plain a"
  by (cases opc) (auto simp: riscv_air_id_from_opcode_user_def plain_def rows_per_event_def)

lemma retained_air_id:
  "as_air_id code = Some a \<Longrightarrow> plain a \<or> a \<in> {ShaExtend, ShaCompress, KeccakPermute}"
  by (cases code) (auto simp: plain_def rows_per_event_def)

lemma retained_air_id_user:
  "as_air_id_user code = Some a \<Longrightarrow> plain a \<or> a \<in> {ShaExtend, ShaCompress, KeccakPermute}"
  by (cases code) (auto simp: plain_def rows_per_event_def)

lemma twice_succ: "2 * unat (x + 1 :: u64) \<le> Suc (Suc (2 * unat x))"
proof -
  have "unat (x + 1) \<le> unat x + 1"
    by (simp add: unat_word_ariths)
  then show ?thesis by simp
qed

lemma shape_inv_intro:
  assumes "shape_inv n sc" "sh_heights sc' = sh_heights sc" "exact sc' \<longleftrightarrow> exact sc"
    "pending_rows sc' \<le> pending_rows sc + k"
  shows "shape_inv (n + k) sc'"
proof -
  have "unat (sh_heights sc' a) + pending_rows sc' \<le> n + k" for a
    using assms(1,2,4) belowD [of "pending_rows sc" n sc a] by (simp add: shape_inv_def)
  with assms(1,3) show ?thesis
    by (simp add: shape_inv_def below_def)
qed

lemma shape_inv_rows:
  assumes "shape_inv n sc" "plain a" "n + unat k < 2 ^ 64" "area = k * sh_costs sc a"
  shows "shape_inv (n + unat k) (add_rows a k area sc)"
  using assms belowD [of "pending_rows sc" n sc a] add_rows_step [of sc "pending_rows sc" n a k "n + unat k" area]
  by (simp add: shape_inv_def pending_rows_def)

lemma shape_inv_untrusted:
  assumes "shape_inv n sc" "n + 1 < 2 ^ 64"
  shows "shape_inv (n + 1) (handle_untrusted_instruction sc i)"
proof -
  define sc1 where "sc1 = add_rows InstructionFetch 1 (sh_costs sc InstructionFetch) sc"
  have 1: "shape_inv (n + 1) sc1"
    using shape_inv_rows [OF assms(1), of InstructionFetch 1] assms(2) by (simp add: sc1_def plain_tables)
  show ?thesis
  proof (cases "i \<in> sh_shard_distinct_instructions sc1")
    case True
    then show ?thesis
      using 1 by (simp add: handle_untrusted_instruction_def Let_def flip: sc1_def)
  next
    case False
    define sc2 where "sc2 = sc1\<lparr>sh_shard_distinct_instructions := insert i (sh_shard_distinct_instructions sc1),
      sh_trace_area := sh_trace_area sc1 + sh_costs sc1 InstructionDecode,
      sh_heights := (sh_heights sc1)(InstructionDecode := sh_heights sc1 InstructionDecode + 1)\<rparr>"
    let ?h = "sh_heights sc InstructionDecode"
    have b: "unat ?h + pending_rows sc \<le> n"
      using assms(1) by (simp add: shape_inv_def below_def)
    have h: "unat (?h + 1) = unat ?h + 1"
      using b assms(2) unat_add_small [of ?h 1] by simp
    have hf: "unat (sh_heights sc InstructionFetch + 1) = unat (sh_heights sc InstructionFetch) + 1"
      using assms belowD [of "pending_rows sc" n sc InstructionFetch] unat_add_small [of _ 1]
      by (simp add: shape_inv_def)
    have sc1: "sh_heights sc1 InstructionDecode = ?h" "pending_rows sc1 = pending_rows sc" "pending_rows sc2 = pending_rows sc"
      by (simp_all add: sc1_def sc2_def pending_rows_def)
    have e1: "area_exact sc1" "height_exact sc1"
      using 1 by (simp_all add: shape_inv_def exact_def)
    have "area_exact sc2"
    proof (rule area_exact_upd [OF e1(1), of InstructionDecode sc2 "?h + 1" "rv64im_costs InstructionDecode"])
      show "table_area (sh_mode sc1) InstructionDecode (unat (?h + 1)) =
          table_area (sh_mode sc1) InstructionDecode (unat (sh_heights sc1 InstructionDecode)) + rv64im_costs InstructionDecode"
        unfolding h sc1 by (subst table_area_add) (simp_all add: control_air_id_def)
    qed (use e1 in \<open>simp_all add: sc2_def in_air_ids sc1 area_exact_def\<close>)
    moreover have "height_exact sc2"
    proof -
      have "unat ?h \<le> unat (sh_heights sc InstructionFetch)"
        using assms(1) by (simp add: shape_inv_def exact_def height_exact_def)
      then show ?thesis
        using e1(2) h hf by (simp add: height_exact_def sc2_def sc1_def)
    qed
    moreover have "below (pending_rows sc2) (n + 1) sc2"
      using 1 b h unfolding shape_inv_def below_def sc1 by (simp add: sc2_def sc1)
    ultimately have "shape_inv (n + 1) sc2"
      by (simp add: shape_inv_def exact_def)
    with False show ?thesis
      by (simp add: handle_untrusted_instruction_def Let_def sc2_def flip: sc1_def)
  qed
qed

lemma shape_inv_mem:
  assumes "shape_inv n sc" "shape_mem_event sc addr clock = Some sc'"
  shows "shape_inv (n + 2) sc'"
proof -
  obtain b m e where sc': "sc' = sc\<lparr>sh_is_last_read_external := m, sh_local_mem_counts := sh_local_mem_counts sc + of_bool b\<rparr>"
    using assms(2) by (auto simp: shape_mem_event_def Let_def split: Option.bind_splits)
  show ?thesis
    unfolding sc' by (rule shape_inv_intro [OF assms(1)]) (simp_all add: pending_rows_def twice_succ)
qed

lemma shape_inv_page_prot: "shape_inv n sc \<Longrightarrow> shape_inv (n + 2) (shape_page_prot_event sc i clock)"
  unfolding shape_page_prot_event_def Let_def
  by (erule shape_inv_intro) (simp_all add: pending_rows_def twice_succ)

lemma shape_inv_rr: "shape_inv n sc \<Longrightarrow> shape_inv (n + 2) (shape_local_mem_syscall_rr sc)"
  unfolding shape_local_mem_syscall_rr_def
  by (erule shape_inv_intro) (simp_all add: pending_rows_def twice_succ)

lemma shape_inv_retained:
  assumes "shape_inv n sc" "shape_retained_syscall sc code = Some sc'" "n + 80 < 2 ^ 64"
  shows "shape_inv (n + 80) sc'"
proof -
  let ?user = "PAGE_PROTECTION_ENABLED (sh_mode sc)"
  obtain a where a: "(if ?user then as_air_id_user code else as_air_id code) = Some a"
    using assms(2) by (auto simp: shape_retained_syscall_def split: Option.bind_splits)
  let ?r = "of_nat (rows_per_event a) :: u64"
  define sc1 where "sc1 = add_rows a ?r (?r * sh_costs sc a) sc"
  consider "plain a" | "a \<in> {ShaExtend, ShaCompress, KeccakPermute}"
    using a retained_air_id [of code a] retained_air_id_user [of code a] by (auto split: if_splits)
  then show ?thesis
  proof cases
    case 1
    then have "rows_per_event a = 1"
      by (simp add: plain_def)
    then have "sc' = sc1"
      using assms(2) a by (simp add: shape_retained_syscall_def sc1_def Let_def)
    moreover have "shape_inv (n + 1) sc1"
      using shape_inv_rows [OF assms(1) 1, of 1] assms(3) \<open>rows_per_event a = 1\<close> by (simp add: sc1_def)
    ultimately show ?thesis
      using shape_inv_intro [of "n + 1" sc1 sc' 79] by (simp add: add.commute)
  next
    case 2
    then have rows: "rows_per_event a > 1" "rows_per_event a \<le> 80" "a < 122" "a \<noteq> PageProt" "a \<noteq> InstructionDecode"
      and ctl: "control_air_id a b \<noteq> None" for b
      by (auto simp: rows_per_event_def control_air_id_def)
    obtain control where c: "control_air_id a ?user = Some control"
      using ctl by blast
    have r: "unat ?r = rows_per_event a" "?r > 1"
      using rows by (simp_all add: unat_of_nat take_bit_nat_eq_self word_less_nat_alt)
    have sc': "sc' = sc1\<lparr>sh_trace_area := sh_trace_area sc1 + sh_costs sc1 control\<rparr>"
      using assms(2) a c r by (simp add: shape_retained_syscall_def sc1_def Let_def)
    have b: "unat (sh_heights sc x) + pending_rows sc \<le> n" for x
      using assms(1) by (simp add: shape_inv_def below_def)
    have h: "unat (sh_heights sc a + ?r) = unat (sh_heights sc a) + rows_per_event a"
      using b [of a] assms(3) r rows by (subst unat_add_small) simp_all
    have e: "area_exact sc" "height_exact sc" "sh_costs sc = (\<lambda>a. of_nat (rv64im_costs a))"
      using assms(1) by (simp_all add: shape_inv_def exact_def area_exact_def)
    have "area_exact sc'"
    proof (rule area_exact_upd [OF e(1), of a sc' "sh_heights sc a + ?r" "rows_per_event a * rv64im_costs a + rv64im_costs control"])
      have "(unat (sh_heights sc a) + rows_per_event a) div rows_per_event a = unat (sh_heights sc a) div rows_per_event a + 1"
        using rows(1) by (intro div_add_self2) simp
      then show "table_area (sh_mode sc) a (unat (sh_heights sc a + ?r)) = table_area (sh_mode sc) a (unat (sh_heights sc a)) +
          (rows_per_event a * rv64im_costs a + rv64im_costs control)"
        unfolding h table_area_def table_rows_def c using rows(4) by (simp add: distrib_left mult.commute)
    qed (use rows e in \<open>simp_all add: sc' sc1_def in_air_ids\<close>)
    moreover have "height_exact sc'"
      by (rule height_exact_upd [OF e(2), of a sc' "sh_heights sc a + ?r" "sh_heights sc a + ?r"])
        (use rows h in \<open>simp_all add: sc' sc1_def table_rows_def word_le_nat_alt\<close>)
    moreover have "unat (sh_heights sc' x) + pending_rows sc' \<le> n + 80" for x
      using b [of x] h rows(2) by (cases "x = a") (simp_all add: sc' sc1_def pending_rows_def)
    then have "below (pending_rows sc') (n + 80) sc'"
      by (simp add: below_def)
    ultimately show ?thesis
      by (simp add: shape_inv_def exact_def)
  qed
qed

lemma shape_inv_instruction:
  assumes "shape_inv n sc" "plain a" "n + 35 < 2 ^ 64"
  shows "let sc' = update_heights_and_area (increment_count sc a) bump state_bump
    in exact sc' \<and> below (2 * unat (sh_local_page_prot_counts sc')) (n + 34) sc' \<and> sh_local_mem_counts sc' = 0"
proof -
  have "shape_inv (n + unat (1 :: u64)) (increment_count sc a)"
    unfolding increment_count_def using assms by (intro shape_inv_rows) simp_all
  then show ?thesis
    using update_heights_and_area_step [of "increment_count sc a" "2 * unat (sh_local_page_prot_counts sc)" "n + 1" bump state_bump] assms(3)
    by (simp add: shape_inv_def pending_rows_def Let_def increment_count_def add.commute)
qed

lemma shape_inv_call:
  assumes "shape_inv n sc" "call_shape x sc = Some sc'" "n + call_rows x + 36 < 2 ^ 64"
  shows "shape_inv (n + call_rows x) sc'"
proof (cases x)
  case (S_untrusted i)
  with assms shape_inv_untrusted [OF assms(1), of i] show ?thesis by simp
next
  case (S_mem addr clock)
  with assms shape_inv_mem [OF assms(1)] show ?thesis by simp
next
  case S_rr
  with assms shape_inv_rr [OF assms(1)] show ?thesis by simp
next
  case (S_page_prot i clock)
  with assms shape_inv_page_prot [OF assms(1), of i clock] show ?thesis by simp
next
  case S_commit
  then show ?thesis
    using assms by (auto simp: handle_commit_def shape_inv_def pending_rows_def)
next
  case S_trap_exec
  then show ?thesis
    using assms shape_inv_rows [OF assms(1), of TrapExec 1] by (auto simp: shape_trap_exec_event_def plain_tables)
next
  case S_trap_mem
  then show ?thesis
    using assms shape_inv_rows [OF assms(1), of TrapMem 1] by (auto simp: shape_trap_mem_event_def plain_tables)
next
  case (S_retained code)
  with assms shape_inv_retained [OF assms(1)] show ?thesis by simp
next
  case (S_set_sent b)
  then show ?thesis
    using assms by (auto simp: shape_set_syscall_sent_def shape_inv_def pending_rows_def)
next
  case (S_instruction i bump alu_x0 load_x0 state_bump k)
  show ?thesis
  proof (cases "sh_mode sc")
    case SupervisorMode
    then obtain a where a: "(if alu_x0 then Some AluX0 else if load_x0 then Some LoadX0 else riscv_air_id_from_opcode (opcode i)) = Some a"
      and sc': "sc' = update_heights_and_area (increment_count sc a) bump state_bump"
      using assms(2) S_instruction by (auto simp: shape_instruction_supervisor_def split: Option.bind_splits)
    have "plain a"
      using a by (auto simp: plain_tables dest: plain_opcode split: if_splits)
    with shape_inv_instruction [OF assms(1), of a bump state_bump] assms(3) S_instruction sc' show ?thesis
      by (auto simp: shape_inv_def pending_rows_def Let_def elim: below_mono)
  next
    case UserMode
    then obtain a where a: "(if alu_x0 then Some AluX0User else if load_x0 then Some LoadX0User
        else riscv_air_id_from_opcode_user (opcode i)) = Some a"
      and sc': "sc' = update_heights_and_area_prot (update_heights_and_area (increment_count sc a) bump state_bump) k"
      using assms(2) S_instruction by (auto simp: shape_instruction_user_def split: Option.bind_splits)
    have "plain a"
      using a by (auto simp: plain_tables dest: plain_opcode_user split: if_splits)
    with shape_inv_instruction [OF assms(1), of a bump state_bump] assms(3) S_instruction
      update_heights_and_area_prot_step [of "update_heights_and_area (increment_count sc a) bump state_bump" "n + 34" k]
    show ?thesis
      by (auto simp: sc' shape_inv_def pending_rows_def Let_def elim: below_mono)
  qed
next
  case (S_trap_events bump k)
  then have sc': "sc' = update_heights_and_area_prot (update_heights_and_area sc bump bump) k"
    using assms(2) by (simp add: shape_trap_events_def)
  have "exact sc" "below (2 * unat (sh_local_mem_counts sc) + 2 * unat (sh_local_page_prot_counts sc)) n sc"
    using assms(1) by (simp_all add: shape_inv_def pending_rows_def)
  with update_heights_and_area_step [of sc "2 * unat (sh_local_page_prot_counts sc)" n bump bump]
    update_heights_and_area_prot_step [of "update_heights_and_area sc bump bump" "n + 33" k] assms(3) S_trap_events
  show ?thesis
    by (auto simp: sc' shape_inv_def pending_rows_def elim: below_mono)
qed

lemma shape_inv_calls:
  assumes "shape_inv n sc" "shape_calls xs sc = Some sc'" "n + sum_list (map call_rows xs) + 36 < 2 ^ 64"
  shows "shape_inv (n + sum_list (map call_rows xs)) sc'"
  using assms
proof (induction xs arbitrary: n sc)
  case (Cons x xs)
  then obtain sc1 where x: "call_shape x sc = Some sc1" and xs: "shape_calls xs sc1 = Some sc'"
    by (auto split: Option.bind_splits)
  have "shape_inv (n + call_rows x) sc1"
    using shape_inv_call [OF Cons.prems(1) x] Cons.prems(3) by simp
  from Cons.IH [OF this xs] Cons.prems(3) show ?case
    by (simp add: add.assoc)
qed simp

lemma unat_next_multiple_of:
  assumes "unat n + 32 < 2 ^ 64"
  shows "unat (next_multiple_of n 32) = (if unat n mod 32 = 0 then unat n else unat n + (32 - unat n mod 32))"
proof -
  have m: "unat (n mod 32) = unat n mod 32" "unat n mod 32 < 32"
    by (simp_all add: unat_mod)
  then have "n mod 32 \<le> 32"
    by (simp add: word_le_nat_alt)
  then have d: "unat (32 - n mod 32) = 32 - unat n mod 32"
    using m by (simp add: unat_sub)
  have z: "n mod 32 = 0 \<longleftrightarrow> unat n mod 32 = 0"
    by (metis m(1) unat_eq_0)
  show ?thesis
    unfolding next_multiple_of_def z using unat_add_small [of n "32 - n mod 32"] d m assms by auto
qed

lemma shape_inv_new:
  assumes "unat program_len + 32 < 2 ^ 64"
  shows "shape_inv 64 (shape_new mode program_len clock thr)"
proof -
  let ?sc = "shape_new mode program_len clock thr"
  have "table_area mode a 0 = 0" for a
    by (simp add: table_area_def table_rows_def split: option.splits)
  then have "shape_area ?sc = base_area (unat program_len)"
    by (simp add: shape_area_def shape_new_def Let_def)
  moreover have "next_multiple_of program_len 32 = of_nat (unat (next_multiple_of program_len 32))"
    by simp
  ultimately have "area_exact ?sc"
    unfolding area_exact_def base_area_def unat_next_multiple_of [OF assms, symmetric]
    by (simp add: shape_new_def Let_def)
  moreover have "height_exact ?sc"
    by (simp add: height_exact_def shape_new_def Let_def table_rows_def)
  ultimately show ?thesis
    by (simp add: shape_inv_def exact_def below_def pending_rows_def shape_new_def Let_def)
qed

subsection \<open>No overflow\<close>

lemma costs_le: "rv64im_costs a \<le> 2640"
proof (cases "a < 122")
  case True
  then show ?thesis
    unfolding rv64im_costs_def if_P [OF True]
    by (intro list_all_length [THEN iffD1, rule_format, of "\<lambda>x. x \<le> 2640"]) simp_all
qed (simp add: rv64im_costs_def)

lemma table_area_le: "table_area mode a h \<le> 5280 * h"
proof -
  have "rv64im_costs a * table_rows a h \<le> 2640 * h"
    by (rule mult_le_mono [OF costs_le]) (auto simp: table_rows_def)
  moreover have "rv64im_costs c * (h div rows_per_event a) \<le> 2640 * h" for c
    by (rule mult_le_mono [OF costs_le]) simp
  ultimately show ?thesis
    unfolding table_area_def by (cases "control_air_id a (PAGE_PROTECTION_ENABLED mode)") (simp_all add: add_le_mono [of _ "2640 * h" _ "2640 * h", simplified])
qed

lemma shape_area_less:
  assumes "shape_inv n sc" "n < 2 ^ 41" "unat (sh_program_len sc) < 2 ^ 32"
  shows "shape_area sc < 2 ^ 64"
proof -
  have "unat (sh_heights sc a) \<le> n" for a
    using assms(1) belowD [of "pending_rows sc" n sc a] by (simp add: shape_inv_def)
  then have "table_area (sh_mode sc) a (unat (sh_heights sc a)) \<le> 5280 * n" for a
    by (meson table_area_le le_trans mult_le_mono2)
  then have "(\<Sum>a \<in> set air_ids. table_area (sh_mode sc) a (unat (sh_heights sc a))) \<le> of_nat (card (set air_ids)) * (5280 * n)"
    by (intro sum_bounded_above)
  also have "card (set air_ids) = 122"
    by (simp add: air_ids_def del: upt_rec_numeral)
  finally have s: "(\<Sum>a \<in> set air_ids. table_area (sh_mode sc) a (unat (sh_heights sc a))) \<le> 644160 * n"
    by simp
  have m: "x * rv64im_costs a \<le> x * 2640" for x a
    by (rule mult_le_mono2 [OF costs_le])
  have "(if k mod 32 = 0 then k else k + (32 - k mod 32)) < 2 ^ 33" if "k < 2 ^ 32" for k :: nat
    using that by (auto intro: le_less_trans [of _ "k + 32"])
  from this [OF assms(3)] have "base_area (unat (sh_program_len sc)) \<le> 2 ^ 33 * 2640 + 2 ^ 16 * 2640 + 2 ^ 17 * 2640 + 2 ^ 18 + 2 ^ 18"
    unfolding base_area_def by (intro add_mono m order_refl mult_le_mono costs_le) auto
  with s assms(2) show ?thesis
    by (simp add: shape_area_def)
qed

definition same_shard :: "ShapeChecker \<Rightarrow> ShapeChecker \<Rightarrow> bool" where
  "same_shard sc sc' \<longleftrightarrow> sh_mode sc' = sh_mode sc \<and> sh_program_len sc' = sh_program_len sc \<and>
    sh_sharding_threshold sc' = sh_sharding_threshold sc"

lemma same_shard_trans: "same_shard sc sc1 \<Longrightarrow> same_shard sc1 sc2 \<Longrightarrow> same_shard sc sc2"
  by (simp add: same_shard_def)

lemma same_shard_refl [simp]: "same_shard sc sc"
  by (simp add: same_shard_def)

lemma same_shard_ops [simp]:
  "same_shard s (add_rows a k area sc) \<longleftrightarrow> same_shard s sc" "same_shard s (increment_count sc a) \<longleftrightarrow> same_shard s sc"
  "same_shard s (update_heights_and_area sc bump state_bump) \<longleftrightarrow> same_shard s sc"
  "same_shard s (update_heights_and_area_prot sc n) \<longleftrightarrow> same_shard s sc"
  "same_shard s (handle_untrusted_instruction sc i) \<longleftrightarrow> same_shard s sc"
  "same_shard s (shape_page_prot_event sc p clock) \<longleftrightarrow> same_shard s sc"
  "same_shard s (shape_local_mem_syscall_rr sc) \<longleftrightarrow> same_shard s sc" "same_shard s (handle_commit sc) \<longleftrightarrow> same_shard s sc"
  "same_shard s (shape_set_syscall_sent sc b) \<longleftrightarrow> same_shard s sc"
  by (simp_all add: same_shard_def increment_count_def update_heights_and_area_def update_heights_and_area_prot_def Let_def
      handle_untrusted_instruction_def shape_page_prot_event_def shape_local_mem_syscall_rr_def handle_commit_def
      shape_set_syscall_sent_def)

lemma same_shard_mem: "shape_mem_event sc addr clock = Some sc' \<Longrightarrow> same_shard sc sc'"
  by (auto simp: shape_mem_event_def same_shard_def Let_def split: Option.bind_splits)

lemma same_shard_retained: "shape_retained_syscall sc code = Some sc' \<Longrightarrow> same_shard sc sc'"
  by (auto simp: shape_retained_syscall_def Let_def same_shard_def split: Option.bind_splits if_split_asm)

lemma call_shape_same: "call_shape x sc = Some sc' \<Longrightarrow> same_shard sc sc'"
proof (cases x)
  case (S_instruction i bump alu_x0 load_x0 state_bump k)
  assume "call_shape x sc = Some sc'"
  with S_instruction show ?thesis
    by (cases "sh_mode sc")
      (auto simp: shape_instruction_supervisor_def shape_instruction_user_def split: Option.bind_splits)
qed (auto simp: shape_trap_exec_event_def shape_trap_mem_event_def shape_trap_events_def
    dest: same_shard_mem same_shard_retained)

lemma shape_calls_same: "shape_calls xs sc = Some sc' \<Longrightarrow> same_shard sc sc'"
proof (induction xs arbitrary: sc)
  case (Cons x xs)
  then show ?case
    by (auto split: Option.bind_splits dest: call_shape_same intro: same_shard_trans)
qed simp

text \<open>
  (C15) The estimate of the size of a shard is exact. After any sequence of calls to a fresh shape checker, the
  trace area is the area of the preprocessed tables and of all tables with their counted heights and control
  rows, computed without overflow, and the maximal height bounds the rows of every table. So a shard that holds
  no commit and has not reached the limit is below the thresholds in area and in the height of every table.
\<close>

theorem shard_size_exact:
  assumes "shape_calls xs (shape_new mode program_len clock thr) = Some sc"
    and "unat program_len < 2 ^ 32" "sum_list (map call_rows xs) < 2 ^ 40"
  shows "unat (sh_trace_area sc) = base_area (unat program_len) +
      (\<Sum>a \<in> set air_ids. table_area mode a (unat (sh_heights sc a))) \<and>
    (\<forall>a \<in> set air_ids. table_rows a (unat (sh_heights sc a)) \<le> unat (sh_max_height sc)) \<and>
    (\<not> check_shard_limit sc \<longrightarrow> \<not> sh_is_commit_on sc \<longrightarrow>
      unat (sh_trace_area sc) < unat (element_threshold thr) \<and>
      (\<forall>a \<in> set air_ids. table_rows a (unat (sh_heights sc a)) < unat (height_threshold thr)))"
proof -
  let ?sc = "shape_new mode program_len clock thr" and ?n = "64 + sum_list (map call_rows xs)"
  have const: "sh_mode sc = mode" "sh_program_len sc = program_len" "sh_sharding_threshold sc = thr"
    using shape_calls_same [OF assms(1)] by (simp_all add: same_shard_def shape_new_def Let_def)
  have inv: "shape_inv ?n sc"
    using assms by (intro shape_inv_calls [OF shape_inv_new assms(1)]) simp_all
  then have "unat (sh_trace_area sc) = shape_area sc"
    using shape_area_less [of ?n sc] assms(2,3) const
    by (simp add: shape_inv_def exact_def area_exact_def unat_of_nat take_bit_nat_eq_self)
  moreover have "table_rows a (unat (sh_heights sc a)) \<le> unat (sh_max_height sc)" for a
  proof (cases "a = InstructionDecode")
    case True
    have "unat (sh_heights sc InstructionDecode) \<le> unat (sh_heights sc InstructionFetch)"
      and "table_rows InstructionFetch (unat (sh_heights sc InstructionFetch)) \<le> unat (sh_max_height sc)"
      using inv by (simp_all add: shape_inv_def exact_def height_exact_def)
    with True show ?thesis
      by (simp add: table_rows_def)
  qed (use inv in \<open>simp add: shape_inv_def exact_def height_exact_def\<close>)
  ultimately show ?thesis
    using const by (auto simp: shape_area_def check_shard_limit_def word_le_nat_alt not_le intro: le_less_trans)
qed

theorem shard_size_exact_witness:
  "\<exists>sc. shape_calls [S_retained SHA_COMPRESS, S_instruction (new_instruction ECALL 5 10 11 False False) False False False False 0]
      (shape_new SupervisorMode 1 1 \<lparr>element_threshold = 2 ^ 40, height_threshold = 2 ^ 22\<rparr>) = Some sc \<and>
    unat (sh_trace_area sc) = base_area 1 + (\<Sum>a \<in> set air_ids. table_area SupervisorMode a (unat (sh_heights sc a)))"
proof -
  let ?xs = "[S_retained SHA_COMPRESS, S_instruction (new_instruction ECALL 5 10 11 False False) False False False False 0]"
  let ?sc = "shape_new SupervisorMode 1 1 \<lparr>element_threshold = 2 ^ 40, height_threshold = 2 ^ 22\<rparr>"
  have "sh_mode ?sc = SupervisorMode"
    by (simp add: shape_new_def Let_def)
  then have "shape_calls ?xs ?sc \<noteq> None"
    by (simp add: shape_retained_syscall_def rows_per_event_def control_air_id_def Let_def shape_instruction_supervisor_def
        riscv_air_id_from_opcode_def new_instruction_def add_rows_def)
  then obtain sc where sc: "shape_calls ?xs ?sc = Some sc"
    by blast
  with shard_size_exact [OF sc] show ?thesis
    by auto
qed

end
