(* ===== verification/Trace_Bytes.thy ===== *)
theory Trace_Bytes
  imports Trace_Chunk
begin

text \<open>
  The trace buffer as the bytes of its map: the methods of \<open>TraceChunkBuffer\<close>
  (\<open>minimal/arch/portable/trace.rs\<close>), which write through raw pointers at the offsets of the fields of
  \<open>TraceChunkHeader\<close>, and the getters of \<open>TraceChunkRaw\<close> (\<open>core/jit/src/risc.rs\<close>), which read there. The
  counter of the reads is one of these fields. An access outside the map is undefined behaviour in the
  source and \<open>None\<close> here, like a panic.

  The record \<open>TraceChunkBuffer\<close> of the theory \<open>Trace_Chunk\<close>, which the executor of the model writes to, is
  the specification: the operations on the bytes implement the operations on the record, so that none of
  them leaves the map.
\<close>

subsection \<open>Accesses through a pointer\<close>




definition u64s_bytes :: "u64 list \<Rightarrow> u8 list" where
  "u64s_bytes ws = concat (map to_le_bytes ws)"

definition MemValues_bytes :: "MemValue list \<Rightarrow> u8 list" where
  "MemValues_bytes vs = concat (map mem_value_bytes vs)"


subsection \<open>The buffer\<close>









subsection \<open>The getters\<close>







subsection \<open>Words of the header\<close>

lemma length_u64s_bytes [simp]: "length (u64s_bytes ws) = 8 * length ws"
  by (simp add: u64s_bytes_def length_words_bytes)

lemma length_MemValues_bytes [simp]: "length (MemValues_bytes vs) = 16 * length vs"
  by (simp add: MemValues_bytes_def length_reads_bytes)







text \<open>The bytes of a buffer: the header, the reads and the rest.\<close>

definition reads_bytes :: "TraceChunkBuffer \<Rightarrow> u8 list" where
  "reads_bytes b = MemValues_bytes (buf_reads b) @
     replicate (unat (buf_len b) - (304 + 16 * length (buf_reads b))) 0"



lemma header_words_list:
  "header_words b = map (h_start_registers b) [0..<32] @
     [h_pc_start b, h_clk_start b, h_clk_end b, num_mem_reads b, h_global_clk_end b, 0]"
  by (rule header_words_def)



lemma reads_bytes_update [simp]:
  "reads_bytes (b\<lparr>h_start_registers := regs\<rparr>) = reads_bytes b" "reads_bytes (b\<lparr>h_pc_start := w\<rparr>) = reads_bytes b"
  "reads_bytes (b\<lparr>h_clk_start := w\<rparr>) = reads_bytes b" "reads_bytes (b\<lparr>h_clk_end := w\<rparr>) = reads_bytes b"
  "reads_bytes (b\<lparr>h_global_clk_end := w\<rparr>) = reads_bytes b"
  by (simp_all add: reads_bytes_def)




subsection \<open>The reads\<close>






subsection \<open>Properties\<close>



end
