(* ===== verification/Spec2Isabelle.thy ===== *)
theory Spec2Isabelle
  imports Shards Shape_Size Trace_Bytes
begin

text \<open>
  A verification development for the executor of SP1, a zero-knowledge virtual machine for RV64IM
  programs (\<open>crates/core/executor\<close>, with the parts of \<open>crates/core/jit\<close>, \<open>crates/primitives\<close> and
  \<open>crates/curves\<close> that it uses and the cutting into shards of \<open>crates/core/machine/src/utils/prove.rs\<close>).

  \<^bold>\<open>The program.\<close> A guest program runs first in the minimal executor
  (\<open>minimal/arch/portable/mod.rs\<close>), which has the real memory and emits, chunk by chunk, the values of
  the memory words it reads. The core VM (\<open>vm.rs\<close>) replays a chunk without a memory: it takes every
  memory value from the chunk. Proof generation depends on both executions being the same. Around the
  core VM stand machines that add accounting to the same execution (the trait \<open>SyscallRuntime\<close> of
  \<open>vm/syscall.rs\<close>). One of them, the splicing VM (\<open>splicing.rs\<close>), cuts a chunk into shards: a shape checker
  (\<open>vm/shapes.rs\<close>) estimates the size of the shard that is being executed, and where it reaches the limit
  the trace of the shard is emitted. Each shard is proved on its own, from its own trace.

  \<^bold>\<open>Conventions.\<close> Machine integers are words of their width with the wrap-around of the release build.
  Structs are records, with a prefix on the field names (\<open>m_\<close> minimal executor, \<open>c_\<close> core VM, \<open>sp_\<close>
  splicing VM, \<open>sh_\<close> shape checker); enums are
  datatypes with the constructors of the source. A panic is \<open>None\<close>; a \<open>Result\<close> that may also panic is of
  type \<open>outcome\<close> (\<open>Panic\<close>, \<open>Err\<close>, \<open>Ok\<close>). Mutable state is passed explicitly. Code that is not in the
  repository, and the few functions listed at the end, are the fields of the record \<open>externs\<close>.

  \<^bold>\<open>Theories.\<close>
  \<^item> \<open>Sp1_Prelude\<close>: integer types, \<open>outcome\<close>, checked lists, bytes and words in little-endian order.
  \<^item> \<open>Opcode\<close>, \<open>Instruction\<close>, \<open>Syscall_Code\<close>, \<open>Machine\<close>: \<open>opcode.rs\<close>, \<open>instruction.rs\<close>, \<open>syscall_code.rs\<close>,
    and the data both executors share (\<open>errors.rs\<close>, \<open>register.rs\<close>, \<open>mode.rs\<close>, \<open>program.rs\<close>).
  \<^item> \<open>Alu\<close>: the arithmetic of both executors, equal to RV64IM over the integers.
  \<^item> \<open>Mem_Access\<close>: loads and stores of parts of a word, equal to a specification by bytes.
  \<^item> \<open>Paged_Memory\<close>, \<open>Cow_Memory\<close>: \<open>memory.rs\<close> and \<open>minimal/arch/portable/cow.rs\<close>. The paged memory is a map;
    leaving the copy-on-write mode restores the memory; the limit on entries is exact.
  \<^item> \<open>Trace_Chunk\<close>, \<open>Trace_Bytes\<close>: the trace buffer of \<open>minimal/arch/portable/trace.rs\<close> as a record, its byte layout
    and its bincode form (\<open>crates/core/jit\<close>), with round trips; and the buffer as the bytes of a map, written and
    read through pointers, which implements the record and stays within the map.
  \<^item> \<open>Minimal_Executor\<close>, \<open>Precompile_Arith\<close>, \<open>Minimal_Ecall\<close>: the state and the instructions of the minimal
    executor, the arithmetic of the precompiles, the system calls, one instruction, and one chunk.
  \<^item> \<open>Core_VM\<close>, \<open>Core_Syscall\<close>, \<open>Core_Step\<close>: the core VM, the trait \<open>SyscallRuntime\<close> as a record of methods with
    every system-call handler, and one instruction of the core VM. The locale \<open>syscall_machine\<close> is the
    contract of a runtime; its lemmas show that a handler run in any such machine does to the core VM inside
    what it does to the core VM alone.
  \<^item> \<open>Step_Relation\<close>: a locale for relations between the states before and after a step of the minimal
    executor, proved through the instructions once and interpreted for the recorded reads, the memory
    invariant, the errors, the options and the chunk header.
  \<^item> \<open>Minimal_Runs\<close>: the states in which a client finds the minimal executor, also after an error, and their
    invariant; the chunk headers; the errors of a chunk.
  \<^item> \<open>Replay_Rules\<close>, \<open>Replay_Syscalls\<close>, \<open>Replay_Instructions\<close>, \<open>Replay_Ecall\<close>, \<open>Replay_Step\<close>, \<open>Replay\<close>: the core VM
    created from a chunk follows the minimal executor that recorded it, instruction by instruction.
  \<^item> \<open>Air_Id\<close>: the tables of \<open>air.rs\<close> and the cost files under \<open>artifacts\<close>.
  \<^item> \<open>Compressed_Memory\<close>: the bit sets of touched addresses and pages (\<open>vm/memory.rs\<close>), through the locale
    \<open>bit_set\<close>, which both implement.
  \<^item> \<open>Shape_Checker\<close>, \<open>Shape_Size\<close>: \<open>vm/shapes.rs\<close>, and that the area and the height it computes are those of the
    tables of the shard, without overflow.
  \<^item> \<open>Splicing_VM\<close>: \<open>splicing.rs\<close>, and that the splicing VM does to the core VM inside what the core VM does alone.
  \<^item> \<open>Replay_Path\<close>: the run of a chunk as a sequence of states, one for each instruction of the core VM.
  \<^item> \<open>Shards\<close>: the loop that cuts a chunk into shards. The shards can be replayed one by one, follow each other,
    and share out the reads of the chunk.

  \<^bold>\<open>Fuel.\<close> The loop over the instructions of a chunk may run for ever when the guest does; \<open>chunk_loop\<close> takes
  a fuel and returns \<open>None\<close> when it runs out, and so do \<open>core_loop\<close>, \<open>splicing_loop\<close> and \<open>splice_loop\<close>, the loop over
  the shards. The theorems on the replay and on the shards show that the fuel that was enough for the minimal
  executor is enough for these. All other loops are structural, or have a termination proof.

  \<^bold>\<open>The loop of the core VM.\<close> The core VM has no loop of its own in the source: the machines around it have one each,
  with the same calls on the core VM inside. \<open>core_loop\<close> is this common part. For the splicing VM, whose loop is
  modelled as well, the theory \<open>Splicing_VM\<close> proves that a step of it is a step of the core VM inside.

  \<^bold>\<open>Restrictions of the replay theorem.\<close> \<open>chunk_ok\<close> asks for \<open>replay_ok\<close> in every state of the run. \<open>replay_ok\<close> excludes, as a predicate on the states of the run, where the
  two executors differ: \<open>SIG_RETURN\<close> outside the user mode, arguments of \<open>SIG_RETURN\<close>, \<open>POSEIDON2\<close> and
  \<open>SHA_EXTEND\<close> that only the core VM rejects, misaligned accesses in user mode, in user mode a system-call
  number in X5 whose upper half is not zero, recording traps inside an unconstrained block, and instructions
  with an immediate as second but not as third operand, which the disassembler does not produce.

  \<^bold>\<open>Not modelled.\<close> The debugger, the profiler, the hooks and the system call that dumps a snapshot are host-side
  services. The tracing VM adds the event tables of the constraint systems to the execution of the core VM;
  the constraint systems, the proof system, recursion, prover, verifier and GPU code are probabilistic
  arguments over finite fields and their orchestration. The native code generator has the portable executor
  as its specification. The permutations of Keccak and Poseidon2, the group law of the curves, the decompression
  of points and the decoder of instructions are parameters.
\<close>

end
